(* ===== verification/Prelude.thy ===== *)
theory Prelude
  imports Main "HOL-Library.Word"
begin

text \<open>
  Shared ground of the ipppd development: the machine integers of the C code, the byte
  macros \<open>GETCHAR\<close>, \<open>GETSHORT\<close>, \<open>GETLONG\<close>, \<open>PUTCHAR\<close>, \<open>PUTSHORT\<close>, \<open>PUTLONG\<close> of
  ipppd/ipppd.h, and a small result type for code that reads through a pointer.

  A pointer into a buffer is the list of bytes from the pointer to the end of the buffer.
  \<open>Undef\<close> is an access outside the buffer (undefined behaviour of the C program), \<open>Bad\<close> is
  the \<open>goto bad\<close> of the option parsers, \<open>Ok\<close> an ordinary result. A \<open>cursor\<close> is the pair of
  the pointer \<open>p\<close> and the signed counter \<open>len\<close> the parsers keep beside it.
\<close>

unbundle bit_operations_syntax

named_theorems parser_intros \<open>rules that show a parser stays inside its packet\<close>
named_theorems exact_intros \<open>rules that show a parser accepts exactly one byte string\<close>

section \<open>Machine integers\<close>

type_synonym u8 = "8 word"
type_synonym u16 = "16 word"
type_synonym u32 = "32 word"

text \<open>An \<open>int\<close> that meets a \<open>size_t\<close> in a comparison is converted to \<open>size_t\<close> (64 bit).\<close>

definition szt :: "int \<Rightarrow> int" where
  "szt x = x mod 2 ^ 64"

lemma szt_id [simp]: "0 \<le> x \<Longrightarrow> x < 2 ^ 64 \<Longrightarrow> szt x = x"
  by (simp add: szt_def)

lemma szt_numeral [simp]: "szt (numeral n) = numeral n mod 2 ^ 64" "szt 0 = 0" "szt 1 = 1"
  by (simp_all add: szt_def)

section \<open>Results of code that reads through pointers\<close>

datatype 'a outcome = Undef | Bad | Ok 'a

fun bindo :: "'a outcome \<Rightarrow> ('a \<Rightarrow> 'b outcome) \<Rightarrow> 'b outcome" where
  "bindo Undef f = Undef"
| "bindo Bad f = Bad"
| "bindo (Ok x) f = f x"

lemma bindo_Ok_iff: "bindo m f = Ok y \<longleftrightarrow> (\<exists>x. m = Ok x \<and> f x = Ok y)"
  by (cases m) auto

lemma bindo_assoc: "bindo (bindo m f) g = bindo m (\<lambda>x. bindo (f x) g)"
  by (cases m) auto

lemma bindo_cong [fundef_cong]:
  "m = m' \<Longrightarrow> (\<And>x. m' = Ok x \<Longrightarrow> f x = f' x) \<Longrightarrow> bindo m f = bindo m' f'"
  by (cases m') auto

section \<open>The byte macros\<close>

fun getchar :: "u8 list \<Rightarrow> (u8 \<times> u8 list) outcome" where
  "getchar (c # p) = Ok (c, p)"
| "getchar [] = Undef"

definition join16 :: "u8 \<Rightarrow> u8 \<Rightarrow> u16" where
  "join16 a b = push_bit 8 (ucast a) OR ucast b"

definition getshort :: "u8 list \<Rightarrow> (u16 \<times> u8 list) outcome" where
  "getshort p = bindo (getchar p) (\<lambda>(a, p). bindo (getchar p) (\<lambda>(b, p). Ok (join16 a b, p)))"

definition join32 :: "u8 \<Rightarrow> u8 \<Rightarrow> u8 \<Rightarrow> u8 \<Rightarrow> u32" where
  "join32 a b c d =
     (let l = push_bit 8 (ucast a);
          l = push_bit 8 (l OR ucast b);
          l = push_bit 8 (l OR ucast c)
      in l OR ucast d)"

definition getlong :: "u8 list \<Rightarrow> (u32 \<times> u8 list) outcome" where
  "getlong p =
     bindo (getchar p) (\<lambda>(a, p). bindo (getchar p) (\<lambda>(b, p).
     bindo (getchar p) (\<lambda>(c, p). bindo (getchar p) (\<lambda>(d, p). Ok (join32 a b c d, p)))))"

lemma getshort_append: "length q = 2 \<Longrightarrow> \<exists>x. getshort (q @ r) = Ok (x, r)"
  by (auto simp: getshort_def numeral_2_eq_2 length_Suc_conv)

lemma getlong_append: "length q = 4 \<Longrightarrow> \<exists>x. getlong (q @ r) = Ok (x, r)"
  by (auto simp: getlong_def numeral_eq_Suc length_Suc_conv)

lemma getshort_drop: "2 \<le> length p \<Longrightarrow> \<exists>x. getshort p = Ok (x, drop 2 p)"
  using getshort_append [of "take 2 p" "drop 2 p"] by auto

lemma getlong_drop: "4 \<le> length p \<Longrightarrow> \<exists>x. getlong p = Ok (x, drop 4 p)"
  using getlong_append [of "take 4 p" "drop 4 p"] by auto

lemma getshort_Ok: "getshort p = Ok (x, q) \<Longrightarrow> \<exists>a b. p = a # b # q \<and> x = join16 a b"
  by (cases p rule: remdups_adj.cases) (auto simp: getshort_def)

lemma getlong_Ok: "getlong p = Ok (x, q) \<Longrightarrow> \<exists>a b c d. p = a # b # c # d # q \<and> x = join32 a b c d"
  by (cases p; cases "tl p"; cases "tl (tl p)"; cases "tl (tl (tl p))") (auto simp: getlong_def)

lemma getlong_split: "getlong p = Ok (x, q) \<Longrightarrow> q = drop 4 p \<and> 4 \<le> length p"
  by (auto dest!: getlong_Ok simp: numeral_eq_Suc)

definition putshort :: "u16 \<Rightarrow> u8 list" where
  "putshort s = [ucast (drop_bit 8 s), ucast s]"

definition putlong :: "u32 \<Rightarrow> u8 list" where
  "putlong l = [ucast (drop_bit 24 l), ucast (drop_bit 16 l), ucast (drop_bit 8 l), ucast l]"

lemma length_putshort [simp]: "length (putshort s) = 2"
  by (simp add: putshort_def)

lemma length_putlong [simp]: "length (putlong l) = 4"
  by (simp add: putlong_def)

lemma join16_split [simp]: "join16 (ucast (drop_bit 8 s)) (ucast s) = s"
  by (rule bit_eqI) (auto simp: join16_def bit_simps)

lemma join32_split [simp]:
  "join32 (ucast (drop_bit 24 l)) (ucast (drop_bit 16 l)) (ucast (drop_bit 8 l)) (ucast l) = l"
proof (rule bit_eqI)
  fix n
  show "bit (join32 (ucast (drop_bit 24 l)) (ucast (drop_bit 16 l)) (ucast (drop_bit 8 l)) (ucast l)) n
    = bit l n"
    by (cases "n < 8"; cases "n < 16"; cases "n < 24")
      (auto simp: join32_def Let_def bit_simps dest: bit_imp_le_length)
qed

lemma split_join16 [simp]:
  "ucast (drop_bit 8 (join16 a b)) = a" "ucast (join16 a b) = b"
  by (rule bit_eqI; auto simp: join16_def bit_simps dest: bit_imp_le_length)+

lemma split_join32 [simp]:
  "ucast (drop_bit 24 (join32 a b c d)) = a" "ucast (drop_bit 16 (join32 a b c d)) = b"
  "ucast (drop_bit 8 (join32 a b c d)) = c" "ucast (join32 a b c d) = d"
  by (rule bit_eqI; auto simp: join32_def Let_def bit_simps dest: bit_imp_le_length)+

end
