(* ===== verification/Ci_Parser.thy ===== *)
theory Ci_Parser
  imports Prelude
begin

text \<open>
  The configuration-option parsers of lcp.c and ipcp.c are sequences of macros, each of which
  advances the pointer \<open>p\<close> and decreases the counter \<open>len\<close>. A parser here is a function on
  the pair; \<open>seqp\<close> runs a list of them in order, stopping at the first \<open>goto bad\<close>.

  Two contracts are stated for parsers. \<open>inside f\<close>: as long as at least \<open>len\<close> bytes are left
  behind \<open>p\<close>, \<open>f\<close> reads none outside them and keeps that relation. \<open>exact f e\<close>: \<open>f\<close> accepts
  the byte string \<open>e\<close> and nothing else. Both are closed under \<open>seqp\<close>.

  The locale \<open>ci_codec\<close> is the contract between the \<open>addci\<close>, \<open>cilen\<close> and \<open>ackci\<close> callbacks
  of one protocol; it is interpreted on the LCP and the IPCP options.
\<close>

type_synonym cursor = "u8 list \<times> int"

definition within :: "cursor \<Rightarrow> bool" where
  "within s \<longleftrightarrow> 0 \<le> snd s \<and> snd s \<le> int (length (fst s))"

fun seqp :: "('s \<Rightarrow> 's outcome) list \<Rightarrow> 's \<Rightarrow> 's outcome" where
  "seqp [] s = Ok s"
| "seqp (f # fs) s = bindo (f s) (seqp fs)"

text \<open>\<open>if (len != 0) goto bad;\<close> at the end of every parser.\<close>

fun at_end :: "cursor \<Rightarrow> unit outcome" where
  "at_end (p, len) = (if len \<noteq> 0 then Bad else Ok ())"

text \<open>The type and length bytes of an option.\<close>

definition CILEN_VOID :: int where "CILEN_VOID = 2"

text \<open>
  The test that opens every \<open>NAKCI\<close> and \<open>REJCI\<close> macro: \<open>len >= l && p[1] == l && p[0] == opt\<close>.
\<close>

fun ci_here :: "int \<Rightarrow> u8 \<Rightarrow> cursor \<Rightarrow> bool outcome" where
  "ci_here l opt (p, len) =
     (if len < l then Ok False
      else case p of c0 # c1 # _ \<Rightarrow> Ok (uint c1 = l \<and> c0 = opt) | _ \<Rightarrow> Undef)"

lemma ci_here_defined: "2 \<le> l \<Longrightarrow> within s \<Longrightarrow> \<exists>b. ci_here l opt s = Ok b"
  by (cases s rule: prod.exhaust, cases "fst s" rule: remdups_adj.cases) (auto simp: within_def)

lemma ci_here_iff:
  assumes "within (p, len)" "2 \<le> l" "l < 256"
  shows "ci_here l opt (p, len) = Ok True \<longleftrightarrow> l \<le> len \<and> take 2 p = [opt, word_of_int l]"
proof -
  have b: "uint c = l \<longleftrightarrow> c = word_of_int l" for c :: u8
    using assms by (auto simp: uint_word_of_int)
  show ?thesis
    using assms by (cases p rule: remdups_adj.cases) (auto simp: within_def b)
qed

section \<open>Parsers that stay inside the packet\<close>

definition inside :: "(cursor \<Rightarrow> cursor outcome) \<Rightarrow> bool" where
  "inside f \<longleftrightarrow> (\<forall>s. within s \<longrightarrow> (case f s of Undef \<Rightarrow> False | Bad \<Rightarrow> True | Ok s' \<Rightarrow> within s'))"

lemma insideI [intro?]:
  "(\<And>p len. within (p, len) \<Longrightarrow>
     (case f (p, len) of Undef \<Rightarrow> False | Bad \<Rightarrow> True | Ok s' \<Rightarrow> within s')) \<Longrightarrow> inside f"
  by (auto simp: inside_def)

lemma insideD:
  assumes "inside f" "within s"
  shows "f s \<noteq> Undef \<and> (\<forall>s'. f s = Ok s' \<longrightarrow> within s')"
  using assms unfolding inside_def by (cases "f s") (metis outcome.simps)+

lemma inside_seqp [parser_intros]: "list_all inside fs \<Longrightarrow> inside (seqp fs)"
proof (induction fs)
  case Nil
  then show ?case by (simp add: inside_def)
next
  case (Cons f fs)
  show ?case
  proof
    fix p len assume "within (p, len)"
    then have f: "f (p, len) \<noteq> Undef \<and> (\<forall>s'. f (p, len) = Ok s' \<longrightarrow> within s')"
      using Cons.prems insideD [of f "(p, len)"] by simp
    have fs: "inside (seqp fs)" using Cons by simp
    show "case seqp (f # fs) (p, len) of Undef \<Rightarrow> False | Bad \<Rightarrow> True | Ok s' \<Rightarrow> within s'"
    proof (cases "f (p, len)")
      case (Ok s')
      with f have "within s'" by simp
      then have "seqp fs s' \<noteq> Undef \<and> (\<forall>t. seqp fs s' = Ok t \<longrightarrow> within t)"
        by (rule insideD [OF fs])
      with Ok show ?thesis by (simp split: outcome.split)
    qed (use f in simp_all)
  qed
qed

lemma at_end_defined [simp]: "at_end s \<noteq> Undef"
  by (cases s) simp

section \<open>Parsers that accept exactly one byte string\<close>

definition exact :: "(cursor \<Rightarrow> cursor outcome) \<Rightarrow> u8 list \<Rightarrow> bool" where
  "exact f e \<longleftrightarrow> (\<forall>p len. within (p, len) \<longrightarrow>
     f (p, len) = (if int (length e) \<le> len \<and> take (length e) p = e
                   then Ok (drop (length e) p, len - int (length e)) else Bad))"

lemma exactI [intro?]:
  "(\<And>p len. within (p, len) \<Longrightarrow>
     f (p, len) = (if int (length e) \<le> len \<and> take (length e) p = e
                   then Ok (drop (length e) p, len - int (length e)) else Bad)) \<Longrightarrow> exact f e"
  by (simp add: exact_def)

lemma exactD:
  "exact f e \<Longrightarrow> within (p, len) \<Longrightarrow>
     f (p, len) = (if int (length e) \<le> len \<and> take (length e) p = e
                   then Ok (drop (length e) p, len - int (length e)) else Bad)"
  by (simp add: exact_def)

lemma exact_inside: "exact f e \<Longrightarrow> inside f"
  by (auto simp: inside_def exact_def within_def)

lemma within_drop: "within (p, len) \<Longrightarrow> int n \<le> len \<Longrightarrow> within (drop n p, len - int n)"
  by (auto simp: within_def)

lemma take_append_eq:
  "take (length a + length b) p = a @ b
     \<longleftrightarrow> take (length a) p = a \<and> take (length b) (drop (length a) p) = b"
proof
  assume *: "take (length a + length b) p = a @ b"
  from arg_cong [OF *, of "take (length a)"] have "take (length a) p = a" by simp
  moreover from arg_cong [OF *, of "drop (length a)"]
  have "take (length b) (drop (length a) p) = b" by (simp add: take_drop add.commute)
  ultimately show "take (length a) p = a \<and> take (length b) (drop (length a) p) = b" ..
next
  assume "take (length a) p = a \<and> take (length b) (drop (length a) p) = b"
  then show "take (length a + length b) p = a @ b" by (simp add: take_add)
qed

lemma exact_seqp [exact_intros]: "list_all2 exact fs es \<Longrightarrow> exact (seqp fs) (concat es)"
proof (induction fs arbitrary: es)
  case Nil
  then show ?case by (auto simp: exact_def within_def)
next
  case (Cons f fs)
  then obtain e es' where es: "es = e # es'" and f: "exact f e" and fs: "list_all2 exact fs es'"
    by (auto simp: list_all2_Cons1)
  show ?case
  proof
    fix p len assume w: "within (p, len)"
    show "seqp (f # fs) (p, len) =
      (if int (length (concat es)) \<le> len \<and> take (length (concat es)) p = concat es
       then Ok (drop (length (concat es)) p, len - int (length (concat es))) else Bad)"
    proof (cases "int (length e) \<le> len \<and> take (length e) p = e")
      case True
      then have "seqp (f # fs) (p, len) = seqp fs (drop (length e) p, len - int (length e))"
        using exactD [OF f w] by simp
      also have "\<dots> = (if int (length (concat es')) \<le> len - int (length e)
            \<and> take (length (concat es')) (drop (length e) p) = concat es'
          then Ok (drop (length (concat es')) (drop (length e) p),
                   len - int (length e) - int (length (concat es'))) else Bad)"
        using exactD [OF Cons.IH [OF fs] within_drop [OF w]] True by blast
      finally show ?thesis
        using True by (auto simp: es take_append_eq add.commute)
    next
      case False
      then have "f (p, len) = Bad"
        using exactD [OF f w] by (simp only: if_False)
      then have "seqp (f # fs) (p, len) = Bad" by simp
      moreover have "\<not> (int (length (concat es)) \<le> len \<and> take (length (concat es)) p = concat es)"
        using False by (auto simp: es take_append_eq)
      ultimately show ?thesis by simp
    qed
  qed
qed

lemma exact_skip [exact_intros]: "exact (\<lambda>s. Ok s) []"
  by (auto simp: exact_def within_def)

section \<open>Parsers of a Nak\<close>

text \<open>
  The Nak parsers update a state as they go. \<open>NakBad\<close> is the \<open>goto bad\<close> with the state at that
  point, \<open>NakUndef\<close> an access outside the buffer.
\<close>

datatype 's nak_result = NakUndef | NakBad 's | NakOk 's

fun bindn :: "'s nak_result \<Rightarrow> ('s \<Rightarrow> 's nak_result) \<Rightarrow> 's nak_result" where
  "bindn NakUndef f = NakUndef"
| "bindn (NakBad s) f = NakBad s"
| "bindn (NakOk s) f = f s"

lemma bindn_cong [fundef_cong]:
  "m = m' \<Longrightarrow> (\<And>s. m' = NakOk s \<Longrightarrow> f s = f' s) \<Longrightarrow> bindn m f = bindn m' f'"
  by (cases m') auto

fun seqn :: "('s \<Rightarrow> 's nak_result) list \<Rightarrow> 's \<Rightarrow> 's nak_result" where
  "seqn [] s = NakOk s"
| "seqn (f # fs) s = bindn (f s) (seqn fs)"

text \<open>Use the result of a read in the state \<open>s\<close>.\<close>

fun readn :: "'s \<Rightarrow> 'a outcome \<Rightarrow> ('a \<Rightarrow> 's nak_result) \<Rightarrow> 's nak_result" where
  "readn s Undef f = NakUndef"
| "readn s Bad f = NakBad s"
| "readn s (Ok x) f = f x"

text \<open>\<open>holdsn P Q f\<close>: \<open>f\<close> stays inside the packet, keeps \<open>P\<close>, and leaves with \<open>Q\<close> if it is \<open>goto bad\<close>.\<close>

definition holdsn :: "('s \<Rightarrow> bool) \<Rightarrow> ('s \<Rightarrow> bool) \<Rightarrow> ('s \<Rightarrow> 's nak_result) \<Rightarrow> bool" where
  "holdsn P Q f \<longleftrightarrow>
     (\<forall>s. P s \<longrightarrow> (case f s of NakUndef \<Rightarrow> False | NakBad s' \<Rightarrow> Q s' | NakOk s' \<Rightarrow> P s'))"

lemma holdsn_seqn: "list_all (holdsn P Q) fs \<Longrightarrow> holdsn P Q (seqn fs)"
proof (induction fs)
  case Nil
  then show ?case by (simp add: holdsn_def)
next
  case (Cons f fs)
  then have f: "holdsn P Q f" and fs: "holdsn P Q (seqn fs)" by simp_all
  show ?case
    unfolding holdsn_def
  proof (intro allI impI)
    fix s assume "P s"
    with f have "case f s of NakUndef \<Rightarrow> False | NakBad s' \<Rightarrow> Q s' | NakOk s' \<Rightarrow> P s'"
      by (simp add: holdsn_def)
    then show "case seqn (f # fs) s of NakUndef \<Rightarrow> False | NakBad s' \<Rightarrow> Q s' | NakOk s' \<Rightarrow> P s'"
      using fs by (cases "f s") (simp_all add: holdsn_def)
  qed
qed

section \<open>Parsers of one option\<close>

text \<open>\<open>GETCHAR(citype, p); GETCHAR(cilen, p);\<close> and the test of both.\<close>

definition ack_head :: "u8 \<Rightarrow> int \<Rightarrow> u8 list \<Rightarrow> u8 list outcome" where
  "ack_head opt n p =
     bindo (getchar p) (\<lambda>(citype, p).
     bindo (getchar p) (\<lambda>(cilen, p).
       if uint cilen \<noteq> n \<or> citype \<noteq> opt then Bad else Ok p))"

lemma join16_eq_iff: "join16 a b = val \<longleftrightarrow> a = ucast (drop_bit 8 val) \<and> b = ucast val"
  by auto

lemma join32_eq_iff:
  "join32 a b c d = val \<longleftrightarrow> a = ucast (drop_bit 24 val) \<and> b = ucast (drop_bit 16 val)
     \<and> c = ucast (drop_bit 8 val) \<and> d = ucast val"
  by auto

lemma long_enough:
  "within (p, len) \<Longrightarrow> \<not> len - int n < 0 \<Longrightarrow> \<exists>q r. p = q @ r \<and> length q = n"
  by (rule exI [of _ "take n p"], rule exI [of _ "drop n p"]) (auto simp: within_def)

text \<open>Acceptance of a fixed number of bytes, once it is known that they are there.\<close>

lemma exact_fixed:
  assumes short: "\<And>p len. len - int (length e) < 0 \<Longrightarrow> f (p, len) = Bad"
    and enough: "\<And>q r len. length q = length e \<Longrightarrow> 0 \<le> len - int (length e) \<Longrightarrow>
      f (q @ r, len) = (if q = e then Ok (r, len - int (length e)) else Bad)"
  shows "exact f e"
proof
  fix p len assume w: "within (p, len)"
  show "f (p, len) = (if int (length e) \<le> len \<and> take (length e) p = e
     then Ok (drop (length e) p, len - int (length e)) else Bad)"
  proof (cases "len - int (length e) < 0")
    case True
    with short show ?thesis by simp
  next
    case False
    from long_enough [OF w False] obtain q r where "p = q @ r" "length q = length e" by blast
    with False enough [of q len r] show ?thesis by simp
  qed
qed

lemma bindo_if: "bindo (if c then x else y) f = (if c then bindo x f else bindo y f)"
  by simp

lemma uint_byte: "0 \<le> n \<Longrightarrow> n < 256 \<Longrightarrow> uint (c :: u8) = n \<longleftrightarrow> c = word_of_int n"
  by (auto simp: uint_word_of_int)

lemma uint_byte_numeral:
  "uint (c :: u8) = 2 \<longleftrightarrow> c = 2" "uint c = 4 \<longleftrightarrow> c = 4" "uint c = 5 \<longleftrightarrow> c = 5"
  "uint c = 6 \<longleftrightarrow> c = 6" "uint c = 8 \<longleftrightarrow> c = 8" "uint c = 10 \<longleftrightarrow> c = 10"
  by (simp_all add: uint_byte)

lemmas fixed_simps = ack_head_def getshort_def getlong_def Let_def bindo_if uint_byte_numeral
  join16_eq_iff join32_eq_iff putshort_def putlong_def

section \<open>The contract of addci, cilen and ackci\<close>

locale ci_codec =
  fixes ok :: "'o \<Rightarrow> bool"
    and cilen :: "'o \<Rightarrow> int"
    and addci :: "'o \<Rightarrow> u8 list"
    and ackci :: "'o \<Rightarrow> cursor \<Rightarrow> unit outcome"
  assumes length_addci: "ok go \<Longrightarrow> int (length (addci go)) = cilen go"
    and ackci_body: "ok go \<Longrightarrow> \<exists>f. exact f (addci go) \<and> (\<forall>s. ackci go s = bindo (f s) at_end)"
begin

lemma ack_iff:
  assumes "ok go" "within (p, len)"
  shows "ackci go (p, len) = (if take (nat len) p = addci go then Ok () else Bad)"
proof -
  obtain f where f: "exact f (addci go)" and a: "\<And>s. ackci go s = bindo (f s) at_end"
    using ackci_body [OF assms(1)] by blast
  have len: "int (length (take (nat len) p)) = len"
    using assms(2) by (auto simp: within_def)
  show ?thesis
  proof (cases "take (nat len) p = addci go")
    case True
    with len have "int (length (addci go)) = len" by simp
    moreover from this True have "take (length (addci go)) p = addci go" by auto
    ultimately show ?thesis using True by (simp add: a exactD [OF f assms(2)])
  next
    case False
    then have "\<not> (int (length (addci go)) = len \<and> take (length (addci go)) p = addci go)"
      by (metis nat_int)
    then show ?thesis using False by (auto simp: a exactD [OF f assms(2)])
  qed
qed

lemma ack_own:
  assumes "ok go"
  shows "ackci go (addci go, cilen go) = Ok ()"
proof -
  have len: "cilen go = int (length (addci go))"
    using length_addci [OF assms] by simp
  then have "within (addci go, cilen go)" by (simp add: within_def)
  from ack_iff [OF assms this] show ?thesis by (simp add: len)
qed

lemma ack_defined: "ok go \<Longrightarrow> within s \<Longrightarrow> ackci go s \<noteq> Undef"
  using ack_iff by (cases s) simp

lemma ack_length:
  assumes "ok go" "within (p, len)" "ackci go (p, len) = Ok ()"
  shows "len = cilen go"
proof -
  have "take (nat len) p = addci go"
    using ack_iff [OF assms(1,2)] assms(3) by (simp split: if_splits)
  then have "int (length (take (nat len) p)) = cilen go"
    using length_addci [OF assms(1)] by simp
  then show ?thesis using assms(2) by (auto simp: within_def)
qed

end

end
