(* ===== verification/Callout.thy ===== *)
theory Callout
  imports Prelude
begin

text \<open>
  The callout list of ipppd/main.c: \<open>timeout\<close> links a new entry into a list of pending
  calls, \<open>untimeout\<close> removes the first entry with the same function and argument,
  \<open>calltimeout\<close> runs the entries that are due, \<open>timeleft\<close> gives the delay for \<open>select\<close>.

  A key stands for the pair of \<open>c_func\<close> and \<open>c_arg\<close>. The time of day, which the code reads
  with \<open>gettimeofday\<close>, is an argument. The locale \<open>timer_queue\<close> is what the protocol machines
  rely on: how arming and cancelling one timer changes the number of pending calls.
\<close>

record timeval =
  tv_sec :: int
  tv_usec :: int

record 'k callout =
  c_time :: timeval
  c_key :: 'k

section \<open>timeout and untimeout\<close>

text \<open>
  The search of \<open>timeout\<close> for the place of the new entry. The second half of the test
  compares \<open>tv_usec\<close> of the new entry with \<open>tv_sec\<close> of the old one, as the source does.
\<close>

fun link_callout :: "'k callout \<Rightarrow> 'k callout list \<Rightarrow> 'k callout list" where
  "link_callout newp [] = [newp]"
| "link_callout newp (p # q) =
     (if tv_sec (c_time newp) < tv_sec (c_time p)
         \<or> tv_sec (c_time newp) = tv_sec (c_time p) \<and> tv_usec (c_time newp) < tv_sec (c_time p)
      then newp # p # q
      else p # link_callout newp q)"

definition timeout :: "timeval \<Rightarrow> 'k \<Rightarrow> int \<Rightarrow> 'k callout list \<Rightarrow> 'k callout list" where
  "timeout timenow key secs callout =
     link_callout \<lparr>c_time = \<lparr>tv_sec = tv_sec timenow + secs, tv_usec = tv_usec timenow\<rparr>,
                   c_key = key\<rparr> callout"

fun untimeout :: "'k \<Rightarrow> 'k callout list \<Rightarrow> 'k callout list" where
  "untimeout key [] = []"
| "untimeout key (freep # q) = (if c_key freep = key then q else freep # untimeout key q)"

section \<open>calltimeout and timeleft\<close>

definition is_due :: "timeval \<Rightarrow> 'k callout \<Rightarrow> bool" where
  "is_due timenow p \<longleftrightarrow>
     tv_sec (c_time p) < tv_sec timenow
     \<or> tv_sec (c_time p) = tv_sec timenow \<and> tv_usec (c_time p) \<le> tv_usec timenow"

text \<open>
  The loop of \<open>calltimeout\<close>. \<open>call\<close> runs a timeout routine; it may arm and cancel timers, so
  it maps the list (and the rest of the program's state) to a new one. \<open>clock i\<close> is the
  \<open>i\<close>-th reading of the time. Running out of fuel is \<open>None\<close>.
\<close>

fun calltimeout :: "nat \<Rightarrow> (nat \<Rightarrow> timeval) \<Rightarrow> ('k \<Rightarrow> 'k callout list \<times> 's \<Rightarrow> 'k callout list \<times> 's)
    \<Rightarrow> nat \<Rightarrow> 'k callout list \<times> 's \<Rightarrow> ('k callout list \<times> 's) option" where
  "calltimeout 0 clock call i st = None"
| "calltimeout (Suc fuel) clock call i (callout, s) =
     (case callout of
        [] \<Rightarrow> Some (callout, s)
      | p # c_next \<Rightarrow>
          if \<not> is_due (clock i) p then Some (callout, s)
          else calltimeout fuel clock call (Suc i) (call (c_key p) (c_next, s)))"

definition timeleft :: "timeval \<Rightarrow> 'k callout list \<Rightarrow> timeval option" where
  "timeleft timenow callout =
     (case callout of
        [] \<Rightarrow> None
      | p # _ \<Rightarrow>
          let sec = tv_sec (c_time p) - tv_sec timenow;
              usec = tv_usec (c_time p) - tv_usec timenow;
              (sec, usec) = (if usec < 0 then (sec - 1, usec + 1000000) else (sec, usec));
              (sec, usec) = (if sec < 0 then (0, 0) else (sec, usec))
          in Some \<lparr>tv_sec = sec, tv_usec = usec\<rparr>)"

section \<open>Pending calls\<close>

definition pending :: "'k \<Rightarrow> 'k callout list \<Rightarrow> nat" where
  "pending key callout = length (filter (\<lambda>p. c_key p = key) callout)"

lemma pending_link: "pending key (link_callout p q) = pending key (p # q)"
  by (induction q) (auto simp: pending_def)

lemma pending_timeout:
  "pending k (timeout now key secs q) = pending k q + (if k = key then 1 else 0)"
  by (simp add: timeout_def pending_link) (simp add: pending_def)

lemma pending_untimeout:
  "pending k (untimeout key q) = pending k q - (if k = key then 1 else 0)"
  by (induction q) (auto simp: pending_def)

text \<open>What a protocol machine relies on when it arms and cancels its timers.\<close>

locale timer_queue =
  fixes arm :: "'k \<Rightarrow> 'q \<Rightarrow> 'q"
    and disarm :: "'k \<Rightarrow> 'q \<Rightarrow> 'q"
    and count :: "'k \<Rightarrow> 'q \<Rightarrow> nat"
  assumes count_arm: "count k (arm k q) = Suc (count k q)"
    and count_disarm: "count k (disarm k q) = count k q - 1"
    and arm_other: "k \<noteq> k' \<Longrightarrow> count k (arm k' q) = count k q"
    and disarm_other: "k \<noteq> k' \<Longrightarrow> count k (disarm k' q) = count k q"
begin

lemma count_disarm_arm: "count k (disarm k' (arm k' q)) = count k q"
  by (cases "k = k'") (simp_all add: count_arm count_disarm arm_other disarm_other)

lemma rearm: "count k q \<le> 1 \<Longrightarrow> count k (arm k (disarm k q)) = 1"
  by (simp add: count_arm count_disarm)

lemma arm_pending: "0 < count k (arm k q)"
  by (simp add: count_arm)

lemma arm_keeps: "count k q \<le> count k (arm k' q)"
  by (cases "k = k'") (simp_all add: count_arm arm_other)

end

interpretation co: timer_queue "\<lambda>k. timeout now k secs" untimeout pending
  for now secs
  by unfold_locales (simp_all add: pending_timeout pending_untimeout)

section \<open>Order of the list\<close>

lemma set_link_callout: "set (link_callout p q) = insert p (set q)"
  by (induction q) auto

definition by_second :: "'k callout list \<Rightarrow> bool" where
  "by_second q \<longleftrightarrow> sorted (map (\<lambda>p. tv_sec (c_time p)) q)"

lemma by_second_link: "by_second q \<Longrightarrow> by_second (link_callout p q)"
  by (induction q) (auto simp: by_second_def set_link_callout)

lemma by_second_tl: "by_second (p # q) \<Longrightarrow> by_second q"
  by (simp add: by_second_def)

lemma set_untimeout: "set (untimeout key q) \<subseteq> set q"
  by (induction q) auto

lemma by_second_untimeout: "by_second q \<Longrightarrow> by_second (untimeout key q)"
proof (induction q)
  case (Cons p q)
  then show ?case using set_untimeout [of key q] by (auto simp: by_second_def)
qed (simp add: by_second_def)

definition by_time :: "'k callout list \<Rightarrow> bool" where
  "by_time q \<longleftrightarrow>
     sorted_wrt (\<lambda>a b. tv_sec (c_time a) < tv_sec (c_time b)
       \<or> tv_sec (c_time a) = tv_sec (c_time b) \<and> tv_usec (c_time a) \<le> tv_usec (c_time b)) q"

lemma link_callout_first:
  "(\<And>p. p \<in> set q \<Longrightarrow> tv_sec (c_time newp) \<le> tv_sec (c_time p) \<and> tv_usec (c_time newp) < tv_sec (c_time p))
   \<Longrightarrow> link_callout newp q = newp # q"
  by (cases q) fastforce+

section \<open>A pass of calltimeout\<close>

lemma calltimeout_head:
  assumes "calltimeout fuel clock call i (q, s) = Some (q', s')" "by_second q"
    "\<And>k q s. by_second q \<Longrightarrow> by_second (fst (call k (q, s)))"
  shows "by_second q' \<and> (\<exists>j \<ge> i. \<forall>p \<in> set q'. tv_sec (clock j) \<le> tv_sec (c_time p))"
  using assms(1,2)
proof (induction fuel arbitrary: i q s)
  case (Suc fuel)
  show ?case
  proof (cases q)
    case (Cons p r)
    show ?thesis
    proof (cases "is_due (clock i) p")
      case True
      have "by_second (fst (call (c_key p) (r, s)))"
        using Suc.prems(2) Cons assms(3) by_second_tl by blast
      moreover have "calltimeout fuel clock call (Suc i) (call (c_key p) (r, s)) = Some (q', s')"
        using Suc.prems(1) Cons True by simp
      ultimately show ?thesis
        using Suc.IH [of "Suc i" "fst (call (c_key p) (r, s))" "snd (call (c_key p) (r, s))"]
        by (auto intro: Suc_leD)
    next
      case False
      then have "q' = q" "tv_sec (clock i) \<le> tv_sec (c_time p)"
        using Suc.prems(1) Cons by (auto simp: is_due_def)
      then have "\<forall>p \<in> set q'. tv_sec (clock i) \<le> tv_sec (c_time p)"
        using Suc.prems(2) Cons by (auto simp: by_second_def)
      then show ?thesis using Suc.prems(2) \<open>q' = q\<close> by blast
    qed
  qed (use Suc.prems in \<open>auto simp: by_second_def\<close>)
qed simp

lemma calltimeout_ends:
  assumes "\<And>k q s. length (fst (call k (q, s))) \<le> length q" "length q < fuel"
  shows "\<exists>r. calltimeout fuel clock call i (q, s) = Some r"
  using assms(2)
proof (induction fuel arbitrary: i q s)
  case (Suc fuel)
  show ?case
  proof (cases q)
    case (Cons p r)
    have "length (fst (call (c_key p) (r, s))) < fuel"
      using assms(1) [of "c_key p" r s] Suc.prems Cons by simp
    then show ?thesis
      using Suc.IH [of "fst (call (c_key p) (r, s))" "Suc i" "snd (call (c_key p) (r, s))"] Cons by simp
  qed simp
qed simp

end
