(* ===== verification/Fsm.thy ===== *)
theory Fsm
  imports Ci_Parser Callout
begin

text \<open>
  The generic control-protocol automaton of ipppd/fsm.c and ipppd/fsm.h.

  \<open>fsm\<close> is the C struct of the same name (its \<open>callbacks\<close> pointer is the argument \<open>cb\<close> of
  the operations). \<open>'w sys\<close> adds what fsm.c reaches outside the struct: the link's
  \<open>peer_mru\<close>, the number of \<open>(fsm_timeout, f)\<close> entries on the callout list, the packets
  given to \<open>output_ppp\<close>, and the protocol's own state \<open>world\<close>, which only callbacks touch.
  \<open>ub\<close> becomes true when an operation leaves the bounds of a C array; what the model says
  after that point has no meaning for the program.

  Messages to syslog have no effect on this state and are left out.
\<close>

section \<open>Constants\<close>

definition HEADERLEN :: int where "HEADERLEN = 4"

text \<open>From net/ppp_defs.h: maximum receive unit and the length of the PPP frame header.\<close>

definition PPP_MRU :: int where "PPP_MRU = 1500"
definition PPP_HDRLEN :: int where "PPP_HDRLEN = 4"

definition CONFREQ :: u8 where "CONFREQ = 1"
definition CONFACK :: u8 where "CONFACK = 2"
definition CONFNAK :: u8 where "CONFNAK = 3"
definition CONFREJ :: u8 where "CONFREJ = 4"
definition TERMREQ :: u8 where "TERMREQ = 5"
definition TERMACK :: u8 where "TERMACK = 6"
definition CODEREJ :: u8 where "CODEREJ = 7"

lemmas code_defs = CONFREQ_def CONFACK_def CONFNAK_def CONFREJ_def TERMREQ_def TERMACK_def CODEREJ_def

definition OPT_PASSIVE :: u32 where "OPT_PASSIVE = 1"
definition OPT_RESTART :: u32 where "OPT_RESTART = 2"
definition OPT_SILENT :: u32 where "OPT_SILENT = 4"

lemmas opt_defs = OPT_PASSIVE_def OPT_RESTART_def OPT_SILENT_def

section \<open>State\<close>

datatype link_state =
  INITIAL | STARTING | CLOSED | STOPPED | CLOSING | STOPPING | REQSENT | ACKRCVD | ACKSENT | OPENED

record fsm =
  f_unit :: int
  f_inuse :: bool
  f_protocol :: u16
  f_state :: link_state
  f_flags :: u32
  f_id :: u8
  f_reqid :: u8
  f_seen_ack :: bool
  f_timeouttime :: int
  f_maxconfreqtransmits :: int
  f_retransmits :: int
  f_maxtermtransmits :: int
  f_nakloops :: int
  f_maxnakloops :: int
  f_term_reason :: "u8 list"
  f_term_reason_len :: int

record 'w sys = fsm +
  peer_mru :: int
  timers :: nat
  sent :: "u8 list list"
  ub :: bool
  world :: 'w

text \<open>
  The callback table. A callback that is \<open>NULL\<close> in the C table is \<open>None\<close>. \<open>addci\<close> gets the
  space \<open>*lenp\<close> and returns the bytes it put at \<open>outp\<close> and the new \<open>*lenp\<close>; \<open>reqci\<close> gets
  the bytes at \<open>inp\<close> and \<open>*len\<close> and returns the code, the bytes then at \<open>inp\<close>, and \<open>*len\<close>.
\<close>

record 'w fsm_callbacks =
  resetci :: "('w sys \<Rightarrow> 'w sys) option"
  cilen :: "('w sys \<Rightarrow> int \<times> 'w sys) option"
  addci :: "(int \<Rightarrow> 'w sys \<Rightarrow> u8 list \<times> int \<times> 'w sys) option"
  ackci :: "(u8 list \<Rightarrow> int \<Rightarrow> 'w sys \<Rightarrow> bool \<times> 'w sys) option"
  nakci :: "(u8 list \<Rightarrow> int \<Rightarrow> 'w sys \<Rightarrow> int \<times> 'w sys) option"
  rejci :: "(u8 list \<Rightarrow> int \<Rightarrow> 'w sys \<Rightarrow> int \<times> 'w sys) option"
  reqci :: "(u8 list \<Rightarrow> int \<Rightarrow> bool \<Rightarrow> 'w sys \<Rightarrow> u8 \<times> u8 list \<times> int \<times> 'w sys) option"
  up :: "('w sys \<Rightarrow> 'w sys) option"
  down :: "('w sys \<Rightarrow> 'w sys) option"
  starting :: "('w sys \<Rightarrow> 'w sys) option"
  finished :: "('w sys \<Rightarrow> 'w sys) option"
  retransmit :: "('w sys \<Rightarrow> 'w sys) option"
  extcode :: "(u8 \<Rightarrow> u8 \<Rightarrow> u8 list \<Rightarrow> int \<Rightarrow> 'w sys \<Rightarrow> bool \<times> 'w sys) option"

fun call :: "('w sys \<Rightarrow> 'w sys) option \<Rightarrow> 'w sys \<Rightarrow> 'w sys" where
  "call None s = s"
| "call (Some g) s = g s"

text \<open>\<open>TIMEOUT(fsm_timeout, f, \<dots>)\<close> and \<open>UNTIMEOUT(fsm_timeout, f)\<close> on the count of entries.\<close>

definition TIMEOUT :: "'w sys \<Rightarrow> 'w sys" where
  "TIMEOUT s = s\<lparr>timers := Suc (timers s)\<rparr>"

definition UNTIMEOUT :: "'w sys \<Rightarrow> 'w sys" where
  "UNTIMEOUT s = s\<lparr>timers := timers s - 1\<rparr>"

interpretation ft: timer_queue "\<lambda>k. TIMEOUT" "\<lambda>k. UNTIMEOUT" "\<lambda>(k :: unit). timers"
  by unfold_locales (simp_all add: TIMEOUT_def UNTIMEOUT_def)

section \<open>Initialisation and unit table\<close>

definition DEFTIMEOUT :: int where "DEFTIMEOUT = 3"
definition DEFMAXTERMREQS :: int where "DEFMAXTERMREQS = 2"
definition DEFMAXCONFREQS :: int where "DEFMAXCONFREQS = 10"
definition DEFMAXNAKLOOPS :: int where "DEFMAXNAKLOOPS = 5"

definition fsm_init :: "('a) fsm_scheme \<Rightarrow> ('a) fsm_scheme" where
  "fsm_init f = f\<lparr>f_state := INITIAL, f_flags := 0, f_id := 0, f_timeouttime := DEFTIMEOUT,
     f_maxconfreqtransmits := DEFMAXCONFREQS, f_maxtermtransmits := DEFMAXTERMREQS,
     f_maxnakloops := DEFMAXNAKLOOPS, f_term_reason_len := 0\<rparr>"


section \<open>Sending\<close>

text \<open>
  \<open>outpacket_buf\<close> has \<open>PPP_MRU + PPP_HDRLEN\<close> bytes; the data goes behind the frame header
  and the packet header. \<open>datalen\<close> and \<open>peer_mru - HEADERLEN\<close> are compared as \<open>size_t\<close>.
\<close>

definition outbuf_fits :: "int \<Rightarrow> bool" where
  "outbuf_fits n \<longleftrightarrow> 0 \<le> n \<and> PPP_HDRLEN + HEADERLEN + n \<le> PPP_MRU + PPP_HDRLEN"

definition fsm_sdata :: "u8 \<Rightarrow> u8 \<Rightarrow> u8 list \<Rightarrow> int \<Rightarrow> 'w sys \<Rightarrow> 'w sys" where
  "fsm_sdata code pid data datalen s =
     (let datalen = (if szt datalen > szt (peer_mru s - HEADERLEN) then peer_mru s - HEADERLEN
                     else datalen);
          outlen = datalen + HEADERLEN;
          packet = [0xff, 0x03] @ putshort (f_protocol s) @ [code, pid]
                   @ putshort (word_of_int outlen) @ take (nat datalen) data
      in s\<lparr>sent := sent s @ [packet],
           ub := ub s \<or> int (length data) < datalen \<or> \<not> outbuf_fits datalen\<rparr>)"

definition fsm_sconfreq :: "'w fsm_callbacks \<Rightarrow> bool \<Rightarrow> 'w sys \<Rightarrow> 'w sys" where
  "fsm_sconfreq cb rexmit s =
     (let s = (if f_state s \<noteq> REQSENT \<and> f_state s \<noteq> ACKRCVD \<and> f_state s \<noteq> ACKSENT
               then (call (resetci cb) s)\<lparr>f_nakloops := 0\<rparr> else s);
          s = (if \<not> rexmit
               then s\<lparr>f_retransmits := f_maxconfreqtransmits s, f_id := f_id s + 1,
                      f_reqid := f_id s + 1\<rparr> else s);
          s = s\<lparr>f_seen_ack := False\<rparr>;
          (outp, cilen, s) =
            (case (cilen cb, addci cb) of
               (Some get_len, Some put) \<Rightarrow>
                 let (cilen, s) = get_len s;
                     cilen = (if szt cilen > szt (peer_mru s - HEADERLEN)
                              then peer_mru s - HEADERLEN else cilen);
                     (outp, cilen, s) = put cilen s
                 in (outp, cilen, s\<lparr>ub := ub s \<or> \<not> outbuf_fits (int (length outp))\<rparr>)
             | _ \<Rightarrow> ([], 0, s));
          s = fsm_sdata CONFREQ (f_reqid s) outp cilen s
      in TIMEOUT (s\<lparr>f_retransmits := f_retransmits s - 1\<rparr>))"

text \<open>The Terminate-Request of \<open>fsm_close\<close>, \<open>fsm_timeout\<close> and \<open>fsm_protreject\<close>.\<close>

definition fsm_stermreq :: "'w sys \<Rightarrow> 'w sys" where
  "fsm_stermreq s =
     (let s = s\<lparr>f_id := f_id s + 1, f_reqid := f_id s + 1\<rparr>;
          s = fsm_sdata TERMREQ (f_reqid s) (f_term_reason s) (f_term_reason_len s) s;
          s = TIMEOUT s
      in s\<lparr>f_retransmits := f_retransmits s - 1\<rparr>)"

section \<open>Events from the layers below and above\<close>

definition fsm_lowerup :: "'w fsm_callbacks \<Rightarrow> 'w sys \<Rightarrow> 'w sys" where
  "fsm_lowerup cb s =
     (case f_state s of
        INITIAL \<Rightarrow> s\<lparr>f_state := CLOSED\<rparr>
      | STARTING \<Rightarrow>
          (if f_flags s AND OPT_SILENT \<noteq> 0 then s\<lparr>f_state := STOPPED\<rparr>
           else (fsm_sconfreq cb False s)\<lparr>f_state := REQSENT\<rparr>)
      | _ \<Rightarrow> s)"

definition fsm_lowerdown :: "'w fsm_callbacks \<Rightarrow> 'w sys \<Rightarrow> 'w sys" where
  "fsm_lowerdown cb s =
     (case f_state s of
        CLOSED \<Rightarrow> s\<lparr>f_state := INITIAL\<rparr>
      | STOPPED \<Rightarrow> call (starting cb) (s\<lparr>f_state := STARTING\<rparr>)
      | CLOSING \<Rightarrow> UNTIMEOUT (s\<lparr>f_state := INITIAL\<rparr>)
      | STOPPING \<Rightarrow> UNTIMEOUT (s\<lparr>f_state := STARTING\<rparr>)
      | REQSENT \<Rightarrow> UNTIMEOUT (s\<lparr>f_state := STARTING\<rparr>)
      | ACKRCVD \<Rightarrow> UNTIMEOUT (s\<lparr>f_state := STARTING\<rparr>)
      | ACKSENT \<Rightarrow> UNTIMEOUT (s\<lparr>f_state := STARTING\<rparr>)
      | OPENED \<Rightarrow> (call (down cb) s)\<lparr>f_state := STARTING\<rparr>
      | _ \<Rightarrow> s)"

text \<open>The common tail of the \<open>CLOSING\<close>, \<open>STOPPED\<close> and \<open>OPENED\<close> cases of \<open>fsm_open\<close>.\<close>

definition fsm_restart :: "'w fsm_callbacks \<Rightarrow> 'w sys \<Rightarrow> 'w sys" where
  "fsm_restart cb s =
     (if f_flags s AND OPT_RESTART \<noteq> 0 then fsm_lowerup cb (fsm_lowerdown cb s) else s)"

definition fsm_open :: "'w fsm_callbacks \<Rightarrow> 'w sys \<Rightarrow> 'w sys" where
  "fsm_open cb s =
     (case f_state s of
        INITIAL \<Rightarrow> call (starting cb) (s\<lparr>f_state := STARTING\<rparr>)
      | CLOSED \<Rightarrow>
          (if f_flags s AND OPT_SILENT \<noteq> 0 then s\<lparr>f_state := STOPPED\<rparr>
           else (fsm_sconfreq cb False s)\<lparr>f_state := REQSENT\<rparr>)
      | CLOSING \<Rightarrow> fsm_restart cb (s\<lparr>f_state := STOPPING\<rparr>)
      | STOPPED \<Rightarrow> fsm_restart cb s
      | OPENED \<Rightarrow> fsm_restart cb s
      | _ \<Rightarrow> s)"

text \<open>\<open>reason\<close> is \<open>None\<close> for \<open>NULL\<close>.\<close>

definition fsm_close :: "'w fsm_callbacks \<Rightarrow> u8 list option \<Rightarrow> 'w sys \<Rightarrow> 'w sys" where
  "fsm_close cb reason s =
     (let s = s\<lparr>f_term_reason := (case reason of None \<Rightarrow> [] | Some r \<Rightarrow> r),
                f_term_reason_len := (case reason of None \<Rightarrow> 0 | Some r \<Rightarrow> int (length r))\<rparr>
      in if f_state s = STARTING then s\<lparr>f_state := INITIAL\<rparr>
         else if f_state s = STOPPED then s\<lparr>f_state := CLOSED\<rparr>
         else if f_state s = STOPPING then s\<lparr>f_state := CLOSING\<rparr>
         else if f_state s \<in> {REQSENT, ACKRCVD, ACKSENT, OPENED}
         then let s = (if f_state s \<noteq> OPENED then UNTIMEOUT s else call (down cb) s);
                  s = s\<lparr>f_retransmits := f_maxtermtransmits s\<rparr>;
                  s = fsm_stermreq s
              in s\<lparr>f_state := CLOSING\<rparr>
         else s)"

definition fsm_protreject :: "'w fsm_callbacks \<Rightarrow> 'w sys \<Rightarrow> 'w sys" where
  "fsm_protreject cb s =
     (if f_state s \<in> {CLOSING, CLOSED}
      then let s = (if f_state s = CLOSING then UNTIMEOUT s else s)
           in call (finished cb) (s\<lparr>f_state := CLOSED\<rparr>)
      else if f_state s \<in> {STOPPING, REQSENT, ACKRCVD, ACKSENT, STOPPED}
      then let s = (if f_state s \<noteq> STOPPED then UNTIMEOUT s else s)
           in call (finished cb) (s\<lparr>f_state := STOPPED\<rparr>)
      else if f_state s = OPENED
      then let s = call (down cb) s;
               s = s\<lparr>f_retransmits := f_maxtermtransmits s\<rparr>;
               s = fsm_stermreq s
           in s\<lparr>f_state := STOPPING\<rparr>
      else s)"

text \<open>
  \<open>calltimeout\<close> has taken the entry off the callout list when it calls \<open>fsm_timeout\<close>.
\<close>

definition fsm_timeout :: "'w fsm_callbacks \<Rightarrow> 'w sys \<Rightarrow> 'w sys" where
  "fsm_timeout cb s =
     (if f_state s \<in> {CLOSING, STOPPING}
      then if f_retransmits s \<le> 0
           then call (finished cb)
                  (s\<lparr>f_state := (if f_state s = CLOSING then CLOSED else STOPPED)\<rparr>)
           else fsm_stermreq s
      else if f_state s \<in> {REQSENT, ACKRCVD, ACKSENT}
      then if f_retransmits s \<le> 0
           then let s = s\<lparr>f_state := STOPPED\<rparr>
                in if f_flags s AND OPT_PASSIVE = 0 then call (finished cb) s else s
           else let s = fsm_sconfreq cb True (call (retransmit cb) s)
                in if f_state s = ACKRCVD then s\<lparr>f_state := REQSENT\<rparr> else s
      else s)"


section \<open>Packets from the peer\<close>

text \<open>The last third of \<open>fsm_rconfreq\<close>: send the Ack, Nak or Reject and move on.\<close>

definition fsm_sconfreply :: "'w fsm_callbacks \<Rightarrow> u8 \<Rightarrow> u8 \<Rightarrow> u8 list \<Rightarrow> int \<Rightarrow> 'w sys \<Rightarrow> 'w sys" where
  "fsm_sconfreply cb code pid inp len s =
     (let s = fsm_sdata code pid inp len s
      in if code = CONFACK
         then let s = (if f_state s = ACKRCVD
                       then call (up cb) ((UNTIMEOUT s)\<lparr>f_state := OPENED\<rparr>)
                       else s\<lparr>f_state := ACKSENT\<rparr>)
              in s\<lparr>f_nakloops := 0\<rparr>
         else let s = (if f_state s \<noteq> ACKRCVD then s\<lparr>f_state := REQSENT\<rparr> else s)
              in if code = CONFNAK then s\<lparr>f_nakloops := f_nakloops s + 1\<rparr> else s)"

text \<open>Its middle third: let the protocol check the peer's options.\<close>

definition fsm_checkci :: "'w fsm_callbacks \<Rightarrow> u8 list \<Rightarrow> int \<Rightarrow> 'w sys \<Rightarrow> u8 \<times> u8 list \<times> int \<times> 'w sys" where
  "fsm_checkci cb inp len s =
     (case reqci cb of
        Some check \<Rightarrow> check inp len (f_nakloops s \<ge> f_maxnakloops s) s
      | None \<Rightarrow> (if len \<noteq> 0 then CONFREJ else CONFACK, inp, len, s))"

text \<open>Its first third, for the states that do not return: negotiation is (re)started.\<close>

definition fsm_startneg :: "'w fsm_callbacks \<Rightarrow> 'w sys \<Rightarrow> 'w sys" where
  "fsm_startneg cb s =
     (if f_state s = OPENED then fsm_sconfreq cb False (call (down cb) s)
      else if f_state s = STOPPED then (fsm_sconfreq cb False s)\<lparr>f_state := REQSENT\<rparr>
      else s)"

definition fsm_rconfreq :: "'w fsm_callbacks \<Rightarrow> u8 \<Rightarrow> u8 list \<Rightarrow> int \<Rightarrow> 'w sys \<Rightarrow> 'w sys" where
  "fsm_rconfreq cb pid inp len s =
     (if f_state s = CLOSED then fsm_sdata TERMACK pid [] 0 s
      else if f_state s \<in> {CLOSING, STOPPING} then s
      else
        let s = fsm_startneg cb s;
            (code, inp, len, s) = fsm_checkci cb inp len s
        in fsm_sconfreply cb code pid inp len s)"

definition fsm_rconfack :: "'w fsm_callbacks \<Rightarrow> u8 \<Rightarrow> u8 list \<Rightarrow> int \<Rightarrow> 'w sys \<Rightarrow> 'w sys" where
  "fsm_rconfack cb pid inp len s =
     (if pid \<noteq> f_reqid s \<or> f_seen_ack s then s
      else
        let (good, s) = (case ackci cb of Some check \<Rightarrow> check inp len s | None \<Rightarrow> (len = 0, s))
        in if \<not> good then s
           else
             let s = s\<lparr>f_seen_ack := True\<rparr>
             in (case f_state s of
                   CLOSED \<Rightarrow> fsm_sdata TERMACK pid [] 0 s
                 | STOPPED \<Rightarrow> fsm_sdata TERMACK pid [] 0 s
                 | REQSENT \<Rightarrow> s\<lparr>f_state := ACKRCVD, f_retransmits := f_maxconfreqtransmits s\<rparr>
                 | ACKRCVD \<Rightarrow> (fsm_sconfreq cb False (UNTIMEOUT s))\<lparr>f_state := REQSENT\<rparr>
                 | ACKSENT \<Rightarrow>
                     call (up cb) ((UNTIMEOUT s)\<lparr>f_state := OPENED,
                                                 f_retransmits := f_maxconfreqtransmits s\<rparr>)
                 | OPENED \<Rightarrow> (fsm_sconfreq cb False (call (down cb) s))\<lparr>f_state := REQSENT\<rparr>
                 | _ \<Rightarrow> s))"

text \<open>The second half of \<open>fsm_rconfnakrej\<close>, for a packet the callback has accepted.\<close>

definition fsm_nakrej_good :: "'w fsm_callbacks \<Rightarrow> int \<Rightarrow> u8 \<Rightarrow> 'w sys \<Rightarrow> 'w sys" where
  "fsm_nakrej_good cb ret pid s =
     (let s = s\<lparr>f_seen_ack := True\<rparr>
      in if f_state s \<in> {CLOSED, STOPPED} then fsm_sdata TERMACK pid [] 0 s
         else if f_state s \<in> {REQSENT, ACKSENT}
         then let s = UNTIMEOUT s
              in if ret < 0 then s\<lparr>f_state := STOPPED\<rparr> else fsm_sconfreq cb False s
         else if f_state s = ACKRCVD
         then (fsm_sconfreq cb False (UNTIMEOUT s))\<lparr>f_state := REQSENT\<rparr>
         else if f_state s = OPENED
         then (fsm_sconfreq cb False (call (down cb) s))\<lparr>f_state := REQSENT\<rparr>
         else s)"

definition fsm_rconfnakrej :: "'w fsm_callbacks \<Rightarrow> u8 \<Rightarrow> u8 \<Rightarrow> u8 list \<Rightarrow> int \<Rightarrow> 'w sys \<Rightarrow> 'w sys" where
  "fsm_rconfnakrej cb code pid inp len s =
     (if pid \<noteq> f_reqid s \<or> f_seen_ack s then s
      else
        case (if code = CONFNAK then nakci cb else rejci cb) of
          None \<Rightarrow> s
        | Some check \<Rightarrow>
            let (ret, s) = check inp len s
            in if ret = 0 then s else fsm_nakrej_good cb ret pid s)"

definition fsm_rtermreq :: "'w fsm_callbacks \<Rightarrow> u8 \<Rightarrow> 'w sys \<Rightarrow> 'w sys" where
  "fsm_rtermreq cb pid s =
     (let s = (if f_state s \<in> {ACKRCVD, ACKSENT} then s\<lparr>f_state := REQSENT\<rparr>
               else if f_state s = OPENED
               then TIMEOUT ((call (down cb) s)\<lparr>f_retransmits := 0, f_state := STOPPING\<rparr>)
               else s)
      in fsm_sdata TERMACK pid [] 0 s)"

definition fsm_rtermack :: "'w fsm_callbacks \<Rightarrow> 'w sys \<Rightarrow> 'w sys" where
  "fsm_rtermack cb s =
     (case f_state s of
        CLOSING \<Rightarrow> call (finished cb) ((UNTIMEOUT s)\<lparr>f_state := CLOSED\<rparr>)
      | STOPPING \<Rightarrow> call (finished cb) ((UNTIMEOUT s)\<lparr>f_state := STOPPED\<rparr>)
      | ACKRCVD \<Rightarrow> s\<lparr>f_state := REQSENT\<rparr>
      | OPENED \<Rightarrow> fsm_sconfreq cb False (call (down cb) s)
      | _ \<Rightarrow> s)"

definition fsm_rcoderej :: "u8 list \<Rightarrow> int \<Rightarrow> 'w sys \<Rightarrow> 'w sys" where
  "fsm_rcoderej inp len s =
     (if szt len < HEADERLEN then s
      else case inp of
          code # rid # _ \<Rightarrow> (if f_state s = ACKRCVD then s\<lparr>f_state := REQSENT\<rparr> else s)
        | _ \<Rightarrow> s\<lparr>ub := True\<rparr>)"

text \<open>
  \<open>inpacket\<close> is the input buffer from the packet header on, \<open>l\<close> the number of bytes received.
\<close>

definition fsm_input :: "'w fsm_callbacks \<Rightarrow> u8 list \<Rightarrow> int \<Rightarrow> 'w sys \<Rightarrow> 'w sys" where
  "fsm_input cb inpacket l s =
     (if szt l < HEADERLEN then s
      else case inpacket of
        code # pid # hi # lo # inp \<Rightarrow>
          let len = uint (join16 hi lo)
          in if len < HEADERLEN then s
             else if l < len then s
             else
               let len = len - HEADERLEN
               in if f_state s \<in> {INITIAL, STARTING} then s
                  else if code = CONFREQ then fsm_rconfreq cb pid inp len s
                  else if code = CONFACK then fsm_rconfack cb pid inp len s
                  else if code = CONFNAK \<or> code = CONFREJ then fsm_rconfnakrej cb code pid inp len s
                  else if code = TERMREQ then fsm_rtermreq cb pid s
                  else if code = TERMACK then fsm_rtermack cb s
                  else if code = CODEREJ then fsm_rcoderej inp len s
                  else
                    let (known, s) = (case extcode cb of
                                        None \<Rightarrow> (False, s)
                                      | Some ext \<Rightarrow> ext code pid inp len s)
                    in if known then s
                       else let s = s\<lparr>f_id := f_id s + 1\<rparr>
                            in fsm_sdata CODEREJ (f_id s) inpacket (len + HEADERLEN) s
      | _ \<Rightarrow> s\<lparr>ub := True\<rparr>)"

section \<open>The machine as a whole\<close>

datatype fsm_event =
    LowerUp | LowerDown | Open | Close "u8 list option" | Timeout | ProtReject
  | Input "u8 list" int

text \<open>
  One event. A timeout can only happen while an entry is on the callout list, and takes it off.
\<close>

fun fsm_step :: "'w fsm_callbacks \<Rightarrow> fsm_event \<Rightarrow> 'w sys \<Rightarrow> 'w sys" where
  "fsm_step cb LowerUp s = fsm_lowerup cb s"
| "fsm_step cb LowerDown s = fsm_lowerdown cb s"
| "fsm_step cb Open s = fsm_open cb s"
| "fsm_step cb (Close reason) s = fsm_close cb reason s"
| "fsm_step cb Timeout s = (if timers s = 0 then s else fsm_timeout cb (UNTIMEOUT s))"
| "fsm_step cb ProtReject s = fsm_protreject cb s"
| "fsm_step cb (Input pkt l) s = fsm_input cb pkt l s"

fun fsm_run :: "'w fsm_callbacks \<Rightarrow> fsm_event list \<Rightarrow> 'w sys \<Rightarrow> 'w sys" where
  "fsm_run cb [] s = s"
| "fsm_run cb (e # es) s = fsm_run cb es (fsm_step cb e s)"

end
