(* ===== verification/Fsm_Timers.thy ===== *)
theory Fsm_Timers
  imports Fsm
begin

text \<open>
  The retransmission timer of the automaton. The contract \<open>fsm_client\<close> says what the callback
  table of a protocol must leave alone; from it follows that every entry point of fsm.c keeps
  a timer pending in each state that waits for the peer (\<open>armed\<close>), and, but for one handler,
  exactly one (\<open>one_timer\<close>).
\<close>

definition timed :: "link_state set" where
  "timed = {CLOSING, STOPPING, REQSENT, ACKRCVD, ACKSENT}"

definition armed :: "'w sys \<Rightarrow> bool" where
  "armed s \<longleftrightarrow> (f_state s \<in> timed \<longrightarrow> 0 < timers s)"

definition one_timer :: "'w sys \<Rightarrow> bool" where
  "one_timer s \<longleftrightarrow> timers s = (if f_state s \<in> timed then 1 else 0)"

lemma one_timer_armed: "one_timer s \<Longrightarrow> armed s"
  by (auto simp: one_timer_def armed_def split: if_splits)

text \<open>A callback that writes neither the automaton's struct nor its timer, and sends nothing.\<close>

definition quiet :: "('w sys \<Rightarrow> 'w sys) \<Rightarrow> bool" where
  "quiet g \<longleftrightarrow> (\<forall>s. fsm.truncate (g s) = fsm.truncate s \<and> timers (g s) = timers s \<and> sent (g s) = sent s)"

definition keeps :: "('w sys \<Rightarrow> 'w sys) \<Rightarrow> bool" where
  "keeps g \<longleftrightarrow> (\<forall>s. (armed s \<longrightarrow> armed (g s)) \<and> (one_timer s \<longrightarrow> one_timer (g s)))"

lemma truncate_fields:
  "fsm.truncate s = fsm.truncate t \<Longrightarrow>
     f_unit s = f_unit t \<and> f_protocol s = f_protocol t \<and> f_state s = f_state t
     \<and> f_flags s = f_flags t \<and> f_id s = f_id t \<and> f_reqid s = f_reqid t
     \<and> f_seen_ack s = f_seen_ack t
     \<and> f_maxconfreqtransmits s = f_maxconfreqtransmits t \<and> f_retransmits s = f_retransmits t
     \<and> f_maxtermtransmits s = f_maxtermtransmits t
     \<and> f_nakloops s = f_nakloops t \<and> f_maxnakloops s = f_maxnakloops t
     \<and> f_term_reason s = f_term_reason t \<and> f_term_reason_len s = f_term_reason_len t"
  by (simp add: fsm.defs)

lemma quietD:
  assumes "quiet g"
  shows "f_unit (g s) = f_unit s" "f_protocol (g s) = f_protocol s" "f_state (g s) = f_state s"
    "f_flags (g s) = f_flags s" "f_id (g s) = f_id s" "f_reqid (g s) = f_reqid s"
    "f_seen_ack (g s) = f_seen_ack s" "f_maxconfreqtransmits (g s) = f_maxconfreqtransmits s"
    "f_retransmits (g s) = f_retransmits s" "f_maxtermtransmits (g s) = f_maxtermtransmits s"
    "f_nakloops (g s) = f_nakloops s" "f_maxnakloops (g s) = f_maxnakloops s"
    "timers (g s) = timers s" "sent (g s) = sent s"
  using assms truncate_fields [of "g s" s] by (simp_all add: quiet_def)

lemma quiet_keeps: "quiet g \<Longrightarrow> keeps g"
  by (simp add: quietD keeps_def armed_def one_timer_def)

lemma keepsD:
  "keeps g \<Longrightarrow> armed s \<Longrightarrow> armed (g s)" "keeps g \<Longrightarrow> one_timer s \<Longrightarrow> one_timer (g s)"
  by (simp_all add: keeps_def)

lemma quiet_call: "(\<And>g. c = Some g \<Longrightarrow> quiet g) \<Longrightarrow> quiet (call c)"
  by (cases c) (auto simp: quiet_def)

lemma keeps_call: "(\<And>g. c = Some g \<Longrightarrow> keeps g) \<Longrightarrow> keeps (call c)"
  by (cases c) (auto simp: keeps_def)

lemma fsm_sdata_quiet [simp]:
  "f_state (fsm_sdata c i d n s) = f_state s" "timers (fsm_sdata c i d n s) = timers s"
  by (simp_all add: fsm_sdata_def Let_def)

lemma timeout_simps [simp]:
  "f_state (TIMEOUT s) = f_state s" "timers (TIMEOUT s) = Suc (timers s)"
  "f_state (UNTIMEOUT s) = f_state s" "timers (UNTIMEOUT s) = timers s - 1"
  by (simp_all add: TIMEOUT_def UNTIMEOUT_def)

lemma fsm_stermreq_timer [simp]:
  "f_state (fsm_stermreq s) = f_state s" "timers (fsm_stermreq s) = Suc (timers s)"
  by (simp_all add: fsm_stermreq_def Let_def)

text \<open>A callback that is called in a state without timer, or after it was set.\<close>

lemma keeps_idle:
  "keeps g \<Longrightarrow> f_state s \<notin> timed \<Longrightarrow> armed (g s)"
  "keeps g \<Longrightarrow> f_state s \<notin> timed \<Longrightarrow> timers s = 0 \<Longrightarrow> one_timer (g s)"
  by (rule keepsD, assumption, simp add: armed_def one_timer_def)+

lemma armedI: "f_state s \<notin> timed \<or> 0 < timers s \<Longrightarrow> armed s"
  by (auto simp: armed_def)

lemma timed_simps [simp]:
  "INITIAL \<notin> timed" "STARTING \<notin> timed" "CLOSED \<notin> timed" "STOPPED \<notin> timed" "OPENED \<notin> timed"
  "CLOSING \<in> timed" "STOPPING \<in> timed" "REQSENT \<in> timed" "ACKRCVD \<in> timed" "ACKSENT \<in> timed"
  by (simp_all add: timed_def)

lemma keepsI:
  assumes "\<And>s st. f_state s = st \<Longrightarrow> (st \<in> timed \<longrightarrow> 0 < timers s) \<Longrightarrow> armed (g s)"
    and "\<And>s st. f_state s = st \<Longrightarrow> timers s = (if st \<in> timed then 1 else 0) \<Longrightarrow> one_timer (g s)"
  shows "keeps g"
  using assms by (auto simp: keeps_def armed_def one_timer_def)

text \<open>
  A Terminate-Ack in the state \<open>OPENED\<close> is the one packet that leaves a timer behind.
\<close>

definition stray_termack :: "u8 list \<Rightarrow> 'w sys \<Rightarrow> bool" where
  "stray_termack inpacket s \<longleftrightarrow> f_state s = OPENED \<and> inpacket \<noteq> [] \<and> hd inpacket = TERMACK"

fun stray_event :: "fsm_event \<Rightarrow> 'w sys \<Rightarrow> bool" where
  "stray_event (Input pkt l) s = stray_termack pkt s"
| "stray_event e s = False"

locale fsm_client =
  fixes cb :: "'w fsm_callbacks"
  assumes resetci_quiet: "resetci cb = Some g1 \<Longrightarrow> quiet g1"
    and cilen_quiet: "cilen cb = Some g2 \<Longrightarrow> quiet (\<lambda>s. snd (g2 s))"
    and addci_quiet: "addci cb = Some g3 \<Longrightarrow> quiet (\<lambda>s. snd (snd (g3 n s)))"
    and ackci_quiet: "ackci cb = Some g4 \<Longrightarrow> quiet (\<lambda>s. snd (g4 p n s))"
    and reqci_quiet: "reqci cb = Some g5 \<Longrightarrow> quiet (\<lambda>s. snd (snd (snd (g5 p n r s))))"
    and nakci_keeps: "nakci cb = Some g6 \<Longrightarrow> keeps (\<lambda>s. snd (g6 p n s))"
    and rejci_keeps: "rejci cb = Some g6 \<Longrightarrow> keeps (\<lambda>s. snd (g6 p n s))"
    and extcode_keeps: "extcode cb = Some g7 \<Longrightarrow> keeps (\<lambda>s. snd (g7 c i p n s))"
    and up_keeps: "up cb = Some g1 \<Longrightarrow> keeps g1"
    and down_quiet: "down cb = Some g1 \<Longrightarrow> quiet g1"
    and starting_keeps: "starting cb = Some g1 \<Longrightarrow> keeps g1"
    and finished_keeps: "finished cb = Some g1 \<Longrightarrow> keeps g1"
    and retransmit_quiet: "retransmit cb = Some g1 \<Longrightarrow> quiet g1"
begin

lemma calls:
  "quiet (call (resetci cb))" "quiet (call (down cb))" "quiet (call (retransmit cb))"
  "keeps (call (up cb))" "keeps (call (starting cb))" "keeps (call (finished cb))"
  by (simp_all add: quiet_call keeps_call resetci_quiet down_quiet retransmit_quiet
      up_keeps starting_keeps finished_keeps)

lemmas call_simps = quietD [OF calls(1)] quietD [OF calls(2)] quietD [OF calls(3)]

lemma sconfreq_timer:
  "f_state (fsm_sconfreq cb r s) = f_state s \<and> timers (fsm_sconfreq cb r s) = Suc (timers s)"
proof -
  have len: "\<And>g s. cilen cb = Some g \<Longrightarrow> f_state (snd (g s)) = f_state s"
    "\<And>g s. cilen cb = Some g \<Longrightarrow> timers (snd (g s)) = timers s"
    using quietD(3,13) [OF cilen_quiet] by simp_all
  have add: "\<And>g n s. addci cb = Some g \<Longrightarrow> f_state (snd (snd (g n s))) = f_state s"
    "\<And>g n s. addci cb = Some g \<Longrightarrow> timers (snd (snd (g n s))) = timers s"
    using quietD(3,13) [OF addci_quiet] by simp_all
  show ?thesis
    by (simp add: fsm_sconfreq_def Let_def call_simps len add case_prod_beta split: option.split)
qed

lemmas sconfreq_simps [simp] = sconfreq_timer [THEN conjunct1] sconfreq_timer [THEN conjunct2]

lemmas idle_start = keeps_idle [OF calls(5)]
lemmas idle_finish = keeps_idle [OF calls(6)]
lemmas idle_up = keeps_idle [OF calls(4)]

lemma lowerup_keeps: "keeps (fsm_lowerup cb)"
proof (rule keepsI)
  show "armed (fsm_lowerup cb s)" if "f_state s = st" "st \<in> timed \<longrightarrow> 0 < timers s" for s st
    using that by (cases st) (simp_all add: fsm_lowerup_def armed_def)
  show "one_timer (fsm_lowerup cb s)" if "f_state s = st" "timers s = (if st \<in> timed then 1 else 0)" for s st
    using that by (cases st) (simp_all add: fsm_lowerup_def one_timer_def)
qed

lemma lowerdown_keeps: "keeps (fsm_lowerdown cb)"
proof (rule keepsI)
  show "armed (fsm_lowerdown cb s)" if "f_state s = st" "st \<in> timed \<longrightarrow> 0 < timers s" for s st
    using that by (cases st) (simp_all add: fsm_lowerdown_def idle_start armedI)
  show "one_timer (fsm_lowerdown cb s)" if "f_state s = st" "timers s = (if st \<in> timed then 1 else 0)" for s st
    using that idle_start by (cases st) (simp_all add: fsm_lowerdown_def one_timer_def call_simps)
qed

lemma restart_keeps: "keeps (fsm_restart cb)"
  using lowerup_keeps lowerdown_keeps by (simp add: keeps_def fsm_restart_def)

lemma open_keeps: "keeps (fsm_open cb)"
proof (rule keepsI)
  note r = keepsD [OF restart_keeps]
  show "armed (fsm_open cb s)" if "f_state s = st" "st \<in> timed \<longrightarrow> 0 < timers s" for s st
    using that by (cases st) (simp_all add: fsm_open_def idle_start armedI r)
  show "one_timer (fsm_open cb s)" if "f_state s = st" "timers s = (if st \<in> timed then 1 else 0)" for s st
    using that idle_start r(2) by (cases st) (simp_all add: fsm_open_def one_timer_def)
qed

lemma close_keeps: "keeps (fsm_close cb reason)"
proof (rule keepsI)
  show "armed (fsm_close cb reason s)" if "f_state s = st" "st \<in> timed \<longrightarrow> 0 < timers s" for s st
    using that by (cases st) (simp_all add: fsm_close_def Let_def armedI)
  show "one_timer (fsm_close cb reason s)"
    if "f_state s = st" "timers s = (if st \<in> timed then 1 else 0)" for s st
    using that by (cases st) (simp_all add: fsm_close_def Let_def one_timer_def call_simps)
qed

lemma protreject_keeps: "keeps (fsm_protreject cb)"
proof (rule keepsI)
  show "armed (fsm_protreject cb s)" if "f_state s = st" "st \<in> timed \<longrightarrow> 0 < timers s" for s st
    using that by (cases st) (simp_all add: fsm_protreject_def Let_def armedI idle_finish)
  show "one_timer (fsm_protreject cb s)"
    if "f_state s = st" "timers s = (if st \<in> timed then 1 else 0)" for s st
    using that idle_finish(2)
    by (cases st) (simp_all add: fsm_protreject_def Let_def one_timer_def call_simps)
qed

text \<open>The timer event itself: the entry is taken off the list before the handler runs.\<close>

lemma timeout_keeps: "keeps (fsm_step cb Timeout)"
proof (rule keepsI)
  show "armed (fsm_step cb Timeout s)" if "f_state s = st" "st \<in> timed \<longrightarrow> 0 < timers s" for s st
    using that
    by (cases st) (simp_all add: fsm_timeout_def Let_def armedI idle_finish call_simps)
  show "one_timer (fsm_step cb Timeout s)"
    if "f_state s = st" "timers s = (if st \<in> timed then 1 else 0)" for s st
    using that idle_finish(2)
    by (cases st) (simp_all add: fsm_timeout_def Let_def one_timer_def call_simps)
qed

text \<open>The handlers of received packets.\<close>

lemma reqci_simps:
  "reqci cb = Some g \<Longrightarrow> f_state (snd (snd (snd (g p n r s)))) = f_state s"
  "reqci cb = Some g \<Longrightarrow> timers (snd (snd (snd (g p n r s)))) = timers s"
  using quietD(3,13) [OF reqci_quiet] by simp_all

lemma ackci_simps:
  "ackci cb = Some g \<Longrightarrow> f_state (snd (g p n s)) = f_state s"
  "ackci cb = Some g \<Longrightarrow> timers (snd (g p n s)) = timers s"
  using quietD(3,13) [OF ackci_quiet] by simp_all

lemma sconfreply_timer:
  "0 < timers s \<Longrightarrow> armed (fsm_sconfreply cb code pid inp len s)"
  "timers s = 1 \<Longrightarrow> one_timer (fsm_sconfreply cb code pid inp len s)"
proof -
  have nl: "\<And>s n. armed (s\<lparr>f_nakloops := n\<rparr>) = armed s" "\<And>s n. one_timer (s\<lparr>f_nakloops := n\<rparr>) = one_timer s"
    by (simp_all add: armed_def one_timer_def)
  show "0 < timers s \<Longrightarrow> armed (fsm_sconfreply cb code pid inp len s)"
    by (simp add: fsm_sconfreply_def Let_def nl idle_up armedI)
  show "timers s = 1 \<Longrightarrow> one_timer (fsm_sconfreply cb code pid inp len s)"
    by (auto simp: fsm_sconfreply_def Let_def nl idle_up)
      (simp_all add: one_timer_def)
qed

lemma rconfreq_keeps:
  assumes "f_state s \<noteq> INITIAL" "f_state s \<noteq> STARTING"
  shows "armed s \<Longrightarrow> armed (fsm_rconfreq cb pid inp len s)"
    and "one_timer s \<Longrightarrow> one_timer (fsm_rconfreq cb pid inp len s)"
proof -
  note d = fsm_rconfreq_def fsm_startneg_def fsm_checkci_def Let_def case_prod_beta call_simps
  show "armed s \<Longrightarrow> armed (fsm_rconfreq cb pid inp len s)"
    using assms by (cases "f_state s")
      (simp_all add: d reqci_simps sconfreply_timer armed_def [of s] armedI split: option.split)
  show "one_timer s \<Longrightarrow> one_timer (fsm_rconfreq cb pid inp len s)"
    using assms by (cases "f_state s")
      (simp_all add: d reqci_simps sconfreply_timer one_timer_def [of s]
        one_timer_def [of "fsm_sdata c i q n s" for c i q n] split: option.split)
qed

lemma rconfack_keeps: "keeps (fsm_rconfack cb pid inp len)"
proof (rule keepsI)
  note d = fsm_rconfack_def Let_def case_prod_beta call_simps
  have u: "armed (call (up cb) (s\<lparr>f_state := OPENED, f_retransmits := m\<rparr>))"
    "timers s = 0 \<Longrightarrow> one_timer (call (up cb) (s\<lparr>f_state := OPENED, f_retransmits := m\<rparr>))" for s m
    by (simp_all add: idle_up)
  show "armed (fsm_rconfack cb pid inp len s)" if "f_state s = st" "st \<in> timed \<longrightarrow> 0 < timers s" for s st
    using that
    by (cases st) (simp_all add: d ackci_simps armedI u(1) split: option.split)
  show "one_timer (fsm_rconfack cb pid inp len s)"
    if "f_state s = st" "timers s = (if st \<in> timed then 1 else 0)" for s st
    using that u(2)
    by (cases st) (simp_all add: d ackci_simps one_timer_def split: option.split)
qed

lemma nakrej_good_keeps: "keeps (fsm_nakrej_good cb ret pid)"
proof (rule keepsI)
  show "armed (fsm_nakrej_good cb ret pid s)" if "f_state s = st" "st \<in> timed \<longrightarrow> 0 < timers s" for s st
    using that by (cases st) (simp_all add: fsm_nakrej_good_def armedI Let_def)
  show "one_timer (fsm_nakrej_good cb ret pid s)"
    if "f_state s = st" "timers s = (if st \<in> timed then 1 else 0)" for s st
    using that by (cases st) (simp_all add: fsm_nakrej_good_def one_timer_def Let_def call_simps)
qed

lemma nakrej_simps:
  "nakci cb = Some g \<Longrightarrow> armed s \<Longrightarrow> armed (snd (g p n s))"
  "nakci cb = Some g \<Longrightarrow> one_timer s \<Longrightarrow> one_timer (snd (g p n s))"
  "rejci cb = Some g \<Longrightarrow> armed s \<Longrightarrow> armed (snd (g p n s))"
  "rejci cb = Some g \<Longrightarrow> one_timer s \<Longrightarrow> one_timer (snd (g p n s))"
  using nakci_keeps [of g p n] rejci_keeps [of g p n] by (auto simp: keeps_def)

lemma rconfnakrej_keeps: "keeps (fsm_rconfnakrej cb code pid inp len)"
  unfolding keeps_def fsm_rconfnakrej_def
  using nakrej_simps keepsD [OF nakrej_good_keeps]
  by (auto simp: Let_def case_prod_beta split: option.split)

lemma rtermreq_keeps: "keeps (fsm_rtermreq cb pid)"
proof (rule keepsI)
  show "armed (fsm_rtermreq cb pid s)" if "f_state s = st" "st \<in> timed \<longrightarrow> 0 < timers s" for s st
    using that by (cases st) (simp_all add: fsm_rtermreq_def armedI Let_def)
  show "one_timer (fsm_rtermreq cb pid s)" if "f_state s = st" "timers s = (if st \<in> timed then 1 else 0)" for s st
    using that by (cases st) (simp_all add: fsm_rtermreq_def one_timer_def Let_def call_simps)
qed

lemma rtermack_armed: "armed s \<Longrightarrow> armed (fsm_rtermack cb s)"
  by (cases "f_state s") (simp_all add: fsm_rtermack_def armedI armed_def [of s] call_simps idle_finish)

lemma rtermack_one_timer: "f_state s \<noteq> OPENED \<Longrightarrow> one_timer s \<Longrightarrow> one_timer (fsm_rtermack cb s)"
  using idle_finish(2)
  by (cases "f_state s") (simp_all add: fsm_rtermack_def one_timer_def)

lemma rcoderej_keeps: "keeps (fsm_rcoderej inp len)"
  by (auto simp: keeps_def fsm_rcoderej_def armed_def one_timer_def split: list.split)

lemma extcode_simps:
  "extcode cb = Some g \<Longrightarrow> armed s \<Longrightarrow> armed (snd (g c i p n s))"
  "extcode cb = Some g \<Longrightarrow> one_timer s \<Longrightarrow> one_timer (snd (g c i p n s))"
  using extcode_keeps [of g c i p n] by (auto simp: keeps_def)

lemma input_other_keeps:
  "armed s \<Longrightarrow> armed (s\<lparr>ub := b\<rparr>)" "one_timer s \<Longrightarrow> one_timer (s\<lparr>ub := b\<rparr>)"
  "armed s \<Longrightarrow> armed (fsm_sdata c i d n (s\<lparr>f_id := k\<rparr>))"
  "one_timer s \<Longrightarrow> one_timer (fsm_sdata c i d n (s\<lparr>f_id := k\<rparr>))"
  by (simp_all add: armed_def one_timer_def)

lemmas packet_keeps =
  keepsD [OF rconfack_keeps] keepsD [OF rconfnakrej_keeps] keepsD [OF rtermreq_keeps]
  keepsD [OF rcoderej_keeps] rtermack_armed rtermack_one_timer rconfreq_keeps extcode_simps
  input_other_keeps

lemma input_armed: "armed s \<Longrightarrow> armed (fsm_input cb inpacket l s)"
  by (simp add: fsm_input_def Let_def case_prod_beta packet_keeps split: list.split option.split)

lemma input_one_timer:
  "\<not> stray_termack inpacket s \<Longrightarrow> one_timer s \<Longrightarrow> one_timer (fsm_input cb inpacket l s)"
  by (cases "f_state s = OPENED")
    (auto simp: fsm_input_def Let_def case_prod_beta stray_termack_def packet_keeps
      split: list.split option.split)

lemmas event_keeps =
  keepsD [OF lowerup_keeps] keepsD [OF lowerdown_keeps] keepsD [OF open_keeps]
  keepsD [OF close_keeps] keepsD [OF timeout_keeps] keepsD [OF protreject_keeps]
  input_armed input_one_timer

theorem step_armed: "armed s \<Longrightarrow> armed (fsm_step cb e s)"
  by (cases e) (simp_all add: event_keeps del: fsm_step.simps(5))

theorem step_one_timer: "\<not> stray_event e s \<Longrightarrow> one_timer s \<Longrightarrow> one_timer (fsm_step cb e s)"
  by (cases e) (simp_all add: event_keeps del: fsm_step.simps(5))

theorem run_armed: "armed s \<Longrightarrow> armed (fsm_run cb es s)"
  by (induction es arbitrary: s) (simp_all add: step_armed)

end

end
