(* ===== verification/Fsm_Rfc.thy ===== *)
theory Fsm_Rfc
  imports Fsm_Timers
begin

text \<open>
  The transition table of RFC 1661 (section 4.1) and the relation of fsm.c to it. \<open>rfc1661\<close>
  gives, for an event and a state, the actions and the next state of the table. The options
  the table marks [r] and [p] are taken as in fsm.c: without \<open>OPT_RESTART\<close> a second Open does
  nothing, and TO- leads to Stopped.
\<close>

datatype rfc_event =
    Up_ev | Down_ev | Open_ev | Close_ev | TO_plus | TO_minus
  | RCR_plus | RCR_minus u8 | RCA | RCN | RTR | RTA | RUC | RXJ_plus | RXJ_minus

datatype rfc_action =
  tlu | tld | tls | tlf | irc | zrc | scr | sca | scn u8 | str | sta | scj

definition no_change :: "link_state \<Rightarrow> rfc_action list \<times> link_state" where
  "no_change st = ([], st)"

fun rfc1661 :: "rfc_event \<Rightarrow> link_state \<Rightarrow> rfc_action list \<times> link_state" where
  "rfc1661 Up_ev st = (case st of
     INITIAL \<Rightarrow> ([], CLOSED) | STARTING \<Rightarrow> ([irc, scr], REQSENT) | _ \<Rightarrow> no_change st)"
| "rfc1661 Down_ev st = (case st of
     CLOSED \<Rightarrow> ([], INITIAL) | STOPPED \<Rightarrow> ([tls], STARTING) | CLOSING \<Rightarrow> ([], INITIAL)
   | STOPPING \<Rightarrow> ([], STARTING) | REQSENT \<Rightarrow> ([], STARTING) | ACKRCVD \<Rightarrow> ([], STARTING)
   | ACKSENT \<Rightarrow> ([], STARTING) | OPENED \<Rightarrow> ([tld], STARTING) | _ \<Rightarrow> no_change st)"
| "rfc1661 Open_ev st = (case st of
     INITIAL \<Rightarrow> ([tls], STARTING) | CLOSED \<Rightarrow> ([irc, scr], REQSENT) | CLOSING \<Rightarrow> ([], STOPPING)
   | _ \<Rightarrow> no_change st)"
| "rfc1661 Close_ev st = (case st of
     STARTING \<Rightarrow> ([tlf], INITIAL) | STOPPED \<Rightarrow> ([], CLOSED) | STOPPING \<Rightarrow> ([], CLOSING)
   | REQSENT \<Rightarrow> ([irc, str], CLOSING) | ACKRCVD \<Rightarrow> ([irc, str], CLOSING)
   | ACKSENT \<Rightarrow> ([irc, str], CLOSING) | OPENED \<Rightarrow> ([tld, irc, str], CLOSING) | _ \<Rightarrow> no_change st)"
| "rfc1661 TO_plus st = (case st of
     CLOSING \<Rightarrow> ([str], CLOSING) | STOPPING \<Rightarrow> ([str], STOPPING) | REQSENT \<Rightarrow> ([scr], REQSENT)
   | ACKRCVD \<Rightarrow> ([scr], REQSENT) | ACKSENT \<Rightarrow> ([scr], ACKSENT) | _ \<Rightarrow> no_change st)"
| "rfc1661 TO_minus st = (case st of
     CLOSING \<Rightarrow> ([tlf], CLOSED) | STOPPING \<Rightarrow> ([tlf], STOPPED) | REQSENT \<Rightarrow> ([tlf], STOPPED)
   | ACKRCVD \<Rightarrow> ([tlf], STOPPED) | ACKSENT \<Rightarrow> ([tlf], STOPPED) | _ \<Rightarrow> no_change st)"
| "rfc1661 RCR_plus st = (case st of
     CLOSED \<Rightarrow> ([sta], CLOSED) | STOPPED \<Rightarrow> ([irc, scr, sca], ACKSENT) | REQSENT \<Rightarrow> ([sca], ACKSENT)
   | ACKRCVD \<Rightarrow> ([sca, tlu], OPENED) | ACKSENT \<Rightarrow> ([sca], ACKSENT)
   | OPENED \<Rightarrow> ([tld, scr, sca], ACKSENT) | _ \<Rightarrow> no_change st)"
| "rfc1661 (RCR_minus c) st = (case st of
     CLOSED \<Rightarrow> ([sta], CLOSED) | STOPPED \<Rightarrow> ([irc, scr, scn c], REQSENT)
   | REQSENT \<Rightarrow> ([scn c], REQSENT) | ACKRCVD \<Rightarrow> ([scn c], ACKRCVD) | ACKSENT \<Rightarrow> ([scn c], REQSENT)
   | OPENED \<Rightarrow> ([tld, scr, scn c], REQSENT) | _ \<Rightarrow> no_change st)"
| "rfc1661 RCA st = (case st of
     CLOSED \<Rightarrow> ([sta], CLOSED) | STOPPED \<Rightarrow> ([sta], STOPPED) | REQSENT \<Rightarrow> ([irc], ACKRCVD)
   | ACKRCVD \<Rightarrow> ([scr], REQSENT) | ACKSENT \<Rightarrow> ([irc, tlu], OPENED) | OPENED \<Rightarrow> ([tld, scr], REQSENT)
   | _ \<Rightarrow> no_change st)"
| "rfc1661 RCN st = (case st of
     CLOSED \<Rightarrow> ([sta], CLOSED) | STOPPED \<Rightarrow> ([sta], STOPPED) | REQSENT \<Rightarrow> ([irc, scr], REQSENT)
   | ACKRCVD \<Rightarrow> ([scr], REQSENT) | ACKSENT \<Rightarrow> ([irc, scr], ACKSENT) | OPENED \<Rightarrow> ([tld, scr], REQSENT)
   | _ \<Rightarrow> no_change st)"
| "rfc1661 RTR st = (case st of
     ACKRCVD \<Rightarrow> ([sta], REQSENT) | ACKSENT \<Rightarrow> ([sta], REQSENT) | OPENED \<Rightarrow> ([tld, zrc, sta], STOPPING)
   | INITIAL \<Rightarrow> no_change st | STARTING \<Rightarrow> no_change st | _ \<Rightarrow> ([sta], st))"
| "rfc1661 RTA st = (case st of
     CLOSING \<Rightarrow> ([tlf], CLOSED) | STOPPING \<Rightarrow> ([tlf], STOPPED) | ACKRCVD \<Rightarrow> ([], REQSENT)
   | OPENED \<Rightarrow> ([tld, scr], REQSENT) | _ \<Rightarrow> no_change st)"
| "rfc1661 RUC st = (case st of INITIAL \<Rightarrow> no_change st | STARTING \<Rightarrow> no_change st | _ \<Rightarrow> ([scj], st))"
| "rfc1661 RXJ_plus st = (case st of ACKRCVD \<Rightarrow> ([], REQSENT) | _ \<Rightarrow> no_change st)"
| "rfc1661 RXJ_minus st = (case st of
     CLOSED \<Rightarrow> ([tlf], CLOSED) | STOPPED \<Rightarrow> ([tlf], STOPPED) | CLOSING \<Rightarrow> ([tlf], CLOSED)
   | STOPPING \<Rightarrow> ([tlf], STOPPED) | REQSENT \<Rightarrow> ([tlf], STOPPED) | ACKRCVD \<Rightarrow> ([tlf], STOPPED)
   | ACKSENT \<Rightarrow> ([tlf], STOPPED) | OPENED \<Rightarrow> ([tld, irc, str], STOPPING) | _ \<Rightarrow> no_change st)"

text \<open>The packets an action sends, by their code.\<close>

fun action_codes :: "rfc_action \<Rightarrow> u8 list" where
  "action_codes scr = [CONFREQ]"
| "action_codes sca = [CONFACK]"
| "action_codes (scn c) = [c]"
| "action_codes str = [TERMREQ]"
| "action_codes sta = [TERMACK]"
| "action_codes scj = [CODEREJ]"
| "action_codes _ = []"

definition sent_codes :: "'w sys \<Rightarrow> u8 list" where
  "sent_codes s = map (\<lambda>p. p ! 4) (sent s)"

section \<open>The RFC's event behind an event of fsm.c\<close>

text \<open>A packet whose header is complete and whose length fits; \<open>None\<close> if it is dropped.\<close>

definition parse_packet :: "u8 list \<Rightarrow> int \<Rightarrow> (u8 \<times> u8 \<times> u8 list \<times> int) option" where
  "parse_packet pkt l =
     (case pkt of
        code # pid # hi # lo # inp \<Rightarrow>
          let len = uint (join16 hi lo)
          in if szt l < HEADERLEN \<or> len < HEADERLEN \<or> l < len then None
             else Some (code, pid, inp, len - HEADERLEN)
      | _ \<Rightarrow> None)"

definition packet_event :: "'w fsm_callbacks \<Rightarrow> u8 \<Rightarrow> u8 \<Rightarrow> u8 list \<Rightarrow> int \<Rightarrow> 'w sys \<Rightarrow> rfc_event option" where
  "packet_event cb code pid inp len s =
     (if code = CONFREQ
      then let reply = fst (fsm_checkci cb inp len (fsm_startneg cb s))
           in Some (if reply = CONFACK then RCR_plus else RCR_minus reply)
      else if code = CONFACK
      then (if pid = f_reqid s \<and> \<not> f_seen_ack s
               \<and> (case ackci cb of Some g \<Rightarrow> fst (g inp len s) | None \<Rightarrow> len = 0)
            then Some RCA else None)
      else if code = CONFNAK \<or> code = CONFREJ
      then (if pid = f_reqid s \<and> \<not> f_seen_ack s
               \<and> (case (if code = CONFNAK then nakci cb else rejci cb) of
                    Some g \<Rightarrow> fst (g inp len s) \<noteq> 0 | None \<Rightarrow> False)
            then Some RCN else None)
      else if code = TERMREQ then Some RTR
      else if code = TERMACK then Some RTA
      else if code = CODEREJ then (if szt len < HEADERLEN then None else Some RXJ_plus)
      else Some RUC)"

fun abstract_event :: "'w fsm_callbacks \<Rightarrow> fsm_event \<Rightarrow> 'w sys \<Rightarrow> rfc_event option" where
  "abstract_event cb LowerUp s = Some Up_ev"
| "abstract_event cb LowerDown s = Some Down_ev"
| "abstract_event cb Open s = Some Open_ev"
| "abstract_event cb (Close r) s = Some Close_ev"
| "abstract_event cb Timeout s =
     (if timers s = 0 then None else Some (if f_retransmits s \<le> 0 then TO_minus else TO_plus))"
| "abstract_event cb ProtReject s = Some RXJ_minus"
| "abstract_event cb (Input pkt l) s =
     (case parse_packet pkt l of
        None \<Rightarrow> None
      | Some (code, pid, inp, len) \<Rightarrow>
          if f_state s \<in> {INITIAL, STARTING} then None else packet_event cb code pid inp len s)"

section \<open>Simulation\<close>

text \<open>The buffer holds as many bytes as \<open>read\<close> has returned.\<close>

fun event_fits :: "fsm_event \<Rightarrow> bool" where
  "event_fits (Input pkt l) = (l \<le> int (length pkt))"
| "event_fits e = True"

text \<open>
  What the step from \<open>s\<close> to \<open>t\<close> must look like for the RFC's event. When the event brings the
  layer up, the protocol's \<open>up\<close> callback may close it at once; the step is then the event followed
  by a Close in \<open>OPENED\<close>.
\<close>

definition follows :: "rfc_event option \<Rightarrow> 'w sys \<Rightarrow> 'w sys \<Rightarrow> bool" where
  "follows ev s t \<longleftrightarrow>
     (case ev of
        None \<Rightarrow> f_state t = f_state s \<and> sent_codes t = sent_codes s
      | Some e \<Rightarrow> f_state t = snd (rfc1661 e (f_state s))
          \<and> sent_codes t = sent_codes s @ concat (map action_codes (fst (rfc1661 e (f_state s)))))"

definition follows_or_closes :: "rfc_event option \<Rightarrow> 'w sys \<Rightarrow> 'w sys \<Rightarrow> bool" where
  "follows_or_closes ev s t \<longleftrightarrow> follows ev s t
     \<or> (case ev of
          None \<Rightarrow> False
        | Some e \<Rightarrow> tlu \<in> set (fst (rfc1661 e (f_state s)))
            \<and> (\<exists>m. follows (Some e) s m \<and> follows (Some Close_ev) m t))"

lemma sent_codes_sdata [simp]: "sent_codes (fsm_sdata c i d n s) = sent_codes s @ [c]"
  by (simp add: sent_codes_def fsm_sdata_def Let_def putshort_def)

lemma sent_codes_timers [simp]:
  "sent_codes (TIMEOUT s) = sent_codes s" "sent_codes (UNTIMEOUT s) = sent_codes s"
  by (simp_all add: sent_codes_def TIMEOUT_def UNTIMEOUT_def)

lemma sent_codes_update [simp]:
  "sent_codes (f_state_update f s) = sent_codes s" "sent_codes (f_nakloops_update g s) = sent_codes s"
  "sent_codes (f_retransmits_update g s) = sent_codes s" "sent_codes (f_seen_ack_update h s) = sent_codes s"
  "sent_codes (f_id_update k s) = sent_codes s" "sent_codes (f_reqid_update k s) = sent_codes s"
  "sent_codes (f_term_reason_update m s) = sent_codes s"
  "sent_codes (f_term_reason_len_update g s) = sent_codes s" "sent_codes (ub_update h s) = sent_codes s"
  by (simp_all add: sent_codes_def)

lemma sent_codes_stermreq [simp]: "sent_codes (fsm_stermreq s) = sent_codes s @ [TERMREQ]"
  by (simp add: fsm_stermreq_def Let_def)

lemma quiet_codes: "quiet g \<Longrightarrow> sent_codes (g s) = sent_codes s"
  by (simp add: sent_codes_def quietD)

locale fsm_plain_client = fsm_client +
  assumes nakci_quiet: "nakci cb = Some g6 \<Longrightarrow> quiet (\<lambda>s. snd (g6 p n s))"
    and rejci_quiet: "rejci cb = Some g6 \<Longrightarrow> quiet (\<lambda>s. snd (g6 p n s))"
    and nakci_nonneg: "nakci cb = Some g6 \<Longrightarrow> 0 \<le> fst (g6 p n s)"
    and rejci_nonneg: "rejci cb = Some g6 \<Longrightarrow> 0 \<le> fst (g6 p n s)"
    and up_opens: "up cb = Some g1 \<Longrightarrow> f_state s = OPENED \<Longrightarrow>
        f_state (g1 s) = OPENED \<and> sent_codes (g1 s) = sent_codes s \<or> follows (Some Close_ev) s (g1 s)"
    and starting_quiet: "starting cb = Some g1 \<Longrightarrow> quiet g1"
    and finished_quiet: "finished cb = Some g1 \<Longrightarrow> quiet g1"
    and no_extcode: "extcode cb = None"
begin

lemma quiet_calls:
  "quiet (call (starting cb))" "quiet (call (finished cb))"
  by (simp_all add: quiet_call starting_quiet finished_quiet)

lemma up_cases:
  assumes "f_state s = OPENED"
  shows "f_state (call (up cb) s) = OPENED \<and> sent_codes (call (up cb) s) = sent_codes s
    \<or> f_state (call (up cb) s) = CLOSING \<and> sent_codes (call (up cb) s) = sent_codes s @ [TERMREQ]"
  using up_opens [OF _ assms] assms by (cases "up cb") (auto simp: follows_def)

lemma follows_up:
  assumes m: "follows (Some e) s m" "f_state m = OPENED" and tlu: "tlu \<in> set (fst (rfc1661 e (f_state s)))"
    and t: "f_state t = f_state (call (up cb) m)" "sent_codes t = sent_codes (call (up cb) m)"
  shows "follows_or_closes (Some e) s t"
  using up_cases [OF m(2)]
proof
  assume "f_state (call (up cb) m) = OPENED \<and> sent_codes (call (up cb) m) = sent_codes m"
  then show ?thesis using m t by (simp add: follows_or_closes_def follows_def)
next
  assume "f_state (call (up cb) m) = CLOSING \<and> sent_codes (call (up cb) m) = sent_codes m @ [TERMREQ]"
  then have "follows (Some Close_ev) m t" using m(2) t by (simp add: follows_def)
  then show ?thesis using m(1) tlu by (auto simp: follows_or_closes_def)
qed

lemmas plain_simps =
  quietD(3) [OF calls(1)] quietD(3) [OF calls(2)] quietD(3) [OF calls(3)]
  quietD(3) [OF quiet_calls(1)] quietD(3) [OF quiet_calls(2)]
  quiet_codes [OF calls(1)] quiet_codes [OF calls(2)] quiet_codes [OF calls(3)]
  quiet_codes [OF quiet_calls(1)] quiet_codes [OF quiet_calls(2)]

lemma sconfreq_codes [simp]: "sent_codes (fsm_sconfreq cb r s) = sent_codes s @ [CONFREQ]"
proof -
  have len: "\<And>g s. cilen cb = Some g \<Longrightarrow> sent_codes (snd (g s)) = sent_codes s"
    using quiet_codes [OF cilen_quiet] by simp
  have add: "\<And>g n s. addci cb = Some g \<Longrightarrow> sent_codes (snd (snd (g n s))) = sent_codes s"
    using quiet_codes [OF addci_quiet] by simp
  show ?thesis
    by (simp add: fsm_sconfreq_def Let_def plain_simps len add case_prod_beta split: option.split)
qed

text \<open>Events from below and above.\<close>

lemma lower_follows:
  assumes "f_flags s AND OPT_SILENT = 0"
  shows "follows (Some Up_ev) s (fsm_lowerup cb s)"
    and "follows (Some Down_ev) s (fsm_lowerdown cb s)"
  using assms
  by (cases "f_state s"; simp add: follows_def fsm_lowerup_def fsm_lowerdown_def no_change_def plain_simps)+

lemma open_close_follows:
  assumes "f_flags s AND OPT_SILENT = 0" "f_flags s AND OPT_RESTART = 0"
  shows "follows (Some Open_ev) s (fsm_open cb s)"
    and "follows (Some Close_ev) s (fsm_close cb r s)"
  using assms
  by (cases "f_state s"; simp add: follows_def fsm_open_def fsm_close_def fsm_restart_def Let_def
      no_change_def plain_simps)+

lemma protreject_follows: "follows (Some RXJ_minus) s (fsm_protreject cb s)"
  by (cases "f_state s"; simp add: follows_def fsm_protreject_def Let_def no_change_def plain_simps)

lemma timeout_follows: "follows (abstract_event cb Timeout s) s (fsm_step cb Timeout s)"
proof -
  have r: "f_retransmits (UNTIMEOUT s) = f_retransmits s" "f_flags (UNTIMEOUT s) = f_flags s"
    by (simp_all add: UNTIMEOUT_def)
  show ?thesis
    by (cases "f_state s"; simp add: follows_def fsm_timeout_def Let_def no_change_def plain_simps r)
qed

text \<open>Packets.\<close>

lemma checkci_simps:
  "f_state (snd (snd (snd (fsm_checkci cb inp len s)))) = f_state s"
  "sent_codes (snd (snd (snd (fsm_checkci cb inp len s)))) = sent_codes s"
  using quietD(3) [OF reqci_quiet] quiet_codes [OF reqci_quiet]
  by (simp_all add: fsm_checkci_def split: option.split)

lemma rconfreq_follows:
  assumes "f_state s \<notin> {INITIAL, STARTING}"
  shows "follows_or_closes (packet_event cb CONFREQ pid inp len s) s (fsm_rconfreq cb pid inp len s)"
proof (cases "f_state s = ACKRCVD \<and> fst (fsm_checkci cb inp len (fsm_startneg cb s)) = CONFACK")
  case True
  obtain inp' len' s' where c: "fsm_checkci cb inp len s = (CONFACK, inp', len', s')"
    using True by (cases "fsm_checkci cb inp len s") (auto simp: fsm_startneg_def)
  define m where "m = (UNTIMEOUT (fsm_sdata CONFACK pid inp' len' s'))\<lparr>f_state := OPENED\<rparr>"
  have s': "f_state s' = f_state s" "sent_codes s' = sent_codes s"
    using checkci_simps [of inp len s] c by simp_all
  have "follows (Some RCR_plus) s m"
    using True s' by (simp add: follows_def m_def)
  moreover have "fsm_rconfreq cb pid inp len s = (call (up cb) m)\<lparr>f_nakloops := 0\<rparr>"
    using True c s' by (simp add: fsm_rconfreq_def fsm_startneg_def fsm_sconfreply_def m_def)
  moreover have "packet_event cb CONFREQ pid inp len s = Some RCR_plus"
    using True by (simp add: packet_event_def)
  ultimately show ?thesis using True by (simp add: follows_up [of _ s m] m_def)
next
  case False
  with assms have "follows (packet_event cb CONFREQ pid inp len s) s (fsm_rconfreq cb pid inp len s)"
    by (cases "f_state s")
      (simp_all add: follows_def packet_event_def fsm_rconfreq_def fsm_startneg_def fsm_sconfreply_def
        case_prod_beta Let_def no_change_def plain_simps checkci_simps)
  then show ?thesis by (simp add: follows_or_closes_def)
qed

lemma rconfack_follows:
  "follows_or_closes (packet_event cb CONFACK pid inp len s) s (fsm_rconfack cb pid inp len s)"
proof (cases "f_state s = ACKSENT \<and> packet_event cb CONFACK pid inp len s = Some RCA")
  case True
  then have ev: "pid = f_reqid s" "\<not> f_seen_ack s"
    "case ackci cb of Some g \<Rightarrow> fst (g inp len s) | None \<Rightarrow> len = 0"
    by (auto simp: packet_event_def code_defs split: if_splits)
  define r where "r = (case ackci cb of Some check \<Rightarrow> check inp len s | None \<Rightarrow> (len = 0, s))"
  have r: "fst r" "f_state (snd r) = f_state s" "sent_codes (snd r) = sent_codes s"
    using ev(3) quietD(3) [OF ackci_quiet] quiet_codes [OF ackci_quiet]
    by (auto simp: r_def split: option.splits)
  define s1 where "s1 = (snd r)\<lparr>f_seen_ack := True\<rparr>"
  define m where "m = (UNTIMEOUT s1)\<lparr>f_state := OPENED, f_retransmits := f_maxconfreqtransmits s1\<rparr>"
  have "follows (Some RCA) s m"
    using True r by (simp add: follows_def m_def s1_def)
  moreover have "fsm_rconfack cb pid inp len s = call (up cb) m"
  proof -
    obtain good s2 where "r = (good, s2)" by (cases r)
    then show ?thesis
      using True r ev(1,2) unfolding r_def [symmetric]
      by (simp add: fsm_rconfack_def m_def s1_def flip: r_def)
  qed
  ultimately show ?thesis using True by (simp add: follows_up [of _ s m] m_def)
next
  case False
  have a: "\<And>g. ackci cb = Some g \<Longrightarrow> f_state (snd (g inp len s)) = f_state s"
    "\<And>g. ackci cb = Some g \<Longrightarrow> sent_codes (snd (g inp len s)) = sent_codes s"
    using quietD(3) [OF ackci_quiet] quiet_codes [OF ackci_quiet] by simp_all
  have "follows (packet_event cb CONFACK pid inp len s) s (fsm_rconfack cb pid inp len s)"
  proof (cases "f_state s = ACKSENT")
    case True
    with False show ?thesis
      by (auto simp: follows_def packet_event_def fsm_rconfack_def case_prod_beta Let_def a code_defs
          split: option.splits if_splits)
  next
    case False
    then show ?thesis
      by (cases "f_state s")
        (simp_all add: follows_def packet_event_def fsm_rconfack_def case_prod_beta Let_def
          no_change_def plain_simps a code_defs split: option.split)
  qed
  then show ?thesis by (simp add: follows_or_closes_def)
qed

lemma nakrej_good_follows:
  "0 \<le> ret \<Longrightarrow> follows (Some RCN) s (fsm_nakrej_good cb ret pid s)"
  by (cases "f_state s")
    (simp_all add: follows_def fsm_nakrej_good_def Let_def no_change_def plain_simps)

lemma rconfnakrej_follows:
  assumes "code = CONFNAK \<or> code = CONFREJ"
  shows "follows (packet_event cb code pid inp len s) s (fsm_rconfnakrej cb code pid inp len s)"
proof (cases "(if code = CONFNAK then nakci cb else rejci cb)")
  case None
  then show ?thesis
    using assms by (auto simp: follows_def packet_event_def fsm_rconfnakrej_def code_defs)
next
  case (Some g)
  then have q: "quiet (\<lambda>s. snd (g inp len s))" and nn: "0 \<le> fst (g inp len s)"
    by (auto simp: nakci_quiet rejci_quiet nakci_nonneg rejci_nonneg split: if_splits)
  have state: "f_state (snd (g inp len s)) = f_state s" "sent_codes (snd (g inp len s)) = sent_codes s"
    using quietD(3) [OF q] quiet_codes [OF q] by simp_all
  show ?thesis
    using assms Some nakrej_good_follows [OF nn, of "snd (g inp len s)" pid] state
    by (auto simp: packet_event_def fsm_rconfnakrej_def case_prod_beta Let_def code_defs follows_def
        split: if_splits)
qed

lemma term_follows:
  assumes "f_state s \<notin> {INITIAL, STARTING}"
  shows "follows (Some RTR) s (fsm_rtermreq cb pid s)"
    and "f_state s \<noteq> OPENED \<Longrightarrow> follows (Some RTA) s (fsm_rtermack cb s)"
  using assms
  by (cases "f_state s"; simp add: follows_def fsm_rtermreq_def fsm_rtermack_def Let_def
      no_change_def plain_simps)+

lemma rcoderej_follows:
  assumes "0 \<le> len" "len < 2 ^ 64" "len \<le> int (length inp)"
  shows "follows (if szt len < HEADERLEN then None else Some RXJ_plus) s (fsm_rcoderej inp len s)"
proof (cases "len < HEADERLEN")
  case True
  with assms show ?thesis by (simp add: follows_def fsm_rcoderej_def)
next
  case False
  then obtain code rid rest where "inp = code # rid # rest"
    using assms by (cases inp; cases "tl inp") (auto simp: HEADERLEN_def)
  with False assms show ?thesis
    by (cases "f_state s"; simp add: follows_def fsm_rcoderej_def no_change_def)
qed

lemma input_follows:
  assumes "\<not> stray_termack pkt s" "l \<le> int (length pkt)"
  shows "follows_or_closes (abstract_event cb (Input pkt l) s) s (fsm_input cb pkt l s)"
proof (cases "parse_packet pkt l")
  case None
  then show ?thesis
    by (auto simp: follows_or_closes_def follows_def fsm_input_def parse_packet_def Let_def
        split: list.splits if_splits)
next
  case (Some x)
  then obtain code pid hi lo inp len where
    pkt: "pkt = code # pid # hi # lo # inp" and len: "len = uint (join16 hi lo) - HEADERLEN"
    and x: "x = (code, pid, inp, len)" and sz: "\<not> szt l < HEADERLEN"
    "\<not> uint (join16 hi lo) < HEADERLEN" "\<not> l < uint (join16 hi lo)"
    by (auto simp: parse_packet_def Let_def split: list.splits if_splits)
  show ?thesis
  proof (cases "f_state s \<in> {INITIAL, STARTING}")
    case True
    then show ?thesis
      using Some sz by (auto simp: x pkt follows_or_closes_def follows_def fsm_input_def Let_def)
  next
    case False
    have unknown: "follows (Some RUC) s (fsm_sdata CODEREJ k d n (s\<lparr>f_id := k'\<rparr>))" for k d n k'
      using False by (cases "f_state s") (simp_all add: follows_def)
    have termack: "code = TERMACK \<Longrightarrow> f_state s \<noteq> OPENED"
      using assms by (auto simp: stray_termack_def pkt)
    have dist: "CONFACK \<noteq> CONFREQ" "CONFNAK \<noteq> CONFREQ" "CONFREJ \<noteq> CONFREQ" "CONFNAK \<noteq> CONFACK"
      "CONFREJ \<noteq> CONFACK" "TERMREQ \<notin> {CONFREQ, CONFACK, CONFNAK, CONFREJ}"
      "TERMACK \<notin> {CONFREQ, CONFACK, CONFNAK, CONFREJ, TERMREQ}"
      "CODEREJ \<notin> {CONFREQ, CONFACK, CONFNAK, CONFREJ, TERMREQ, TERMACK}"
      by (simp_all add: code_defs)
    have "uint (join16 hi lo) < 2 ^ 16" using uint_lt2p [of "join16 hi lo"] by simp
    then have rcoderej: "follows (if szt len < HEADERLEN then None else Some RXJ_plus) s (fsm_rcoderej inp len s)"
      using assms(2) sz by (intro rcoderej_follows) (simp_all add: len pkt HEADERLEN_def)
    have plain: "follows ev s t \<Longrightarrow> follows_or_closes ev s t" for ev t
      by (simp add: follows_or_closes_def)
    have "follows_or_closes (packet_event cb code pid inp len s) s (fsm_input cb pkt l s)"
      using False sz termack dist rconfreq_follows [OF False] rconfack_follows
        rconfnakrej_follows [of code, THEN plain] term_follows [OF False, THEN plain]
        rcoderej [THEN plain] unknown [THEN plain]
      by (simp add: fsm_input_def pkt no_extcode Let_def flip: len)
        (auto simp: packet_event_def)
    then show ?thesis using Some False by (simp add: x)
  qed
qed

theorem step_follows:
  assumes "f_flags s AND OPT_SILENT = 0" "f_flags s AND OPT_RESTART = 0" "\<not> stray_event e s"
    "event_fits e"
  shows "follows_or_closes (abstract_event cb e s) s (fsm_step cb e s)"
proof (cases e)
  case (Input pkt l)
  then show ?thesis
    using assms input_follows by (simp del: abstract_event.simps(5,7))
next
  case Timeout
  then show ?thesis using timeout_follows by (simp only: follows_or_closes_def simp_thms)
qed (use assms lower_follows open_close_follows protreject_follows in
    \<open>simp_all add: follows_or_closes_def\<close>)

end

end
