(* ===== verification/Fsm_Retransmit.thy ===== *)
theory Fsm_Retransmit
  imports Fsm_Rfc
begin

text \<open>
  What fsm.c sends when the peer is silent: the retransmission of the Configure-Request until the
  counter is used up, and what a packet may do to the output buffer.
\<close>

context fsm_plain_client
begin

lemma sconfreq_rexmit:
  "f_retransmits (fsm_sconfreq cb True s) = f_retransmits s - 1"
  "f_flags (fsm_sconfreq cb True s) = f_flags s"
proof -
  have len: "\<And>g s. cilen cb = Some g \<Longrightarrow> f_retransmits (snd (g s)) = f_retransmits s"
    "\<And>g s. cilen cb = Some g \<Longrightarrow> f_flags (snd (g s)) = f_flags s"
    using quietD(4,9) [OF cilen_quiet] by simp_all
  have add: "\<And>g n s. addci cb = Some g \<Longrightarrow> f_retransmits (snd (snd (g n s))) = f_retransmits s"
    "\<And>g n s. addci cb = Some g \<Longrightarrow> f_flags (snd (snd (g n s))) = f_flags s"
    using quietD(4,9) [OF addci_quiet] by simp_all
  have sd: "f_retransmits (fsm_sdata c i d n t) = f_retransmits t" "f_flags (fsm_sdata c i d n t) = f_flags t" for c i d n t
    by (simp_all add: fsm_sdata_def Let_def)
  show "f_retransmits (fsm_sconfreq cb True s) = f_retransmits s - 1"
    "f_flags (fsm_sconfreq cb True s) = f_flags s"
    by (simp_all add: fsm_sconfreq_def Let_def TIMEOUT_def call_simps sd len add case_prod_beta split: option.split)
qed

text \<open>A state in which the automaton has \<open>n\<close> Configure-Requests left and the peer keeps silent.\<close>

definition waiting :: "nat \<Rightarrow> 'a sys \<Rightarrow> bool" where
  "waiting n s \<longleftrightarrow> f_state s \<in> {REQSENT, ACKRCVD, ACKSENT} \<and> timers s = 1
     \<and> f_retransmits s = int n \<and> f_flags s AND OPT_PASSIVE = 0"

lemma waiting_Suc:
  assumes "waiting (Suc n) s"
  shows "waiting n (fsm_step cb Timeout s) \<and> sent_codes (fsm_step cb Timeout s) = sent_codes s @ [CONFREQ]"
proof -
  define t where "t = call (retransmit cb) (UNTIMEOUT s)"
  have "f_state t = f_state s" "timers t = 0" "f_retransmits t = int (Suc n)" "f_flags t = f_flags s"
    "sent_codes t = sent_codes s"
    using assms by (simp_all add: t_def waiting_def call_simps plain_simps) (simp_all add: UNTIMEOUT_def)
  moreover have "fsm_step cb Timeout s = (let u = fsm_sconfreq cb True t
      in if f_state u = ACKRCVD then u\<lparr>f_state := REQSENT\<rparr> else u)"
    using assms by (auto simp: waiting_def fsm_timeout_def t_def Let_def) (simp_all add: UNTIMEOUT_def)
  ultimately show ?thesis
    using assms by (auto simp: waiting_def Let_def sconfreq_rexmit)
qed

lemma waiting_0:
  assumes "waiting 0 s"
  shows "f_state (fsm_step cb Timeout s) = STOPPED \<and> timers (fsm_step cb Timeout s) = 0
    \<and> sent_codes (fsm_step cb Timeout s) = sent_codes s"
proof -
  have "fsm_step cb Timeout s = call (finished cb) ((UNTIMEOUT s)\<lparr>f_state := STOPPED\<rparr>)"
    using assms by (auto simp: waiting_def fsm_timeout_def Let_def) (simp_all add: UNTIMEOUT_def)
  then show ?thesis
    using assms quietD(13) [OF quiet_calls(2)] by (simp add: plain_simps waiting_def)
qed

lemma silent_peer:
  assumes "waiting n s"
  shows "let t = fsm_run cb (replicate (Suc n) Timeout) s
    in f_state t = STOPPED \<and> timers t = 0 \<and> sent_codes t = sent_codes s @ replicate n CONFREQ"
  using assms
proof (induction n arbitrary: s)
  case 0
  then show ?case using waiting_0 [OF 0] by (simp del: fsm_step.simps)
next
  case (Suc n)
  note w = waiting_Suc [OF Suc.prems]
  show ?case
    using Suc.IH [OF w [THEN conjunct1]] w
    by (simp add: Let_def del: fsm_step.simps)
qed

text \<open>The one packet after which a timer runs in \<open>OPENED\<close>.\<close>

lemma termack_opened:
  assumes "f_state s = OPENED"
  shows "f_state (fsm_rtermack cb s) = OPENED \<and> timers (fsm_rtermack cb s) = Suc (timers s)
    \<and> sent_codes (fsm_rtermack cb s) = sent_codes s @ [CONFREQ]"
  using assms by (simp add: fsm_rtermack_def call_simps plain_simps)

end

text \<open>What \<open>fsm_sdata\<close> puts into \<open>outpacket_buf\<close>.\<close>

lemma sdata_ub:
  "ub (fsm_sdata c i d n s) \<longleftrightarrow> ub s \<or>
     (let n = (if szt n > szt (peer_mru s - HEADERLEN) then peer_mru s - HEADERLEN else n)
      in int (length d) < n \<or> \<not> outbuf_fits n)"
  by (simp add: fsm_sdata_def Let_def)

end
