(* ===== verification/Ipcp_Options.thy ===== *)
theory Ipcp_Options
  imports Fsm
begin

text \<open>
  The IPCP options of ipppd/ipcp.h and the callbacks of ipcp.c that put them on the wire and check
  the peer's Configure-Ack. \<open>LENCI\<dots>\<close>, \<open>ADDCI\<dots>\<close> and \<open>ACKCI\<dots>\<close> are the macros. \<open>ADDCI\<dots>\<close> writes its
  \<open>neg\<close> argument when the option does not fit, so it gives back the flag beside the bytes and the
  space left. Addresses are in network byte order; \<open>htonl\<close> is that of a little-endian host.
\<close>

definition CI_ADDRS :: u8 where "CI_ADDRS = 1"
definition CI_COMPRESSTYPE :: u8 where "CI_COMPRESSTYPE = 2"
definition CI_ADDR :: u8 where "CI_ADDR = 3"
definition CI_MS_DNS1 :: u8 where "CI_MS_DNS1 = 129"
definition CI_MS_WINS1 :: u8 where "CI_MS_WINS1 = 130"
definition CI_MS_DNS2 :: u8 where "CI_MS_DNS2 = 131"
definition CI_MS_WINS2 :: u8 where "CI_MS_WINS2 = 132"

lemmas ipcp_ci_defs = CI_ADDRS_def CI_COMPRESSTYPE_def CI_ADDR_def CI_MS_DNS1_def CI_MS_WINS1_def
  CI_MS_DNS2_def CI_MS_WINS2_def

definition MAX_STATES :: u8 where "MAX_STATES = 16"
definition IPCP_VJ_COMP :: u16 where "IPCP_VJ_COMP = 0x002d"
definition IPCP_VJ_COMP_OLD :: u16 where "IPCP_VJ_COMP_OLD = 0x0037"
definition PPP_IPCP :: u16 where "PPP_IPCP = 0x8021"

definition CILEN_COMPRESS :: int where "CILEN_COMPRESS = 4"
definition CILEN_VJ :: int where "CILEN_VJ = 6"
definition CILEN_ADDR :: int where "CILEN_ADDR = 6"
definition CILEN_ADDRS :: int where "CILEN_ADDRS = 10"

lemmas ipcp_cilen_defs = CILEN_COMPRESS_def CILEN_VJ_def CILEN_ADDR_def CILEN_ADDRS_def

definition htonl :: "u32 \<Rightarrow> u32" where
  "htonl l = join32 (ucast l) (ucast (drop_bit 8 l)) (ucast (drop_bit 16 l)) (ucast (drop_bit 24 l))"

definition ntohl :: "u32 \<Rightarrow> u32" where
  "ntohl l = htonl l"

lemma htonl_htonl [simp]: "htonl (htonl l) = l"
  unfolding htonl_def split_join32 by simp

lemma htonl_0 [simp]: "htonl 0 = 0"
  by (simp add: htonl_def join32_def)

lemma htonl_eq_iff: "htonl a = b \<longleftrightarrow> a = htonl b"
  by auto

section \<open>The options\<close>

record ipcp_options =
  i_neg_addr :: bool
  i_old_addrs :: bool
  i_req_addr :: bool
  i_default_route :: bool
  i_proxy_arp :: bool
  i_neg_vj :: bool
  i_old_vj :: bool
  i_accept_local :: bool
  i_accept_remote :: bool
  i_neg_dns1 :: bool
  i_neg_dns2 :: bool
  i_neg_wins1 :: bool
  i_neg_wins2 :: bool
  i_vj_protocol :: u16
  i_maxslotindex :: u8
  i_cflag :: u8
  i_ouraddr :: u32
  i_hisaddr :: u32
  i_dnsaddr0 :: u32
  i_dnsaddr1 :: u32
  i_winsaddr0 :: u32
  i_winsaddr1 :: u32

definition zero_ipcp_options :: ipcp_options where
  "zero_ipcp_options =
     \<lparr>i_neg_addr = False, i_old_addrs = False, i_req_addr = False, i_default_route = False,
      i_proxy_arp = False, i_neg_vj = False, i_old_vj = False, i_accept_local = False,
      i_accept_remote = False, i_neg_dns1 = False, i_neg_dns2 = False, i_neg_wins1 = False,
      i_neg_wins2 = False, i_vj_protocol = 0, i_maxslotindex = 0, i_cflag = 0, i_ouraddr = 0,
      i_hisaddr = 0, i_dnsaddr0 = 0, i_dnsaddr1 = 0, i_winsaddr0 = 0, i_winsaddr1 = 0\<rparr>"

text \<open>The option settings of \<open>ipcp_init\<close>.\<close>

definition ipcp_init_wantoptions :: ipcp_options where
  "ipcp_init_wantoptions = zero_ipcp_options
     \<lparr>i_neg_addr := True, i_neg_vj := True, i_old_vj := False, i_vj_protocol := IPCP_VJ_COMP,
      i_maxslotindex := MAX_STATES - 1, i_cflag := 1\<rparr>"

definition ipcp_init_allowoptions :: ipcp_options where
  "ipcp_init_allowoptions = zero_ipcp_options
     \<lparr>i_neg_addr := True, i_neg_vj := True, i_maxslotindex := MAX_STATES - 1, i_cflag := 1,
      i_proxy_arp := True, i_default_route := True\<rparr>"

section \<open>ipcp_resetci and ipcp_cilen\<close>

text \<open>The new \<open>*wo\<close>, of which \<open>*go\<close> becomes a copy.\<close>

definition ipcp_reset_wantoptions :: "ipcp_options \<Rightarrow> ipcp_options \<Rightarrow> ipcp_options" where
  "ipcp_reset_wantoptions ao wo =
     (let wo = wo\<lparr>i_req_addr := i_neg_addr wo \<and> i_neg_addr ao\<rparr>;
          wo = (if i_ouraddr wo = 0 then wo\<lparr>i_accept_local := True\<rparr> else wo)
      in if i_hisaddr wo = 0 then wo\<lparr>i_accept_remote := True\<rparr> else wo)"

definition LENCIVJ :: "bool \<Rightarrow> bool \<Rightarrow> int" where
  "LENCIVJ neg old = (if neg then (if old then CILEN_COMPRESS else CILEN_VJ) else 0)"
definition LENCIADDR :: "bool \<Rightarrow> bool \<Rightarrow> int" where
  "LENCIADDR neg old = (if neg then (if old then CILEN_ADDRS else CILEN_ADDR) else 0)"

text \<open>The change to the old forms, and the sum that \<open>ipcp_cilen\<close> returns after it.\<close>

definition ipcp_cilen_old :: "ipcp_options \<Rightarrow> ipcp_options \<Rightarrow> bool \<Rightarrow> ipcp_options \<Rightarrow> ipcp_options" where
  "ipcp_cilen_old wo ho received go =
     (let go = (if i_neg_addr wo \<and> \<not> i_neg_addr go \<and> \<not> i_old_addrs go
                then go\<lparr>i_neg_addr := True, i_old_addrs := True\<rparr> else go)
      in if i_neg_vj wo \<and> \<not> i_neg_vj go \<and> \<not> i_old_vj go
         then if \<not> received then go\<lparr>i_neg_vj := True\<rparr>
              else if i_neg_vj ho \<and> i_old_vj ho
              then go\<lparr>i_neg_vj := True, i_old_vj := True, i_vj_protocol := i_vj_protocol ho\<rparr>
              else go
         else go)"

definition ipcp_cilen_sum :: "ipcp_options \<Rightarrow> int" where
  "ipcp_cilen_sum go =
     LENCIADDR (i_neg_addr go) (i_old_addrs go) + LENCIVJ (i_neg_vj go) (i_old_vj go)
     + LENCIADDR (i_neg_dns1 go) False + LENCIADDR (i_neg_dns2 go) False
     + LENCIADDR (i_neg_wins1 go) False + LENCIADDR (i_neg_wins2 go) False"

section \<open>ipcp_addci\<close>

definition ADDCIVJ :: "u8 \<Rightarrow> bool \<Rightarrow> u16 \<Rightarrow> bool \<Rightarrow> u8 \<Rightarrow> u8 \<Rightarrow> int \<Rightarrow> u8 list \<times> bool \<times> int" where
  "ADDCIVJ opt neg val old maxslotindex cflag len =
     (if neg
      then let vjlen = (if old then CILEN_COMPRESS else CILEN_VJ)
           in if len \<ge> vjlen
              then ([opt, word_of_int vjlen] @ putshort val @ (if \<not> old then [maxslotindex, cflag] else []),
                    True, len - vjlen)
              else ([], False, len)
      else ([], False, len))"

definition ADDCIADDR :: "u8 \<Rightarrow> bool \<Rightarrow> bool \<Rightarrow> u32 \<Rightarrow> u32 \<Rightarrow> int \<Rightarrow> u8 list \<times> bool \<times> int" where
  "ADDCIADDR opt neg old val1 val2 len =
     (if neg
      then let addrlen = (if old then CILEN_ADDRS else CILEN_ADDR)
           in if len \<ge> addrlen
              then ([opt, word_of_int addrlen] @ putlong (ntohl val1) @ (if old then putlong (ntohl val2) else []),
                    True, len - addrlen)
              else ([], False, len)
      else ([], False, len))"

text \<open>The bytes put at \<open>ucp\<close>, the new \<open>*go\<close> and the new \<open>*lenp\<close>.\<close>

definition ipcp_addci :: "ipcp_options \<Rightarrow> int \<Rightarrow> u8 list \<times> ipcp_options \<times> int" where
  "ipcp_addci go lenp =
     (let (b1, n1, len) = ADDCIADDR (if i_old_addrs go then CI_ADDRS else CI_ADDR) (i_neg_addr go)
                            (i_old_addrs go) (i_ouraddr go) (i_hisaddr go) lenp;
          (b2, n2, len) = ADDCIVJ CI_COMPRESSTYPE (i_neg_vj go) (i_vj_protocol go) (i_old_vj go)
                            (i_maxslotindex go) (i_cflag go) len;
          (b3, n3, len) = ADDCIADDR CI_MS_DNS1 (i_neg_dns1 go) False (i_dnsaddr0 go) 0 len;
          (b4, n4, len) = ADDCIADDR CI_MS_DNS2 (i_neg_dns2 go) False (i_dnsaddr1 go) 0 len;
          (b5, n5, len) = ADDCIADDR CI_MS_WINS1 (i_neg_wins1 go) False (i_winsaddr0 go) 0 len;
          (b6, n6, len) = ADDCIADDR CI_MS_WINS2 (i_neg_wins2 go) False (i_winsaddr1 go) 0 len
      in (b1 @ b2 @ b3 @ b4 @ b5 @ b6,
          go\<lparr>i_neg_addr := n1, i_neg_vj := n2, i_neg_dns1 := n3, i_neg_dns2 := n4,
             i_neg_wins1 := n5, i_neg_wins2 := n6\<rparr>,
          lenp - len))"

section \<open>ipcp_ackci\<close>

fun ACKCIVJ :: "u8 \<Rightarrow> bool \<Rightarrow> u16 \<Rightarrow> bool \<Rightarrow> u8 \<Rightarrow> u8 \<Rightarrow> cursor \<Rightarrow> cursor outcome" where
  "ACKCIVJ opt neg val old maxslotindex cflag (p, len) =
     (if neg
      then let vjlen = (if old then CILEN_COMPRESS else CILEN_VJ); len = len - vjlen
           in if len < 0 then Bad
              else bindo (ack_head opt vjlen p) (\<lambda>p.
                   bindo (getshort p) (\<lambda>(cishort, p).
                     if cishort \<noteq> val then Bad
                     else if \<not> old
                     then bindo (getchar p) (\<lambda>(cimaxslotindex, p).
                            if cimaxslotindex \<noteq> maxslotindex then Bad
                            else bindo (getchar p) (\<lambda>(cicflag, p).
                                   if cicflag \<noteq> cflag then Bad else Ok (p, len)))
                     else Ok (p, len)))
      else Ok (p, len))"

fun ACKCIADDR :: "u8 \<Rightarrow> bool \<Rightarrow> bool \<Rightarrow> u32 \<Rightarrow> u32 \<Rightarrow> cursor \<Rightarrow> cursor outcome" where
  "ACKCIADDR opt neg old val1 val2 (p, len) =
     (if neg
      then let addrlen = (if old then CILEN_ADDRS else CILEN_ADDR); len = len - addrlen
           in if len < 0 then Bad
              else bindo (ack_head opt addrlen p) (\<lambda>p.
                   bindo (getlong p) (\<lambda>(l, p).
                     if val1 \<noteq> htonl l then Bad
                     else if old
                     then bindo (getlong p) (\<lambda>(l, p). if val2 \<noteq> htonl l then Bad else Ok (p, len))
                     else Ok (p, len)))
      else Ok (p, len))"

definition ipcp_ackci_steps :: "ipcp_options \<Rightarrow> (cursor \<Rightarrow> cursor outcome) list" where
  "ipcp_ackci_steps go =
     [ACKCIADDR (if i_old_addrs go then CI_ADDRS else CI_ADDR) (i_neg_addr go) (i_old_addrs go)
        (i_ouraddr go) (i_hisaddr go),
      ACKCIVJ CI_COMPRESSTYPE (i_neg_vj go) (i_vj_protocol go) (i_old_vj go) (i_maxslotindex go)
        (i_cflag go),
      ACKCIADDR CI_MS_DNS1 (i_neg_dns1 go) False (i_dnsaddr0 go) 0,
      ACKCIADDR CI_MS_DNS2 (i_neg_dns2 go) False (i_dnsaddr1 go) 0,
      ACKCIADDR CI_MS_WINS1 (i_neg_wins1 go) False (i_winsaddr0 go) 0,
      ACKCIADDR CI_MS_WINS2 (i_neg_wins2 go) False (i_winsaddr1 go) 0]"

definition ipcp_ackci :: "ipcp_options \<Rightarrow> cursor \<Rightarrow> unit outcome" where
  "ipcp_ackci go s = bindo (seqp (ipcp_ackci_steps go) s) at_end"

section \<open>The codec of the IPCP options\<close>

lemma htonl_join32: "x = htonl (join32 a b c d) \<longleftrightarrow>
    a = ucast (drop_bit 24 (htonl x)) \<and> b = ucast (drop_bit 16 (htonl x))
    \<and> c = ucast (drop_bit 8 (htonl x)) \<and> d = ucast (htonl x)"
  by (metis htonl_htonl join32_eq_iff)

lemma ack_vj [exact_intros]:
  assumes "neg \<Longrightarrow> (if old then CILEN_COMPRESS else CILEN_VJ) \<le> n"
  shows "exact (ACKCIVJ opt neg val old mx cf) (fst (ADDCIVJ opt neg val old mx cf n))"
proof (cases neg)
  case False
  then show ?thesis by (auto simp: ADDCIVJ_def exact_def within_def)
next
  case True
  have "exact (ACKCIVJ opt True val True mx cf) ([opt, 4] @ putshort val)"
    by (rule exact_fixed)
      (auto simp: ipcp_cilen_defs length_Suc_conv fixed_simps split: if_splits cong: if_cong)
  moreover have "exact (ACKCIVJ opt True val False mx cf) ([opt, 6] @ putshort val @ [mx, cf])"
    by (rule exact_fixed)
      (auto simp: ipcp_cilen_defs length_Suc_conv fixed_simps split: if_splits cong: if_cong)
  ultimately show ?thesis
    using True assms by (simp add: ADDCIVJ_def ipcp_cilen_defs)
qed

lemma ack_addr [exact_intros]:
  assumes "neg \<Longrightarrow> (if old then CILEN_ADDRS else CILEN_ADDR) \<le> n"
  shows "exact (ACKCIADDR opt neg old v1 v2) (fst (ADDCIADDR opt neg old v1 v2 n))"
proof (cases neg)
  case False
  then show ?thesis by (auto simp: ADDCIADDR_def exact_def within_def)
next
  case True
  have "exact (ACKCIADDR opt True True v1 v2) ([opt, 10] @ putlong (ntohl v1) @ putlong (ntohl v2))"
    by (rule exact_fixed)
      (auto simp: ipcp_cilen_defs length_Suc_conv fixed_simps htonl_join32 ntohl_def
        split: if_splits cong: if_cong)
  moreover have "exact (ACKCIADDR opt True False v1 v2) ([opt, 6] @ putlong (ntohl v1))"
    by (rule exact_fixed)
      (auto simp: ipcp_cilen_defs length_Suc_conv fixed_simps htonl_join32 ntohl_def
        split: if_splits cong: if_cong)
  ultimately show ?thesis
    using True assms by (simp add: ADDCIADDR_def ipcp_cilen_defs)
qed

text \<open>The options as they are sent when there is room for all of them.\<close>

definition ipcp_ci_bytes :: "ipcp_options \<Rightarrow> u8 list" where
  "ipcp_ci_bytes go = fst (ipcp_addci go (ipcp_cilen_sum go))"

lemma add_vj_fits:
  "LENCIVJ neg old \<le> n \<Longrightarrow> ADDCIVJ opt neg val old mx cf n =
     (fst (ADDCIVJ opt neg val old mx cf 6), neg, n - LENCIVJ neg old)"
  by (simp add: ADDCIVJ_def LENCIVJ_def ipcp_cilen_defs split: if_splits)

lemma add_addr_fits:
  "LENCIADDR neg old \<le> n \<Longrightarrow> ADDCIADDR opt neg old v1 v2 n =
     (fst (ADDCIADDR opt neg old v1 v2 10), neg, n - LENCIADDR neg old)"
  by (simp add: ADDCIADDR_def LENCIADDR_def ipcp_cilen_defs split: if_splits)

lemma add_lengths:
  "int (length (fst (ADDCIVJ opt neg val old mx cf 6))) = LENCIVJ neg old"
  "int (length (fst (ADDCIADDR opt neg old v1 v2 10))) = LENCIADDR neg old"
  by (simp_all add: ADDCIVJ_def ADDCIADDR_def LENCIVJ_def LENCIADDR_def ipcp_cilen_defs)

lemma lenci_nonneg: "0 \<le> LENCIVJ neg old" "0 \<le> LENCIADDR neg old"
  by (simp_all add: LENCIVJ_def LENCIADDR_def ipcp_cilen_defs)

lemma ipcp_addci_fits:
  assumes "ipcp_cilen_sum go \<le> n"
  shows "ipcp_addci go n = (concat
     [fst (ADDCIADDR (if i_old_addrs go then CI_ADDRS else CI_ADDR) (i_neg_addr go) (i_old_addrs go)
        (i_ouraddr go) (i_hisaddr go) 10),
      fst (ADDCIVJ CI_COMPRESSTYPE (i_neg_vj go) (i_vj_protocol go) (i_old_vj go) (i_maxslotindex go)
        (i_cflag go) 6),
      fst (ADDCIADDR CI_MS_DNS1 (i_neg_dns1 go) False (i_dnsaddr0 go) 0 10),
      fst (ADDCIADDR CI_MS_DNS2 (i_neg_dns2 go) False (i_dnsaddr1 go) 0 10),
      fst (ADDCIADDR CI_MS_WINS1 (i_neg_wins1 go) False (i_winsaddr0 go) 0 10),
      fst (ADDCIADDR CI_MS_WINS2 (i_neg_wins2 go) False (i_winsaddr1 go) 0 10)], go, ipcp_cilen_sum go)"
proof -
  define a where "a = LENCIADDR (i_neg_addr go) (i_old_addrs go)"
  define b where "b = LENCIVJ (i_neg_vj go) (i_old_vj go)"
  define c where "c = LENCIADDR (i_neg_dns1 go) False"
  define d where "d = LENCIADDR (i_neg_dns2 go) False"
  define e where "e = LENCIADDR (i_neg_wins1 go) False"
  define f where "f = LENCIADDR (i_neg_wins2 go) False"
  have nn: "0 \<le> a" "0 \<le> b" "0 \<le> c" "0 \<le> d" "0 \<le> e" "0 \<le> f" "a + b + c + d + e + f \<le> n"
    using assms by (simp_all add: a_def b_def c_def d_def e_def f_def lenci_nonneg ipcp_cilen_sum_def)
  then have fits: "a \<le> n" "b \<le> n - a" "c \<le> n - a - b" "d \<le> n - a - b - c" "e \<le> n - a - b - c - d"
    "f \<le> n - a - b - c - d - e" by linarith+
  show ?thesis
    unfolding ipcp_addci_def
    by (simp add: add_addr_fits [OF fits(1) [unfolded a_def]] add_vj_fits [OF fits(2) [unfolded a_def b_def]]
        add_addr_fits [OF fits(3) [unfolded a_def b_def c_def]]
        add_addr_fits [OF fits(4) [unfolded a_def b_def c_def d_def]]
        add_addr_fits [OF fits(5) [unfolded a_def b_def c_def d_def e_def]]
        add_addr_fits [OF fits(6) [unfolded a_def b_def c_def d_def e_def f_def]] ipcp_cilen_sum_def)
qed

lemma ipcp_length_addci: "int (length (ipcp_ci_bytes go)) = ipcp_cilen_sum go"
  by (simp add: ipcp_ci_bytes_def ipcp_addci_fits add_lengths)
    (simp add: ipcp_cilen_sum_def)

lemma ipcp_ackci_exact: "exact (seqp (ipcp_ackci_steps go)) (ipcp_ci_bytes go)"
  unfolding ipcp_ackci_steps_def ipcp_ci_bytes_def ipcp_addci_fits [OF order_refl] fst_conv
  by (rule exact_seqp)
    (simp add: ack_addr ack_vj ipcp_cilen_defs)

interpretation ipcp: ci_codec "\<lambda>go. True" ipcp_cilen_sum ipcp_ci_bytes ipcp_ackci
  by unfold_locales (auto simp: ipcp_length_addci ipcp_ackci_def intro: ipcp_ackci_exact)

end
