(* ===== verification/Auth_Addr.thy ===== *)
theory Auth_Addr
  imports Ipcp_Options
begin

text \<open>
  \<open>auth_ip_addr\<close> and \<open>bad_ip_adrs\<close> of auth.c: may the peer use this IP address? The list is that
  of the peer's line in the secrets file. The resolver (\<open>gethostbyname\<close>, \<open>getnetbyname\<close>,
  \<open>inet_addr\<close> of the C library) is a parameter.
\<close>

record resolver =
  host_by_name :: "string \<Rightarrow> u32 option"
  net_by_name :: "string \<Rightarrow> u32 option"
  inet_addr :: "string \<Rightarrow> u32"

text \<open>The macros of netinet/in.h, on a host-order address.\<close>

definition bad_ip_adrs :: "u32 \<Rightarrow> bool" where
  "bad_ip_adrs addr =
     (let addr = ntohl addr
      in drop_bit 24 addr = 127 \<or> addr AND 0xf0000000 = 0xe0000000 \<or> addr AND 0xf0000000 = 0xf0000000)"

text \<open>\<open>strtol(s, 0, 10)\<close> without range check: blanks, a sign, digits.\<close>

fun digits_value :: "int \<Rightarrow> string \<Rightarrow> int" where
  "digits_value n (c # s) =
     (let d = of_char c - 48 in if 0 \<le> d \<and> d \<le> 9 then digits_value (10 * n + d) s else n)"
| "digits_value n [] = n"

definition strtol10 :: "string \<Rightarrow> int" where
  "strtol10 s =
     (case dropWhile (\<lambda>c. c \<in> {CHR '' '', CHR 0x09, CHR 0x0A, CHR 0x0B, CHR 0x0C, CHR 0x0D}) s of
        c # t \<Rightarrow> if c = CHR ''-'' then - digits_value 0 t
                 else if c = CHR ''+'' then digits_value 0 t else digits_value 0 (c # t)
      | [] \<Rightarrow> 0)"

text \<open>A string ends at its first NUL.\<close>

definition c_string :: "string \<Rightarrow> string" where
  "c_string s = takeWhile (\<lambda>c. c \<noteq> CHR 0x00) s"

text \<open>
  The msk of an entry and the name in front of it. The slash is overwritten with a NUL before
  \<open>strtol\<close> reads from the same place. \<open>None\<close> is the warning and the \<open>continue\<close>.
\<close>

definition entry_mask :: "string \<Rightarrow> (string \<times> u32) option" where
  "entry_mask word =
     (if CHR ''/'' \<in> set word
      then let name = takeWhile (\<lambda>c. c \<noteq> CHR ''/'') word;
               ptr_mask = CHR 0x00 # tl (dropWhile (\<lambda>c. c \<noteq> CHR ''/'') word);
               bit_count = strtol10 (c_string ptr_mask)
           in if bit_count \<le> 0 \<or> bit_count > 32 then None
              else Some (name, NOT (push_bit (nat (32 - bit_count)) 1 - 1))
      else Some (word, 0xFFFFFFFF))"

definition entry_addr :: "resolver \<Rightarrow> string \<Rightarrow> u32 \<Rightarrow> u32 \<times> u32" where
  "entry_addr rs name msk =
     (case host_by_name rs name of
        Some a \<Rightarrow> (a, 0xFFFFFFFF)
      | None \<Rightarrow> (case net_by_name rs name of
                   Some n \<Rightarrow> (htonl n, msk)
                 | None \<Rightarrow> (inet_addr rs name, msk)))"

fun auth_scan :: "resolver \<Rightarrow> u32 \<Rightarrow> string list \<Rightarrow> bool" where
  "auth_scan rs addr [] = False"
| "auth_scan rs addr (word # addrs) =
     (if word = ''-'' then False
      else if word = ''*'' then True
      else
        let accept = (case word of c # _ \<Rightarrow> c \<noteq> CHR ''!'' | [] \<Rightarrow> True);
            ptr_word = (if accept then word else tl word)
        in case entry_mask ptr_word of
             None \<Rightarrow> auth_scan rs addr addrs
           | Some (name, msk) \<Rightarrow>
               let (a, msk) = entry_addr rs name msk
               in if a = 0xFFFFFFFF then auth_scan rs addr addrs
                  else if (addr XOR a) AND msk = 0 then accept
                  else auth_scan rs addr addrs)"

text \<open>\<open>None\<close> is \<open>lns[unit].addresses == NULL\<close>.\<close>

definition auth_ip_addr :: "resolver \<Rightarrow> string list option \<Rightarrow> u32 \<Rightarrow> bool" where
  "auth_ip_addr rs addresses addr =
     (if bad_ip_adrs addr then False
      else case addresses of None \<Rightarrow> True | Some addrs \<Rightarrow> auth_scan rs addr addrs)"

section \<open>Lists and entries\<close>

lemma entry_mask_slash: "CHR ''/'' \<in> set word \<Longrightarrow> entry_mask word = None"
  by (simp add: entry_mask_def c_string_def strtol10_def)

lemma auth_scan_slash:
  assumes "CHR ''/'' \<in> set word"
  shows "auth_scan rs addr (pre @ word # post) = auth_scan rs addr (pre @ post)"
proof (induction pre)
  case Nil
  obtain c w where w: "word = c # w" using assms by (cases word) auto
  have "CHR ''/'' \<in> set (if c = CHR ''!'' then w else word)" using assms w by auto
  then have "entry_mask (if c = CHR ''!'' then w else word) = None" by (rule entry_mask_slash)
  moreover have "word \<noteq> ''-''" "word \<noteq> ''*''" using assms by auto
  ultimately show ?case by (cases "c = CHR ''!''") (simp_all only: w auth_scan.simps append_Nil
        Let_def list.case if_False if_True option.case list.sel simp_thms refl)
next
  case (Cons v pre)
  then show ?case by (simp add: Let_def split: option.split)
qed

text \<open>A list of plain entries: the first one that names the address decides.\<close>

definition plain_entry :: "resolver \<Rightarrow> string \<Rightarrow> bool" where
  "plain_entry rs word \<longleftrightarrow> word \<noteq> ''-'' \<and> word \<noteq> ''*'' \<and> CHR ''/'' \<notin> set word"

definition names :: "resolver \<Rightarrow> u32 \<Rightarrow> string \<Rightarrow> bool" where
  "names rs addr word \<longleftrightarrow>
     (let a = fst (entry_addr rs (if take 1 word = ''!'' then tl word else word) 0xFFFFFFFF)
      in a \<noteq> 0xFFFFFFFF \<and> a = addr)"

lemma full_mask: "x AND 0xFFFFFFFF = (x :: u32)"
proof -
  have "(0xFFFFFFFF :: u32) = - 1" by simp
  then show ?thesis by (simp only: and.right_neutral)
qed

lemma entry_addr_mask: "snd (entry_addr rs w 0xFFFFFFFF) = 0xFFFFFFFF"
  by (simp add: entry_addr_def split: option.split)

lemma auth_scan_first:
  assumes "list_all (plain_entry rs) ws"
  shows "auth_scan rs addr ws \<longleftrightarrow>
    (case find (names rs addr) ws of None \<Rightarrow> False | Some w \<Rightarrow> take 1 w \<noteq> ''!'')"
  using assms
proof (induction ws)
  case (Cons w ws)
  define p where "p = (if take 1 w = ''!'' then tl w else w)"
  have acc: "(case w of c # _ \<Rightarrow> c \<noteq> CHR ''!'' | [] \<Rightarrow> True) = (take 1 w \<noteq> ''!'')"
    by (cases w) auto
  have "CHR ''/'' \<notin> set p" using Cons.prems by (cases w) (auto simp: plain_entry_def p_def)
  then have m: "entry_mask p = Some (p, 0xFFFFFFFF)" by (simp add: entry_mask_def)
  obtain a where a: "entry_addr rs p 0xFFFFFFFF = (a, 0xFFFFFFFF)"
    using entry_addr_mask [of rs p] by (cases "entry_addr rs p 0xFFFFFFFF") simp
  have x: "(addr XOR a = 0) = (a = addr)" by (auto simp: xor_self_eq bit_eq_iff bit_simps)
  have n: "names rs addr w = (a \<noteq> 0xFFFFFFFF \<and> a = addr)"
    using a unfolding names_def p_def [symmetric] by (simp add: Let_def)
  have pd: "(if take 1 w \<noteq> ''!'' then w else tl w) = p" by (simp add: p_def)
  have wd: "w \<noteq> ''-''" "w \<noteq> ''*''" using Cons.prems by (simp_all add: plain_entry_def)
  have "auth_scan rs addr (w # ws) = (if a = 0xFFFFFFFF then auth_scan rs addr ws
      else if a = addr then take 1 w \<noteq> ''!'' else auth_scan rs addr ws)"
    by (simp only: auth_scan.simps acc Let_def pd m option.case prod.case a full_mask x wd if_False)
  then show ?case using Cons n by (simp del: auth_scan.simps)
qed simp

end
