(* ===== verification/Ci_Reject.thy ===== *)
theory Ci_Reject
  imports Ci_Parser
begin

text \<open>
  Parsers of a Configure-Reject. A step looks for one option at the pointer; \<open>rejects\<close> says that
  it takes exactly the bytes of that option and clears it, or leaves everything as it is. A row
  of such steps takes a selection of the options, and what is left is the next request.

  \<open>room k\<close>: the buffer goes on for at least \<open>k\<close> bytes behind the packet.

  The locale \<open>ci_reject\<close> extends the contract of \<open>Ci_Parser\<close> by the \<open>rejci\<close> callback.
\<close>

definition room :: "nat \<Rightarrow> cursor \<Rightarrow> bool" where
  "room k s \<longleftrightarrow> 0 \<le> snd s \<and> snd s + int k \<le> int (length (fst s))"

lemma room_0: "room 0 s = within s"
  by (simp add: room_def within_def)

lemma room_within: "room k s \<Longrightarrow> within s"
  by (simp add: room_def within_def)

lemma room_drop: "room k (p, len) \<Longrightarrow> int n \<le> len \<Longrightarrow> room k (drop n p, len - int n)"
  by (auto simp: room_def)

text \<open>
  \<open>rejects k f neg e clear\<close>: the step \<open>f\<close> stays inside the packet and either leaves everything as
  it is or takes exactly the bytes \<open>e\<close> and clears its option.
\<close>

definition rejects :: "nat \<Rightarrow> ('o \<times> cursor \<Rightarrow> ('o \<times> cursor) outcome) \<Rightarrow> bool \<Rightarrow> u8 list \<Rightarrow> ('o \<Rightarrow> 'o) \<Rightarrow> bool" where
  "rejects k f neg e clear \<longleftrightarrow> (\<forall>tr p len. room k (p, len) \<longrightarrow>
     (case f (tr, p, len) of
        Undef \<Rightarrow> False
      | Bad \<Rightarrow> True
      | Ok r \<Rightarrow> r = (tr, p, len)
          \<or> neg \<and> int (length e) \<le> len \<and> take (length e) p = e
             \<and> r = (clear tr, drop (length e) p, len - int (length e))))"

lemma rejects_skip: "(\<And>s. f s = Ok s) \<Longrightarrow> rejects k f neg e clear"
  by (simp add: rejects_def)

text \<open>
  A step with a header test and a body that accepts one byte string. The test may read up to \<open>k\<close>
  bytes behind the packet.
\<close>

lemma rejects_test:
  assumes n: "int (length e) = n" "2 \<le> n" "take 2 e = [opt, word_of_int n]"
    and test: "\<And>p len. room k (p, len) \<Longrightarrow>
        \<exists>x. test (p, len) = Ok x \<and> (here x \<longrightarrow> n \<le> len \<and> take 2 p = [opt, word_of_int n])"
    and f: "\<And>tr p len. f (tr, p, len) =
        bindo (test (p, len)) (\<lambda>x. if here x then g x tr p len else Ok (tr, p, len))"
    and g: "\<And>x tr v r len. length v = length (drop 2 e) \<Longrightarrow> here x \<Longrightarrow>
        test (opt # word_of_int n # v @ r, len) = Ok x \<Longrightarrow>
        g x tr (opt # word_of_int n # v @ r) len = (if v = drop 2 e then Ok (clear tr, r, len - n) else Bad)"
    and neg: neg
  shows "rejects k f neg e clear"
  unfolding rejects_def
proof (intro allI impI)
  fix tr p len assume rm: "room k (p, len)"
  have e: "[opt, word_of_int n] @ drop 2 e = e" using n(3) by (metis append_take_drop_id)
  obtain x where h: "test (p, len) = Ok x" and hd: "here x \<Longrightarrow> n \<le> len \<and> take 2 p = [opt, word_of_int n]"
    using test [OF rm] by blast
  show "case f (tr, p, len) of Undef \<Rightarrow> False | Bad \<Rightarrow> True
      | Ok r \<Rightarrow> r = (tr, p, len) \<or> neg \<and> int (length e) \<le> len \<and> take (length e) p = e
          \<and> r = (clear tr, drop (length e) p, len - int (length e))"
  proof (cases "here x")
    case True
    note hd = hd [OF True, THEN conjunct1] hd [OF True, THEN conjunct2]
    define v where "v = take (length (drop 2 e)) (drop 2 p)"
    define r where "r = drop (length (drop 2 e)) (drop 2 p)"
    have len: "length e \<le> length p" using hd(1) rm n(1) by (auto simp: room_def)
    then have v: "length v = length (drop 2 e)" by (simp add: v_def)
    have le: "length e = 2 + length (drop 2 e)" using n(1,2) by auto
    have vr: "v @ r = drop 2 p" unfolding v_def r_def by (rule append_take_drop_id)
    have te: "take (length e) p = take 2 p @ v" unfolding le v_def by (rule take_add)
    have re: "r = drop (length e) p" by (subst le) (simp add: r_def add.commute)
    have p: "p = opt # word_of_int n # v @ r"
      using hd(2) vr by (metis append_Cons append_Nil append_take_drop_id)
    have "f (tr, p, len) = (if v = drop 2 e then Ok (clear tr, r, len - n) else Bad)"
      using True h g [OF v True, of r len tr] p by (simp add: f)
    moreover have "v = drop 2 e \<Longrightarrow> take (length e) p = e"
      using e te hd(2) by simp
    ultimately show ?thesis
      using n hd(1) neg by (auto simp flip: re)
  qed (use h f in simp)
qed

lemma rejects_body:
  assumes n: "int (length e) = n" "2 \<le> n" "n < 256" "take 2 e = [opt, word_of_int n]"
    and f: "\<And>tr p len. f (tr, p, len) =
        bindo (ci_here n opt (p, len)) (\<lambda>here. if here then g tr p len else Ok (tr, p, len))"
    and g: "\<And>tr v r len. length v = length (drop 2 e) \<Longrightarrow>
        g tr (opt # word_of_int n # v @ r) len = (if v = drop 2 e then Ok (clear tr, r, len - n) else Bad)"
    and neg: neg
  shows "rejects k f neg e clear"
proof (rule rejects_test [where test = "ci_here n opt" and here = "\<lambda>b. b" and g = "\<lambda>b. g"])
  show "\<exists>x. ci_here n opt (p, len) = Ok x \<and> (x \<longrightarrow> n \<le> len \<and> take 2 p = [opt, word_of_int n])"
    if "room k (p, len)" for p len
  proof -
    note rm = that
    obtain b where "ci_here n opt (p, len) = Ok b"
      using ci_here_defined [OF n(2) room_within [OF rm]] by blast
    then show ?thesis
      using ci_here_iff [OF room_within [OF rm] n(2,3), of opt] by auto
  qed
qed (use assms in auto)

text \<open>The steps in a row: \<open>bs\<close> says which of them have taken their option.\<close>

type_synonym 'o rej_entry = "('o \<times> cursor \<Rightarrow> ('o \<times> cursor) outcome) \<times> bool \<times> u8 list \<times> ('o \<Rightarrow> 'o)"

fun reject_with :: "bool list \<Rightarrow> 'o rej_entry list \<Rightarrow> 'o \<Rightarrow> 'o" where
  "reject_with (b # bs) ((f, neg, e, clear) # ts) tr = reject_with bs ts (if b then clear tr else tr)"
| "reject_with _ _ tr = tr"

fun taken :: "bool list \<Rightarrow> u8 list list \<Rightarrow> u8 list" where
  "taken (b # bs) (e # es) = (if b then e else []) @ taken bs es"
| "taken _ _ = []"

lemma seqp_rejects:
  assumes "list_all (\<lambda>(f, neg, e, clear). rejects k f neg e clear) ts" "room k (p, len)"
  shows "case seqp (map fst ts) (tr, p, len) of
      Undef \<Rightarrow> False
    | Bad \<Rightarrow> True
    | Ok (tr', p', len') \<Rightarrow> room k (p', len') \<and>
        (\<exists>bs. list_all2 (\<lambda>b (f, neg, e, clear). b \<longrightarrow> neg) bs ts \<and> tr' = reject_with bs ts tr
           \<and> take (nat len) p = taken bs (map (\<lambda>(f, neg, e, clear). e) ts) @ take (nat len') p')"
  using assms
proof (induction ts arbitrary: tr p len)
  case Nil
  then show ?case by simp
next
  case (Cons t ts)
  obtain f neg e clear where t: "t = (f, neg, e, clear)" by (cases t) auto
  with Cons.prems have "rejects k f neg e clear" by simp
  then have rc: "case f (tr, p, len) of Undef \<Rightarrow> False | Bad \<Rightarrow> True
      | Ok r \<Rightarrow> r = (tr, p, len) \<or> neg \<and> int (length e) \<le> len \<and> take (length e) p = e
          \<and> r = (clear tr, drop (length e) p, len - int (length e))"
    using Cons.prems(2) unfolding rejects_def by blast
  show ?case
  proof (cases "f (tr, p, len)")
    case Undef
    with rc show ?thesis by simp
  next
    case Bad
    then show ?thesis by (simp add: t)
  next
    case (Ok s)
    obtain tr1 p1 len1 where s: "s = (tr1, p1, len1)" by (cases s) auto
    obtain b where b: "b \<longrightarrow> neg" "tr1 = (if b then clear tr else tr)" "room k (p1, len1)"
      "take (nat len) p = (if b then e else []) @ take (nat len1) p1"
    proof -
      have "s = (tr, p, len) \<or> neg \<and> int (length e) \<le> len \<and> take (length e) p = e
          \<and> s = (clear tr, drop (length e) p, len - int (length e))"
        using rc Ok by simp
      then show ?thesis
      proof
        assume "s = (tr, p, len)"
        with s Cons.prems(2) show ?thesis by (intro that [of False]) auto
      next
        assume *: "neg \<and> int (length e) \<le> len \<and> take (length e) p = e
          \<and> s = (clear tr, drop (length e) p, len - int (length e))"
        then have k: "nat len = length e + (nat len - length e)" by auto
        have "take (nat len) p = e @ take (nat len - length e) (drop (length e) p)"
          using * by (subst k) (simp add: take_add)
        moreover have "nat (len - int (length e)) = nat len - length e" by auto
        ultimately show ?thesis
          using * s room_drop [OF Cons.prems(2)] by (intro that [of True]) auto
      qed
    qed
    have "list_all (\<lambda>(f, neg, e, clear). rejects k f neg e clear) ts" using Cons.prems by simp
    from Cons.IH [OF this b(3), of tr1] show ?thesis
    proof (cases "seqp (map fst ts) (tr1, p1, len1)")
      case (Ok s')
      obtain tr2 p2 len2 where s': "s' = (tr2, p2, len2)" by (cases s') auto
      with Ok Cons.IH [OF \<open>list_all _ ts\<close> b(3), of tr1] obtain bs where
        "room k (p2, len2)" "list_all2 (\<lambda>b (f, neg, e, clear). b \<longrightarrow> neg) bs ts" "tr2 = reject_with bs ts tr1"
        "take (nat len1) p1 = taken bs (map (\<lambda>(f, neg, e, clear). e) ts) @ take (nat len2) p2"
        by auto
      then show ?thesis
        using Ok b \<open>f (tr, p, len) = Ok s\<close>
        by (auto simp: t s s' intro!: exI [of _ "b # bs"])
    qed (use \<open>f (tr, p, len) = Ok s\<close> in \<open>auto simp: t s\<close>)
  qed
qed

lemma append_in_shuffles:
  "zs \<in> shuffles xs ys \<Longrightarrow> e @ zs \<in> shuffles (e @ xs) ys"
  "zs \<in> shuffles xs ys \<Longrightarrow> e @ zs \<in> shuffles xs (e @ ys)"
  by (induction e) (auto intro: Cons_in_shuffles_leftI Cons_in_shuffles_rightI)

lemma taken_shuffles:
  "length bs = length es \<Longrightarrow> concat es \<in> shuffles (taken bs es) (taken (map Not bs) es)"
  by (induction bs es rule: list_induct2) (auto intro: append_in_shuffles)

lemma map_entry_eq:
  "map (\<lambda>(f, neg, e, clear). e) ts = map (\<lambda>(f, neg, e, clear). e) us \<Longrightarrow>
   map (\<lambda>(f, neg, e, clear). neg) ts = map2 (\<lambda>b (f, neg, e, clear). neg \<and> \<not> b) bs us \<Longrightarrow>
   length bs = length us \<Longrightarrow> list_all2 (\<lambda>b (f, neg, e, clear). b \<longrightarrow> neg) bs us \<Longrightarrow>
   concat (map (\<lambda>(f, neg, e, clear). if neg then e else []) ts)
     = taken (map Not bs) (map (\<lambda>(f, neg, e, clear). if neg then e else []) us)
   \<and> taken bs (map (\<lambda>(f, neg, e, clear). if neg then e else []) us) = taken bs (map (\<lambda>(f, neg, e, clear). e) us)"
proof (induction bs us arbitrary: ts rule: list_induct2')
  case (4 b bs u us)
  then show ?case by (cases ts) auto
qed auto

section \<open>The contract with rejci\<close>

text \<open>A run of good Rejects, none of them empty, in answer to one request after the other.\<close>

fun rej_run :: "nat \<Rightarrow> ('o \<Rightarrow> cursor \<Rightarrow> 'o outcome) \<Rightarrow> 'o \<Rightarrow> cursor list \<Rightarrow> bool" where
  "rej_run slack rejci go [] = True"
| "rej_run slack rejci go ((p, len) # ps) = (room slack (p, len) \<and> 0 < len
     \<and> (case rejci go (p, len) of Ok tr \<Rightarrow> rej_run slack rejci tr ps | _ \<Rightarrow> False))"

locale ci_reject = ci_codec +
  fixes rejci :: "'a \<Rightarrow> cursor \<Rightarrow> 'a outcome"
    and slack :: nat
  assumes rejci_shuffle: "ok go \<Longrightarrow> room slack (p, len) \<Longrightarrow> rejci go (p, len) = Ok tr \<Longrightarrow>
      ok tr \<and> addci go \<in> shuffles (take (nat len) p) (addci tr)"
    and rejci_defined: "ok go \<Longrightarrow> room slack (p, len) \<Longrightarrow> rejci go (p, len) \<noteq> Undef"
begin

lemma rej_length:
  assumes "ok go" "room slack (p, len)" "rejci go (p, len) = Ok tr"
  shows "cilen tr = cilen go - len"
proof -
  have s: "ok tr" "addci go \<in> shuffles (take (nat len) p) (addci tr)"
    using rejci_shuffle [OF assms] by auto
  have "length (addci go) = length (take (nat len) p) + length (addci tr)"
    using s(2) by (rule length_shuffles)
  moreover have "length (take (nat len) p) = nat len" "0 \<le> len"
    using assms(2) by (auto simp: room_def)
  ultimately show ?thesis
    using length_addci [OF assms(1)] length_addci [OF s(1)] by simp
qed

lemma rej_run_bound: "ok go \<Longrightarrow> rej_run slack rejci go ps \<Longrightarrow> int (length ps) \<le> cilen go"
proof (induction ps arbitrary: go)
  case Nil
  then show ?case using length_addci [of go] by simp
next
  case (Cons s ps)
  obtain p len where s: "s = (p, len)" by (cases s)
  with Cons.prems obtain tr where tr: "rejci go (p, len) = Ok tr" "rej_run slack rejci tr ps"
    and rm: "room slack (p, len)" "0 < len"
    by (auto split: outcome.splits)
  have "ok tr" using rejci_shuffle [OF Cons.prems(1) rm(1) tr(1)] ..
  with Cons.IH [of tr] tr(2) rej_length [OF Cons.prems(1) rm(1) tr(1)] rm(2) show ?case by simp
qed

end

end
