(* ===== verification/Ipcp_Replies.thy ===== *)
theory Ipcp_Replies
  imports Ipcp_Options Ci_Reject
begin

text \<open>
  The peer's Configure-Reject and Configure-Nak: the parsing parts of \<open>ipcp_rejci\<close> and
  \<open>ipcp_nakci\<close>. As in the LCP theories, each macro is a function. The loop over the options the
  peer has added to a Nak does not check for a length byte of 0, so it may not end: it runs on
  fuel, and \<open>None\<close> is a loop that has not ended when the fuel is used up.
\<close>

section \<open>ipcp_rejci\<close>

type_synonym irej_state = "ipcp_options \<times> cursor"

definition REJCIADDR :: "u8 \<Rightarrow> bool \<Rightarrow> (ipcp_options \<Rightarrow> ipcp_options) \<Rightarrow> bool \<Rightarrow> u32 \<Rightarrow> u32
    \<Rightarrow> irej_state \<Rightarrow> irej_state outcome" where
  "REJCIADDR opt neg clear old val1 val2 = (\<lambda>(tr, p, len).
     if neg
     then let clen = (if old then CILEN_ADDRS else CILEN_ADDR)
          in bindo (ci_here clen opt (p, len)) (\<lambda>here.
               if here
               then bindo (getlong (drop 2 p)) (\<lambda>(l, p).
                      if htonl l \<noteq> val1 then Bad
                      else if old
                      then bindo (getlong p) (\<lambda>(l, p).
                             if htonl l \<noteq> val2 then Bad else Ok (clear tr, p, len - clen))
                      else Ok (clear tr, p, len - clen))
               else Ok (tr, p, len))
     else Ok (tr, p, len))"

text \<open>The test of \<open>REJCIVJ\<close> reads \<open>p[1]\<close> before it looks at \<open>len\<close>.\<close>

fun vj_here :: "(int \<Rightarrow> bool) \<Rightarrow> u8 \<Rightarrow> cursor \<Rightarrow> (bool \<times> int) outcome" where
  "vj_here good opt (p, len) =
     (case p of c0 # c1 # _ \<Rightarrow> Ok (good (uint c1) \<and> len \<ge> uint c1 \<and> c0 = opt, uint c1) | _ \<Rightarrow> Undef)"

definition REJCIVJ :: "u8 \<Rightarrow> bool \<Rightarrow> (ipcp_options \<Rightarrow> ipcp_options) \<Rightarrow> u16 \<Rightarrow> bool \<Rightarrow> u8 \<Rightarrow> u8
    \<Rightarrow> irej_state \<Rightarrow> irej_state outcome" where
  "REJCIVJ opt neg clear val old maxslot cflag = (\<lambda>(tr, p, len).
     if neg
     then bindo (vj_here (\<lambda>c. c = (if old then CILEN_COMPRESS else CILEN_VJ)) opt (p, len)) (\<lambda>(here, clen).
            if here
            then bindo (getshort (drop 2 p)) (\<lambda>(cishort, p).
                   if cishort \<noteq> val then Bad
                   else if \<not> old
                   then bindo (getchar p) (\<lambda>(cimaxslotindex, p).
                          if cimaxslotindex \<noteq> maxslot then Bad
                          else bindo (getchar p) (\<lambda>(ciflag, p).
                                 if ciflag \<noteq> cflag then Bad else Ok (clear tr, p, len - clen)))
                   else Ok (clear tr, p, len - clen))
            else Ok (tr, p, len))
     else Ok (tr, p, len))"

definition ipcp_rejci_steps :: "ipcp_options \<Rightarrow> (irej_state \<Rightarrow> irej_state outcome) list" where
  "ipcp_rejci_steps go =
     [REJCIADDR (if i_old_addrs go then CI_ADDRS else CI_ADDR) (i_neg_addr go)
        (i_neg_addr_update (\<lambda>_. False)) (i_old_addrs go) (i_ouraddr go) (i_hisaddr go),
      REJCIVJ CI_COMPRESSTYPE (i_neg_vj go) (i_neg_vj_update (\<lambda>_. False)) (i_vj_protocol go)
        (i_old_vj go) (i_maxslotindex go) (i_cflag go),
      REJCIADDR CI_MS_DNS1 (i_neg_dns1 go) (i_neg_dns1_update (\<lambda>_. False)) False (i_dnsaddr0 go) 0,
      REJCIADDR CI_MS_DNS2 (i_neg_dns2 go) (i_neg_dns2_update (\<lambda>_. False)) False (i_dnsaddr1 go) 0,
      REJCIADDR CI_MS_WINS1 (i_neg_wins1 go) (i_neg_wins1_update (\<lambda>_. False)) False (i_winsaddr0 go) 0,
      REJCIADDR CI_MS_WINS2 (i_neg_wins2 go) (i_neg_wins2_update (\<lambda>_. False)) False (i_winsaddr1 go) 0]"

definition ipcp_rejci_try :: "ipcp_options \<Rightarrow> cursor \<Rightarrow> ipcp_options outcome" where
  "ipcp_rejci_try go s =
     bindo (seqp (ipcp_rejci_steps go) (go, s)) (\<lambda>(tr, s). bindo (at_end s) (\<lambda>_. Ok tr))"

section \<open>ipcp_nakci\<close>

record inak_state =
  m_p :: "u8 list"
  m_len :: int
  m_no :: ipcp_options
  m_try :: ipcp_options

definition NAKCIADDR :: "u8 \<Rightarrow> bool \<Rightarrow> (ipcp_options \<Rightarrow> ipcp_options) \<Rightarrow> bool
    \<Rightarrow> (u32 \<Rightarrow> u32 \<Rightarrow> ipcp_options \<Rightarrow> ipcp_options) \<Rightarrow> inak_state \<Rightarrow> inak_state nak_result" where
  "NAKCIADDR opt neg seen old code st =
     (if neg
      then let clen = (if old then CILEN_ADDRS else CILEN_ADDR)
           in readn st (ci_here clen opt (m_p st, m_len st)) (\<lambda>here.
                if here
                then readn st (getlong (drop 2 (m_p st))) (\<lambda>(l, p).
                       let ciaddr1 = htonl l
                       in if old
                          then readn st (getlong p) (\<lambda>(l, p).
                                 NakOk (st\<lparr>m_len := m_len st - clen, m_p := p,
                                           m_no := seen ((m_no st)\<lparr>i_old_addrs := True\<rparr>),
                                           m_try := code ciaddr1 (htonl l) (m_try st)\<rparr>))
                          else NakOk (st\<lparr>m_len := m_len st - clen, m_p := p, m_no := seen (m_no st),
                                         m_try := code ciaddr1 0 (m_try st)\<rparr>))
                else NakOk st)
      else NakOk st)"

text \<open>The code given to \<open>NAKCIVJ\<close> is that of its only use.\<close>

definition nak_vj_code :: "ipcp_options \<Rightarrow> int \<Rightarrow> u16 \<Rightarrow> inak_state \<Rightarrow> inak_state nak_result" where
  "nak_vj_code go clen cishort st =
     (let tr = m_try st
      in if clen = CILEN_VJ
         then readn st (getchar (m_p st)) (\<lambda>(cimaxslotindex, p).
              readn st (getchar p) (\<lambda>(cicflag, p).
                let st = st\<lparr>m_p := p\<rparr>
                in if cishort = IPCP_VJ_COMP
                   then let tr = tr\<lparr>i_old_vj := False\<rparr>;
                            tr = (if cimaxslotindex < i_maxslotindex go
                                  then tr\<lparr>i_maxslotindex := cimaxslotindex\<rparr> else tr);
                            tr = (if cicflag = 0 then tr\<lparr>i_cflag := 0\<rparr> else tr)
                        in NakOk (st\<lparr>m_try := tr\<rparr>)
                   else NakOk (st\<lparr>m_try := tr\<lparr>i_neg_vj := False\<rparr>\<rparr>)))
         else if cishort = IPCP_VJ_COMP \<or> cishort = IPCP_VJ_COMP_OLD
         then NakOk (st\<lparr>m_try := tr\<lparr>i_old_vj := True, i_vj_protocol := cishort\<rparr>\<rparr>)
         else NakOk (st\<lparr>m_try := tr\<lparr>i_neg_vj := False\<rparr>\<rparr>))"

definition NAKCIVJ :: "u8 \<Rightarrow> ipcp_options \<Rightarrow> inak_state \<Rightarrow> inak_state nak_result" where
  "NAKCIVJ opt go st =
     (if i_neg_vj go
      then readn st (vj_here (\<lambda>c. c = CILEN_COMPRESS \<or> c = CILEN_VJ) opt (m_p st, m_len st)) (\<lambda>(here, clen).
             if here
             then readn st (getshort (drop 2 (m_p st))) (\<lambda>(cishort, p).
                    nak_vj_code go clen cishort
                      (st\<lparr>m_len := m_len st - clen, m_p := p, m_no := (m_no st)\<lparr>i_neg_vj := True\<rparr>\<rparr>))
             else NakOk st)
      else NakOk st)"

definition nak_addr_code :: "ipcp_options \<Rightarrow> u32 \<Rightarrow> u32 \<Rightarrow> ipcp_options \<Rightarrow> ipcp_options" where
  "nak_addr_code go ciaddr1 ciaddr2 tr =
     (let tr = (if i_accept_local go \<and> ciaddr1 \<noteq> 0 then tr\<lparr>i_ouraddr := ciaddr1\<rparr> else tr)
      in if i_accept_remote go \<and> ciaddr2 \<noteq> 0 then tr\<lparr>i_hisaddr := ciaddr2\<rparr> else tr)"

definition ipcp_nakci_steps :: "ipcp_options \<Rightarrow> (inak_state \<Rightarrow> inak_state nak_result) list" where
  "ipcp_nakci_steps go =
     [NAKCIADDR (if i_old_addrs go then CI_ADDRS else CI_ADDR) (i_neg_addr go)
        (i_neg_addr_update (\<lambda>_. True)) (i_old_addrs go) (nak_addr_code go),
      NAKCIVJ CI_COMPRESSTYPE go,
      NAKCIADDR CI_MS_DNS1 (i_neg_dns1 go) (i_neg_dns1_update (\<lambda>_. True)) False
        (\<lambda>a1 a2 tr. tr\<lparr>i_dnsaddr0 := a1\<rparr>),
      NAKCIADDR CI_MS_DNS2 (i_neg_dns2 go) (i_neg_dns2_update (\<lambda>_. True)) False
        (\<lambda>a1 a2 tr. tr\<lparr>i_dnsaddr1 := a1\<rparr>),
      NAKCIADDR CI_MS_WINS1 (i_neg_wins1 go) (i_neg_wins1_update (\<lambda>_. True)) False
        (\<lambda>a1 a2 tr. tr\<lparr>i_winsaddr0 := a1\<rparr>),
      NAKCIADDR CI_MS_WINS2 (i_neg_wins2 go) (i_neg_wins2_update (\<lambda>_. True)) False
        (\<lambda>a1 a2 tr. tr\<lparr>i_winsaddr1 := a1\<rparr>)]"

text \<open>The \<open>switch\<close> of the loop; \<open>m_p\<close> points behind the type and length bytes.\<close>

definition inak_extra_ci :: "ipcp_options \<Rightarrow> u8 \<Rightarrow> int \<Rightarrow> inak_state \<Rightarrow> inak_state nak_result" where
  "inak_extra_ci go citype clen st =
     (let no = m_no st; tr = m_try st
      in if citype = CI_COMPRESSTYPE
         then if i_neg_vj go \<or> i_neg_vj no \<or> clen \<noteq> CILEN_VJ \<and> clen \<noteq> CILEN_COMPRESS then NakBad st
              else NakOk (st\<lparr>m_no := no\<lparr>i_neg_vj := True\<rparr>\<rparr>)
         else if citype = CI_ADDRS
         then if i_neg_addr go \<and> i_old_addrs go \<or> i_old_addrs no \<or> clen \<noteq> CILEN_ADDRS then NakBad st
              else readn st (getlong (m_p st)) (\<lambda>(l, p).
                   readn st (getlong p) (\<lambda>(l2, p).
                     let tr = tr\<lparr>i_neg_addr := True, i_old_addrs := True\<rparr>;
                         tr = (if htonl l \<noteq> 0 \<and> i_accept_local go then tr\<lparr>i_ouraddr := htonl l\<rparr> else tr);
                         tr = (if htonl l2 \<noteq> 0 \<and> i_accept_remote go then tr\<lparr>i_hisaddr := htonl l2\<rparr> else tr)
                     in NakOk (st\<lparr>m_try := tr, m_no := no\<lparr>i_old_addrs := True\<rparr>\<rparr>)))
         else if citype = CI_ADDR
         then if i_neg_addr go \<or> i_neg_addr no \<or> clen \<noteq> CILEN_ADDR then NakBad st
              else readn st (getlong (m_p st)) (\<lambda>(l, p).
                     let tr = tr\<lparr>i_old_addrs := False\<rparr>;
                         tr = (if htonl l \<noteq> 0 \<and> i_accept_local go then tr\<lparr>i_ouraddr := htonl l\<rparr> else tr);
                         tr = (if i_ouraddr tr \<noteq> 0 then tr\<lparr>i_neg_addr := True\<rparr> else tr)
                     in NakOk (st\<lparr>m_try := tr, m_no := no\<lparr>i_neg_addr := True\<rparr>\<rparr>))
         else NakOk st)"

text \<open>\<open>next = p + cilen - 2\<close> is \<open>cilen\<close> bytes behind the start of the option, so 0 stays there.\<close>

fun ipcp_nak_extra :: "nat \<Rightarrow> ipcp_options \<Rightarrow> inak_state \<Rightarrow> inak_state nak_result option" where
  "ipcp_nak_extra 0 go st = None"
| "ipcp_nak_extra (Suc fuel) go st =
     (if m_len st > CILEN_VOID
      then case m_p st of
        citype # c1 # p \<Rightarrow>
          let clen = uint c1; len = m_len st - clen
          in if len < 0 then Some (NakBad st)
             else (case inak_extra_ci go citype clen (st\<lparr>m_len := len, m_p := p\<rparr>) of
                     NakOk st' \<Rightarrow> ipcp_nak_extra fuel go (st'\<lparr>m_p := drop (unat c1) (m_p st)\<rparr>)
                   | r \<Rightarrow> Some r)
      | _ \<Rightarrow> Some NakUndef
      else Some (NakOk st))"

definition inak_end :: "inak_state \<Rightarrow> inak_state nak_result" where
  "inak_end st = (if m_len st \<noteq> 0 then NakBad st else NakOk st)"

definition ipcp_nakci_parse :: "nat \<Rightarrow> ipcp_options \<Rightarrow> cursor \<Rightarrow> inak_state nak_result option" where
  "ipcp_nakci_parse fuel go s =
     (case seqn (ipcp_nakci_steps go)
             \<lparr>m_p = fst s, m_len = snd s, m_no = zero_ipcp_options, m_try = go\<rparr> of
        NakOk st \<Rightarrow> map_option (\<lambda>r. bindn r inak_end) (ipcp_nak_extra fuel go st)
      | r \<Rightarrow> Some r)"

section \<open>A good Reject\<close>

lemma rejects_addr:
  "rejects k (REJCIADDR opt neg clear old v1 v2) neg (fst (ADDCIADDR opt True old v1 v2 10)) clear"
proof (cases neg)
  case False
  then show ?thesis by (simp add: rejects_skip REJCIADDR_def)
next
  case True
  show ?thesis
  proof (cases old)
    case True
    with \<open>neg\<close> show ?thesis
      by (intro rejects_body [where n = 10 and opt = opt])
        (auto simp: REJCIADDR_def ADDCIADDR_def ipcp_cilen_defs length_Suc_conv fixed_simps ntohl_def
          htonl_eq_iff split: if_splits)
  next
    case False
    with \<open>neg\<close> show ?thesis
      by (intro rejects_body [where n = 6 and opt = opt])
        (auto simp: REJCIADDR_def ADDCIADDR_def ipcp_cilen_defs length_Suc_conv fixed_simps ntohl_def
          htonl_eq_iff split: if_splits)
  qed
qed

lemma vj_here_test:
  assumes "room 2 (p, len)" "n = 4 \<or> n = 6" "\<And>c. good c \<Longrightarrow> c = n"
  shows "\<exists>x. vj_here good opt (p, len) = Ok x \<and> (fst x \<longrightarrow> n \<le> len \<and> take 2 p = [opt, word_of_int n])"
proof -
  obtain c0 c1 q where "p = c0 # c1 # q"
    using assms(1) by (cases p rule: remdups_adj.cases) (auto simp: room_def)
  moreover have "uint c1 = n \<Longrightarrow> c1 = word_of_int n" by auto
  ultimately show ?thesis using assms(3) [of "uint c1"] by auto
qed

lemma rejects_vj:
  "rejects 2 (REJCIVJ opt neg clear val old mx cf) neg (fst (ADDCIVJ opt True val old mx cf 6)) clear"
proof (cases neg)
  case False
  then show ?thesis by (simp add: rejects_skip REJCIVJ_def)
next
  case True
  define n where "n = (if old then CILEN_COMPRESS else CILEN_VJ)"
  have n: "n = 4 \<or> n = 6" by (simp add: n_def ipcp_cilen_defs)
  show ?thesis
  proof (rule rejects_test [where n = n and opt = opt and test = "vj_here (\<lambda>c. c = n) opt" and here = fst])
    show "\<exists>x. vj_here (\<lambda>c. c = n) opt (p, len) = Ok x \<and> (fst x \<longrightarrow> n \<le> len \<and> take 2 p = [opt, word_of_int n])"
      if "room 2 (p, len)" for p len
      using that n by (rule vj_here_test)
    show "REJCIVJ opt neg clear val old mx cf (tr, p, len) =
      bindo (vj_here (\<lambda>c. c = n) opt (p, len)) (\<lambda>x. if fst x
        then bindo (getshort (drop 2 p)) (\<lambda>(cishort, p).
                   if cishort \<noteq> val then Bad
                   else if \<not> old
                   then bindo (getchar p) (\<lambda>(cimaxslotindex, p).
                          if cimaxslotindex \<noteq> mx then Bad
                          else bindo (getchar p) (\<lambda>(ciflag, p).
                                 if ciflag \<noteq> cf then Bad else Ok (clear tr, p, len - snd x)))
                   else Ok (clear tr, p, len - snd x))
        else Ok (tr, p, len))" for tr p len
      using True by (simp add: REJCIVJ_def n_def case_prod_unfold del: vj_here.simps cong: if_cong)
  qed (use True n in \<open>auto simp: ADDCIVJ_def n_def ipcp_cilen_defs length_Suc_conv fixed_simps split: if_splits\<close>)
qed

definition irej_table :: "ipcp_options \<Rightarrow> ipcp_options rej_entry list" where
  "irej_table go = zip (ipcp_rejci_steps go)
     [(i_neg_addr go, fst (ADDCIADDR (if i_old_addrs go then CI_ADDRS else CI_ADDR) True (i_old_addrs go)
         (i_ouraddr go) (i_hisaddr go) 10), i_neg_addr_update (\<lambda>_. False)),
      (i_neg_vj go, fst (ADDCIVJ CI_COMPRESSTYPE True (i_vj_protocol go) (i_old_vj go)
         (i_maxslotindex go) (i_cflag go) 6), i_neg_vj_update (\<lambda>_. False)),
      (i_neg_dns1 go, fst (ADDCIADDR CI_MS_DNS1 True False (i_dnsaddr0 go) 0 10), i_neg_dns1_update (\<lambda>_. False)),
      (i_neg_dns2 go, fst (ADDCIADDR CI_MS_DNS2 True False (i_dnsaddr1 go) 0 10), i_neg_dns2_update (\<lambda>_. False)),
      (i_neg_wins1 go, fst (ADDCIADDR CI_MS_WINS1 True False (i_winsaddr0 go) 0 10), i_neg_wins1_update (\<lambda>_. False)),
      (i_neg_wins2 go, fst (ADDCIADDR CI_MS_WINS2 True False (i_winsaddr1 go) 0 10), i_neg_wins2_update (\<lambda>_. False))]"

lemma irej_table_fst: "map fst (irej_table go) = ipcp_rejci_steps go"
  by (simp add: irej_table_def ipcp_rejci_steps_def)

lemma irej_table_rejects: "list_all (\<lambda>(f, neg, e, clear). rejects 2 f neg e clear) (irej_table go)"
  by (simp add: irej_table_def ipcp_rejci_steps_def rejects_addr rejects_vj)

lemma ipcp_bytes_pieces:
  "ipcp_ci_bytes go = concat (map (\<lambda>(f, neg, e, clear). if neg then e else []) (irej_table go))"
  by (simp add: ipcp_ci_bytes_def ipcp_addci_fits irej_table_def ipcp_rejci_steps_def ADDCIADDR_def ADDCIVJ_def)

lemma length_irej_table: "length (irej_table go) = 6"
  by (simp add: irej_table_def ipcp_rejci_steps_def)

lemma irej_table_reject:
  assumes "list_all2 (\<lambda>b (f, neg, e, clear). b \<longrightarrow> neg) bs (irej_table go)"
  shows "map (\<lambda>(f, neg, e, clear). neg) (irej_table (reject_with bs (irej_table go) go))
       = map2 (\<lambda>b (f, neg, e, clear). neg \<and> \<not> b) bs (irej_table go)
     \<and> map (\<lambda>(f, neg, e, clear). e) (irej_table (reject_with bs (irej_table go) go))
       = map (\<lambda>(f, neg, e, clear). e) (irej_table go)"
proof -
  have "length bs = 6" using list_all2_lengthD [OF assms] by (simp add: length_irej_table)
  then obtain a b c d e f where "bs = [a, b, c, d, e, f]"
    by (auto simp: numeral_eq_Suc length_Suc_conv)
  then show ?thesis
    using assms by (cases a; cases b) (simp_all add: irej_table_def ipcp_rejci_steps_def)
qed

theorem ipcp_rejci_shuffle:
  assumes w: "room 2 (p, len)" and r: "ipcp_rejci_try go (p, len) = Ok tr"
  shows "ipcp_ci_bytes go \<in> shuffles (take (nat len) p) (ipcp_ci_bytes tr)"
proof -
  obtain p' where s: "seqp (ipcp_rejci_steps go) (go, p, len) = Ok (tr, p', 0)"
    using r by (auto simp: ipcp_rejci_try_def bindo_Ok_iff split: if_splits)
  from seqp_rejects [OF irej_table_rejects w, where tr = go and go1 = go] obtain bs where
    bs: "list_all2 (\<lambda>b (f, neg, e, clear). b \<longrightarrow> neg) bs (irej_table go)"
    and tr: "tr = reject_with bs (irej_table go) go"
    and t: "take (nat len) p = taken bs (map (\<lambda>(f, neg, e, clear). e) (irej_table go))"
    by (auto simp: irej_table_fst s)
  have len: "length bs = length (irej_table go)" using bs by (rule list_all2_lengthD)
  note m = map_entry_eq [OF conjunct2 [OF irej_table_reject [OF bs]] conjunct1 [OF irej_table_reject [OF bs]] len bs]
  have "ipcp_ci_bytes tr = taken (map Not bs) (map (\<lambda>(f, neg, e, clear). if neg then e else []) (irej_table go))"
    "take (nat len) p = taken bs (map (\<lambda>(f, neg, e, clear). if neg then e else []) (irej_table go))"
    using m by (simp_all add: ipcp_bytes_pieces tr t)
  then show ?thesis using len by (simp add: ipcp_bytes_pieces [of go] taken_shuffles)
qed

lemma ipcp_rejci_defined: "room 2 (p, len) \<Longrightarrow> ipcp_rejci_try go (p, len) \<noteq> Undef"
  using seqp_rejects [OF irej_table_rejects, where p = p and len = len and tr = go and go1 = go]
  by (cases "seqp (ipcp_rejci_steps go) (go, p, len)")
    (auto simp: ipcp_rejci_try_def irej_table_fst split: if_splits)

interpretation ipcpr: ci_reject "\<lambda>go. True" ipcp_cilen_sum ipcp_ci_bytes ipcp_ackci ipcp_rejci_try 2
  by unfold_locales (use ipcp_rejci_shuffle ipcp_rejci_defined in auto)

section \<open>A Nak\<close>

text \<open>
  What a Nak may change: our address only with \<open>accept_local\<close>, the peer's only with
  \<open>accept_remote\<close>, and a server address only if we have asked for it. Compression is not asked
  for anew, and the slot index never grows.
\<close>

definition inak_ok :: "ipcp_options \<Rightarrow> ipcp_options \<Rightarrow> bool" where
  "inak_ok go tr \<longleftrightarrow>
     ((i_ouraddr tr = i_ouraddr go \<or> i_accept_local go)
         \<and> (i_hisaddr tr = i_hisaddr go \<or> i_accept_remote go)
         \<and> (i_neg_vj tr \<longrightarrow> i_neg_vj go) \<and> i_maxslotindex tr \<le> i_maxslotindex go
         \<and> (i_neg_addr go \<longrightarrow> i_neg_addr tr)
         \<and> i_neg_dns1 tr = i_neg_dns1 go \<and> i_neg_dns2 tr = i_neg_dns2 go
         \<and> i_neg_wins1 tr = i_neg_wins1 go \<and> i_neg_wins2 tr = i_neg_wins2 go
         \<and> (i_dnsaddr0 tr = i_dnsaddr0 go \<or> i_neg_dns1 go)
         \<and> (i_dnsaddr1 tr = i_dnsaddr1 go \<or> i_neg_dns2 go)
         \<and> (i_winsaddr0 tr = i_winsaddr0 go \<or> i_neg_wins1 go)
         \<and> (i_winsaddr1 tr = i_winsaddr1 go \<or> i_neg_wins2 go))"

definition inak_inv :: "ipcp_options \<Rightarrow> inak_state \<Rightarrow> bool" where
  "inak_inv go st \<longleftrightarrow> inak_ok go (m_try st)"

lemma inak_ok_updates:
  "inak_ok go tr \<Longrightarrow> inak_ok go (tr\<lparr>i_neg_vj := False\<rparr>)"
  "inak_ok go tr \<Longrightarrow> inak_ok go (tr\<lparr>i_old_vj := b\<rparr>)"
  "inak_ok go tr \<Longrightarrow> inak_ok go (tr\<lparr>i_old_addrs := b\<rparr>)"
  "inak_ok go tr \<Longrightarrow> inak_ok go (tr\<lparr>i_neg_addr := True\<rparr>)"
  "inak_ok go tr \<Longrightarrow> inak_ok go (tr\<lparr>i_vj_protocol := x\<rparr>)"
  "inak_ok go tr \<Longrightarrow> inak_ok go (tr\<lparr>i_cflag := y\<rparr>)"
  "inak_ok go tr \<Longrightarrow> z < i_maxslotindex go \<Longrightarrow> inak_ok go (tr\<lparr>i_maxslotindex := z\<rparr>)"
  "inak_ok go tr \<Longrightarrow> i_accept_local go \<Longrightarrow> inak_ok go (tr\<lparr>i_ouraddr := a\<rparr>)"
  "inak_ok go tr \<Longrightarrow> i_accept_remote go \<Longrightarrow> inak_ok go (tr\<lparr>i_hisaddr := a\<rparr>)"
  "inak_ok go tr \<Longrightarrow> i_neg_dns1 go \<Longrightarrow> inak_ok go (tr\<lparr>i_dnsaddr0 := a\<rparr>)"
  "inak_ok go tr \<Longrightarrow> i_neg_dns2 go \<Longrightarrow> inak_ok go (tr\<lparr>i_dnsaddr1 := a\<rparr>)"
  "inak_ok go tr \<Longrightarrow> i_neg_wins1 go \<Longrightarrow> inak_ok go (tr\<lparr>i_winsaddr0 := a\<rparr>)"
  "inak_ok go tr \<Longrightarrow> i_neg_wins2 go \<Longrightarrow> inak_ok go (tr\<lparr>i_winsaddr1 := a\<rparr>)"
  by (simp_all add: inak_ok_def)

definition inak_run :: "ipcp_options \<Rightarrow> inak_state \<Rightarrow> bool" where
  "inak_run go st \<longleftrightarrow> room 2 (m_p st, m_len st) \<and> inak_inv go st"

lemma inak_inv_frame [simp]:
  "inak_inv go (st\<lparr>m_p := p\<rparr>) = inak_inv go st"
  "inak_inv go (st\<lparr>m_len := len\<rparr>) = inak_inv go st"
  "inak_inv go (st\<lparr>m_no := no\<rparr>) = inak_inv go st"
  "inak_inv go (st\<lparr>m_len := len, m_p := p\<rparr>) = inak_inv go st"
  "inak_inv go (st\<lparr>m_len := len, m_p := p, m_no := no\<rparr>) = inak_inv go st"
  by (simp_all add: inak_inv_def)

lemma holds_nakciaddr:
  assumes code: "\<And>st a b. inak_inv go st \<Longrightarrow> neg \<Longrightarrow> inak_inv go (st\<lparr>m_try := code a b (m_try st)\<rparr>)"
  shows "holdsn (inak_run go) (inak_inv go) (NAKCIADDR opt neg seen old code)"
  unfolding holdsn_def
proof (intro allI impI)
  fix st assume run: "inak_run go st"
  define n where "n = (if old then CILEN_ADDRS else CILEN_ADDR)"
  have n: "n = (if old then 10 else 6)" by (simp add: n_def ipcp_cilen_defs)
  have w: "within (m_p st, m_len st)" and inv: "inak_inv go st"
    using run by (auto simp: inak_run_def room_within)
  obtain here where h: "ci_here n opt (m_p st, m_len st) = Ok here"
    using ci_here_defined [OF _ w, of n opt] n by (auto split: if_splits)
  show "case NAKCIADDR opt neg seen old code st of NakUndef \<Rightarrow> False | NakBad x \<Rightarrow> inak_inv go x
      | NakOk x \<Rightarrow> inak_run go x"
  proof (cases "neg \<and> here")
    case True
    then have le: "n \<le> m_len st" using ci_here_iff [OF w] h n by auto
    then have len: "nat n \<le> length (m_p st)" using w by (auto simp: within_def)
    have "4 \<le> length (drop 2 (m_p st))" using len n by (simp split: if_splits)
    then obtain l where l: "getlong (drop 2 (m_p st)) = Ok (l, drop 6 (m_p st))"
      using getlong_drop by fastforce
    have room: "room 2 (drop (nat n) (m_p st), m_len st - n)"
      using room_drop [of 2 "m_p st" "m_len st" "nat n"] run le n
      by (simp add: inak_run_def split: if_splits)
    show ?thesis
    proof (cases old)
      case False
      with True h l room code [OF inv, of "htonl l" 0] show ?thesis
        by (simp add: NAKCIADDR_def inak_run_def n_def [symmetric] n inak_inv_def ipcp_cilen_defs
            del: ci_here.simps)
    next
      case old: True
      have "4 \<le> length (drop 6 (m_p st))" using len n old by simp
      then obtain l2 where "getlong (drop 6 (m_p st)) = Ok (l2, drop 10 (m_p st))"
        using getlong_drop by fastforce
      with True old h l room code [OF inv, of "htonl l" "htonl l2"] show ?thesis
        by (simp add: NAKCIADDR_def inak_run_def n_def [symmetric] n inak_inv_def ipcp_cilen_defs
            del: ci_here.simps)
    qed
  next
    case False
    with h run show ?thesis by (auto simp: NAKCIADDR_def n_def)
  qed
qed

lemma holds_nak_vj_code:
  assumes inv: "inak_inv go st" and room: "room 2 (drop (if n = CILEN_VJ then 2 else 0) (m_p st), m_len st)"
  shows "case nak_vj_code go n x st of NakUndef \<Rightarrow> False | NakBad y \<Rightarrow> inak_inv go y | NakOk y \<Rightarrow> inak_run go y"
proof (cases "n = CILEN_VJ")
  case True
  then have "2 \<le> length (m_p st)" using room by (auto simp: room_def)
  then obtain c d q where p: "m_p st = c # d # q" by (cases "m_p st" rule: remdups_adj.cases) auto
  show ?thesis
    using True p room inv
    by (simp add: nak_vj_code_def inak_run_def inak_inv_def Let_def inak_ok_updates)
next
  case False
  then show ?thesis
    using room inv
    by (simp add: nak_vj_code_def inak_run_def inak_inv_def Let_def inak_ok_updates)
qed

lemma holds_nakcivj: "holdsn (inak_run go) (inak_inv go) (NAKCIVJ opt go)"
  unfolding holdsn_def
proof (intro allI impI)
  fix st assume run: "inak_run go st"
  then have rm: "room 2 (m_p st, m_len st)" and inv: "inak_inv go st" by (simp_all add: inak_run_def)
  then obtain c0 c1 q where p: "m_p st = c0 # c1 # q"
    by (cases "m_p st" rule: remdups_adj.cases) (auto simp: room_def)
  show "case NAKCIVJ opt go st of NakUndef \<Rightarrow> False | NakBad x \<Rightarrow> inak_inv go x | NakOk x \<Rightarrow> inak_run go x"
  proof (cases "i_neg_vj go \<and> (uint c1 = CILEN_COMPRESS \<or> uint c1 = CILEN_VJ) \<and> m_len st \<ge> uint c1 \<and> c0 = opt")
    case True
    then have n: "uint c1 = 4 \<or> uint c1 = 6" "uint c1 \<le> m_len st" by (auto simp: ipcp_cilen_defs)
    have rd: "uint c1 = 4 \<Longrightarrow> room 2 (drop 2 q, m_len st - uint c1)"
      "uint c1 = 6 \<Longrightarrow> room 2 (drop 4 q, m_len st - uint c1)"
      using room_drop [OF rm, of 4] room_drop [OF rm, of 6] n by (simp_all add: p)
    have "2 \<le> length q" using rm n by (auto simp: room_def p)
    then obtain x where x: "getshort q = Ok (x, drop 2 q)" using getshort_drop by blast
    define st' where "st' = st\<lparr>m_len := m_len st - uint c1, m_p := drop 2 q, m_no := (m_no st)\<lparr>i_neg_vj := True\<rparr>\<rparr>"
    have "room 2 (drop (if uint c1 = CILEN_VJ then 2 else 0) (m_p st'), m_len st')"
      using n(1) rd by (auto simp: st'_def ipcp_cilen_defs simp flip: numeral_2_eq_2)
    then have "case nak_vj_code go (uint c1) x st' of NakUndef \<Rightarrow> False | NakBad x \<Rightarrow> inak_inv go x | NakOk x \<Rightarrow> inak_run go x"
      using inv by (intro holds_nak_vj_code) (simp_all add: st'_def)
    moreover have "NAKCIVJ opt go st = nak_vj_code go (uint c1) x st'"
      using True x by (simp add: NAKCIVJ_def p st'_def)
    ultimately show ?thesis by (simp only:)
  next
    case False
    then have "NAKCIVJ opt go st = NakOk st" by (auto simp: NAKCIVJ_def p)
    with run show ?thesis by simp
  qed
qed

lemma holds_ipcp_steps: "holdsn (inak_run go) (inak_inv go) (seqn (ipcp_nakci_steps go))"
  by (rule holdsn_seqn)
    (auto simp: ipcp_nakci_steps_def nak_addr_code_def Let_def inak_inv_def
      intro!: holds_nakciaddr holds_nakcivj inak_ok_updates)

lemma holds_inak_extra_ci:
  assumes inv: "inak_inv go st" and len: "0 \<le> m_len st" "n \<le> 2 + int (length (m_p st))"
  shows "case inak_extra_ci go citype n st of NakUndef \<Rightarrow> False | NakBad x \<Rightarrow> inak_inv go x
    | NakOk x \<Rightarrow> m_len x = m_len st \<and> inak_inv go x"
proof (cases "citype = CI_ADDRS \<and> n = CILEN_ADDRS")
  case True
  then have l: "8 \<le> length (m_p st)" using len by (simp add: ipcp_cilen_defs)
  then obtain x where x: "getlong (m_p st) = Ok (x, drop 4 (m_p st))"
    using getlong_drop [of "m_p st"] by auto
  have "4 \<le> length (drop 4 (m_p st))" using l by simp
  then obtain y where "getlong (drop 4 (m_p st)) = Ok (y, drop 8 (m_p st))"
    using getlong_drop [of "drop 4 (m_p st)"] by auto
  with True x inv show ?thesis
    by (simp add: inak_extra_ci_def inak_inv_def Let_def ipcp_ci_defs inak_ok_updates)
next
  case no_addrs: False
  show ?thesis
  proof (cases "citype = CI_ADDR \<and> n = CILEN_ADDR")
    case True
    then have "4 \<le> length (m_p st)" using len by (simp add: ipcp_cilen_defs)
    then obtain x where "getlong (m_p st) = Ok (x, drop 4 (m_p st))"
      using getlong_drop [of "m_p st"] by auto
    with True inv show ?thesis
      by (simp add: inak_extra_ci_def inak_inv_def Let_def ipcp_ci_defs inak_ok_updates)
  next
    case False
    with no_addrs inv show ?thesis
      by (auto simp: inak_extra_ci_def inak_inv_def Let_def)
  qed
qed

lemma ipcp_nak_extra_holds:
  "inak_run go st \<Longrightarrow> ipcp_nak_extra fuel go st = Some r \<Longrightarrow>
   (case r of NakUndef \<Rightarrow> False | NakBad x \<Rightarrow> inak_inv go x | NakOk x \<Rightarrow> inak_run go x)"
proof (induction fuel arbitrary: st)
  case (Suc fuel)
  have rm: "room 2 (m_p st, m_len st)" and inv: "inak_inv go st"
    using Suc.prems(1) by (simp_all add: inak_run_def)
  obtain c0 c1 q where p: "m_p st = c0 # c1 # q"
    using rm by (cases "m_p st" rule: remdups_adj.cases) (auto simp: room_def)
  define st' where "st' = st\<lparr>m_len := m_len st - uint c1, m_p := q\<rparr>"
  show ?case
  proof (cases "m_len st > CILEN_VOID \<and> m_len st - uint c1 \<ge> 0")
    case True
    have "uint c1 \<le> 2 + int (length q)" using True rm by (simp add: room_def p)
    then have h: "case inak_extra_ci go c0 (uint c1) st' of NakUndef \<Rightarrow> False | NakBad x \<Rightarrow> inak_inv go x
      | NakOk x \<Rightarrow> m_len x = m_len st' \<and> inak_inv go x"
      using True inv by (intro holds_inak_extra_ci) (simp_all add: st'_def)
    have u: "ipcp_nak_extra (Suc fuel) go st = (case inak_extra_ci go c0 (uint c1) st' of
         NakOk x \<Rightarrow> ipcp_nak_extra fuel go (x\<lparr>m_p := drop (unat c1) (m_p st)\<rparr>) | r \<Rightarrow> Some r)"
      using True by (simp add: p st'_def Let_def)
    show ?thesis
    proof (cases "inak_extra_ci go c0 (uint c1) st'")
      case (NakOk x)
      have "room 2 (drop (unat c1) (m_p st), m_len st - int (unat c1))"
        using room_drop [OF rm, of "unat c1"] True by simp
      then have "inak_run go (x\<lparr>m_p := drop (unat c1) (m_p st)\<rparr>)"
        using h NakOk by (simp add: inak_run_def st'_def)
      with Suc.IH u NakOk Suc.prems(2) show ?thesis by simp
    next
      case (NakBad x)
      with h u Suc.prems(2) show ?thesis by (simp del: ipcp_nak_extra.simps)
    next
      case NakUndef
      with h show ?thesis by simp
    qed
  next
    case False
    with Suc.prems inv show ?thesis by (auto simp: p Let_def split: if_splits)
  qed
qed simp

text \<open>A good Nak leaves state that obeys \<open>inak_inv\<close>; no read leaves the packet and two bytes behind it.\<close>

theorem ipcp_nakci_holds:
  assumes "room 2 (p, len)" "ipcp_nakci_parse fuel go (p, len) = Some r"
  shows "case r of NakUndef \<Rightarrow> False | NakBad x \<Rightarrow> inak_inv go x
    | NakOk x \<Rightarrow> inak_inv go x \<and> m_len x = 0"
proof -
  define st where "st = \<lparr>m_p = p, m_len = len, m_no = zero_ipcp_options, m_try = go\<rparr>"
  have "inak_run go st"
    using assms(1) by (simp add: st_def inak_run_def inak_inv_def inak_ok_def)
  then have h: "case seqn (ipcp_nakci_steps go) st of NakUndef \<Rightarrow> False
      | NakBad x \<Rightarrow> inak_inv go x | NakOk x \<Rightarrow> inak_run go x"
    using holds_ipcp_steps unfolding holdsn_def by blast
  show ?thesis
  proof (cases "seqn (ipcp_nakci_steps go) st")
    case (NakOk x)
    then obtain y where y: "ipcp_nak_extra fuel go x = Some y" "r = bindn y inak_end"
      using assms(2) by (auto simp: ipcp_nakci_parse_def st_def)
    show ?thesis
      using ipcp_nak_extra_holds [OF _ y(1)] h NakOk y(2)
      by (cases y) (auto simp: inak_end_def inak_run_def)
  next
    case (NakBad x)
    with h assms(2) show ?thesis by (auto simp: ipcp_nakci_parse_def st_def)
  next
    case NakUndef
    with h show ?thesis by simp
  qed
qed

text \<open>An option with length byte 0 is read again and again.\<close>

theorem ipcp_nak_extra_stuck:
  assumes "m_p st = citype # 0 # q" "m_len st > CILEN_VOID"
    "citype \<notin> {CI_COMPRESSTYPE, CI_ADDRS, CI_ADDR}"
  shows "ipcp_nak_extra fuel go st = None"
proof (induction fuel)
  case (Suc fuel)
  have "st\<lparr>m_p := citype # 0 # q\<rparr> = st" using assms(1) by (cases st) simp
  then have "ipcp_nak_extra fuel go (st\<lparr>m_p := citype # 0 # q\<rparr>) = None"
    using Suc by (simp only:)
  with assms show ?case by (simp add: inak_extra_ci_def CILEN_VOID_def Let_def)
qed simp

text \<open>
  Without a length byte 0 the loop ends within \<open>len\<close> rounds: \<open>nonzero_lens\<close> walks over the options
  the way the loop does.
\<close>

fun nonzero_lens :: "nat \<Rightarrow> cursor \<Rightarrow> bool" where
  "nonzero_lens 0 s = True"
| "nonzero_lens (Suc n) (p, len) =
     (len > CILEN_VOID \<longrightarrow>
        (case p of c0 # c1 # q \<Rightarrow> c1 \<noteq> 0 \<and> (uint c1 \<le> len \<longrightarrow> nonzero_lens n (drop (unat c1) p, len - uint c1))
         | _ \<Rightarrow> True))"

lemma inak_extra_ci_len:
  "inak_extra_ci go citype n st = NakOk x \<Longrightarrow> m_len x = m_len st"
  by (cases "getlong (m_p st)"; cases "getlong (snd (case getlong (m_p st) of Ok y \<Rightarrow> y | _ \<Rightarrow> undefined))")
    (auto simp: inak_extra_ci_def Let_def split: if_splits)

theorem ipcp_nak_extra_ends:
  "nat (m_len st) < fuel \<Longrightarrow> nonzero_lens fuel (m_p st, m_len st) \<Longrightarrow> \<exists>r. ipcp_nak_extra fuel go st = Some r"
proof (induction fuel arbitrary: st)
  case (Suc fuel)
  show ?case
  proof (cases "m_len st > CILEN_VOID")
    case True
    show ?thesis
    proof (cases "m_p st" rule: remdups_adj.cases)
      case (3 c0 c1 q)
      have c1: "c1 \<noteq> 0" using Suc.prems(2) True 3 by simp
      then have pos: "0 < uint c1" using uint_nonnegative [of c1] by (metis le_less uint_0_iff)
      show ?thesis
      proof (cases "uint c1 \<le> m_len st")
        case le: True
        have nz: "nonzero_lens fuel (drop (unat c1) (m_p st), m_len st - uint c1)"
          using Suc.prems(2) True 3 le by simp
        have "nat (m_len st - uint c1) < fuel" using Suc.prems(1) pos le by linarith
        then have "\<exists>r. ipcp_nak_extra fuel go (x\<lparr>m_p := drop (unat c1) (m_p st)\<rparr>) = Some r"
          if "m_len x = m_len st - uint c1" for x
          using Suc.IH [of "x\<lparr>m_p := drop (unat c1) (m_p st)\<rparr>"] nz that by simp
        then show ?thesis
          using True 3 le by (auto simp: Let_def dest!: inak_extra_ci_len split: nak_result.split)
      qed (use True 3 in simp)
    qed (use True in simp_all)
  qed simp
qed simp

end
