(* ===== verification/Ci_Request.thy ===== *)
theory Ci_Request
  imports Ci_Parser "HOL-Library.Sublist"
begin

text \<open>
  What the answers to a Configure-Request have in common: options are moved to the front of the
  input buffer, and options on the wire carry their own length.
\<close>

text \<open>\<open>BCOPY(src, dst, n)\<close> with \<open>src\<close> and \<open>dst\<close> as offsets into one buffer.\<close>

definition copy_within :: "nat \<Rightarrow> nat \<Rightarrow> nat \<Rightarrow> u8 list \<Rightarrow> u8 list" where
  "copy_within src dst n buf = take dst buf @ take n (drop src buf) @ drop (dst + n) buf"

text \<open>One option on the wire: type, length of the whole option, data.\<close>

definition is_ci :: "u8 list \<Rightarrow> bool" where
  "is_ci c \<longleftrightarrow> 2 \<le> length c \<and> uint (c ! 1) = int (length c)"

lemma copy_within_parts:
  assumes "dst + n \<le> length buf" "src + n \<le> length buf"
  shows "take (dst + n) (copy_within src dst n buf) = take dst buf @ take n (drop src buf)"
    and "length (copy_within src dst n buf) = length buf"
    and "dst + n \<le> k \<Longrightarrow> drop k (copy_within src dst n buf) = drop k buf"
proof -
  have len: "length (take dst buf) = dst" "length (take n (drop src buf)) = n" using assms by auto
  then show "take (dst + n) (copy_within src dst n buf) = take dst buf @ take n (drop src buf)"
    unfolding copy_within_def append_assoc [symmetric] by simp
  show "length (copy_within src dst n buf) = length buf"
    using len assms by (simp only: copy_within_def length_append length_drop)
  show "drop k (copy_within src dst n buf) = drop k buf" if "dst + n \<le> k"
  proof -
    have "length (take dst buf @ take n (drop src buf)) = dst + n" using len by simp
    then show ?thesis
      unfolding copy_within_def append_assoc [symmetric] drop_append using that by simp
  qed
qed

end
