(* ===== verification/Ipcp_Requests.thy ===== *)
theory Ipcp_Requests
  imports Ipcp_Options Ci_Request
begin

text \<open>
  The peer's Configure-Request: \<open>ipcp_reqci\<close>. Here the values we disagree with are overwritten in
  the input buffer, and the options of the answer are moved to its front, at \<open>ucp\<close>. The cases of
  the \<open>switch\<close> are given the bytes behind the type and length of the option, and give \<open>orc\<close>, these
  bytes as they are then, and the new \<open>*ho\<close>, \<open>*wo\<close> and \<open>*go\<close>.
\<close>

type_synonym ipcp_verdict = "u8 \<times> u8 list \<times> ipcp_options \<times> ipcp_options \<times> ipcp_options"

section \<open>The options one by one\<close>

definition ipcp_req_addrs :: "bool \<Rightarrow> ipcp_options \<Rightarrow> int \<Rightarrow> u8 list
    \<Rightarrow> ipcp_options \<Rightarrow> ipcp_options \<Rightarrow> ipcp_options \<Rightarrow> ipcp_verdict outcome" where
  "ipcp_req_addrs rid ao clen p0 ho wo go =
     (if \<not> i_neg_addr ao \<or> clen \<noteq> CILEN_ADDRS then Ok (CONFREJ, p0, ho, wo, go)
      else bindo (getlong p0) (\<lambda>(l, p).
        let ciaddr1 = htonl l; b1 = take 4 p0; orc = CONFACK;
            nak1 = (ciaddr1 \<noteq> i_hisaddr wo \<and> (ciaddr1 = 0 \<or> \<not> i_accept_remote wo));
            b1 = (if nak1 \<and> \<not> rid then putlong (ntohl (i_hisaddr wo)) else b1);
            orc = (if nak1 then CONFNAK else orc)
        in if \<not> nak1 \<and> ciaddr1 = 0 \<and> i_hisaddr wo = 0
           then Ok (CONFREJ, p0, ho, wo\<lparr>i_req_addr := False\<rparr>, go)
           else bindo (getlong p) (\<lambda>(l, q).
             let ciaddr2 = htonl l; b2 = take 4 p;
                 differ = (ciaddr2 \<noteq> i_ouraddr wo);
                 nak2 = (differ \<and> (ciaddr2 = 0 \<or> \<not> i_accept_local wo));
                 b2 = (if nak2 \<and> \<not> rid then putlong (ntohl (i_ouraddr wo)) else b2);
                 orc = (if nak2 then CONFNAK else orc);
                 go = (if differ \<and> \<not> nak2 then go\<lparr>i_ouraddr := ciaddr2\<rparr> else go)
             in Ok (orc, b1 @ b2 @ q,
                    ho\<lparr>i_neg_addr := True, i_old_addrs := True, i_hisaddr := ciaddr1, i_ouraddr := ciaddr2\<rparr>,
                    wo, go))))"

definition ipcp_req_addr :: "bool \<Rightarrow> ipcp_options \<Rightarrow> int \<Rightarrow> u8 list
    \<Rightarrow> ipcp_options \<Rightarrow> ipcp_options \<Rightarrow> ipcp_options \<Rightarrow> ipcp_verdict outcome" where
  "ipcp_req_addr rid ao clen p0 ho wo go =
     (if \<not> i_neg_addr ao \<or> clen \<noteq> CILEN_ADDR then Ok (CONFREJ, p0, ho, wo, go)
      else bindo (getlong p0) (\<lambda>(l, p).
        let ciaddr1 = htonl l;
            nak = (ciaddr1 \<noteq> i_hisaddr wo \<and> (ciaddr1 = 0 \<or> \<not> i_accept_remote wo))
        in if \<not> nak \<and> ciaddr1 = 0 \<and> i_hisaddr wo = 0
           then Ok (CONFREJ, p0, ho, wo\<lparr>i_req_addr := False\<rparr>, go)
           else Ok (if nak then CONFNAK else CONFACK,
                    (if nak \<and> \<not> rid then putlong (ntohl (i_hisaddr wo)) else take 4 p0) @ p,
                    ho\<lparr>i_neg_addr := True, i_hisaddr := ciaddr1\<rparr>, wo, go)))"

text \<open>
  The cases of the name servers, which differ only in the address they look at. It is written
  whether or not \<open>reject_if_disagree\<close> is set.
\<close>

definition ipcp_req_server :: "u32 \<Rightarrow> int \<Rightarrow> u8 list
    \<Rightarrow> ipcp_options \<Rightarrow> ipcp_options \<Rightarrow> ipcp_options \<Rightarrow> ipcp_verdict outcome" where
  "ipcp_req_server addr clen p0 ho wo go =
     (if addr = 0 \<or> clen \<noteq> CILEN_ADDR then Ok (CONFREJ, p0, ho, wo, go)
      else bindo (getlong p0) (\<lambda>(l, p).
        if htonl l \<noteq> addr then Ok (CONFNAK, putlong (ntohl addr) @ p, ho, wo, go)
        else Ok (CONFACK, p0, ho, wo, go)))"

definition ipcp_req_compress :: "bool \<Rightarrow> ipcp_options \<Rightarrow> int \<Rightarrow> u8 list
    \<Rightarrow> ipcp_options \<Rightarrow> ipcp_options \<Rightarrow> ipcp_options \<Rightarrow> ipcp_verdict outcome" where
  "ipcp_req_compress rid ao clen p0 ho wo go =
     (if \<not> i_neg_vj ao \<or> clen \<noteq> CILEN_VJ \<and> clen \<noteq> CILEN_COMPRESS then Ok (CONFREJ, p0, ho, wo, go)
      else bindo (getshort p0) (\<lambda>(cishort, p).
        if \<not> (cishort = IPCP_VJ_COMP \<or> cishort = IPCP_VJ_COMP_OLD \<and> clen = CILEN_COMPRESS)
        then Ok (CONFREJ, p0, ho, wo, go)
        else
          let ho = ho\<lparr>i_neg_vj := True, i_vj_protocol := cishort\<rparr>
          in if clen = CILEN_VJ
             then bindo (getchar p) (\<lambda>(maxslotindex, p). bindo (getchar p) (\<lambda>(cflag, p).
               let nak1 = (maxslotindex > i_maxslotindex ao);
                   nak2 = (cflag \<noteq> 0 \<and> i_cflag ao = 0);
                   b1 = (if nak1 \<and> \<not> rid then i_maxslotindex ao else maxslotindex);
                   b2 = (if nak2 \<and> \<not> rid then i_cflag wo else cflag)
               in Ok (if nak1 \<or> nak2 then CONFNAK else CONFACK, take 2 p0 @ [b1, b2] @ p,
                      ho\<lparr>i_maxslotindex := maxslotindex, i_cflag := cflag\<rparr>, wo, go)))
             else Ok (CONFACK, p0, ho\<lparr>i_old_vj := True, i_maxslotindex := MAX_STATES - 1, i_cflag := 1\<rparr>,
                      wo, go)))"

definition ipcp_req_ci :: "bool \<Rightarrow> ipcp_options \<Rightarrow> u8 \<Rightarrow> int \<Rightarrow> u8 list
    \<Rightarrow> ipcp_options \<Rightarrow> ipcp_options \<Rightarrow> ipcp_options \<Rightarrow> ipcp_verdict outcome" where
  "ipcp_req_ci rid ao citype clen p ho wo go =
     (if citype = CI_ADDRS then ipcp_req_addrs rid ao clen p ho wo go
      else if citype = CI_ADDR then ipcp_req_addr rid ao clen p ho wo go
      else if citype = CI_MS_DNS1 then ipcp_req_server (i_dnsaddr0 ao) clen p ho wo go
      else if citype = CI_MS_DNS2 then ipcp_req_server (i_dnsaddr1 ao) clen p ho wo go
      else if citype = CI_MS_WINS1 then ipcp_req_server (i_winsaddr0 ao) clen p ho wo go
      else if citype = CI_MS_WINS2 then ipcp_req_server (i_winsaddr1 ao) clen p ho wo go
      else if citype = CI_COMPRESSTYPE then ipcp_req_compress rid ao clen p ho wo go
      else Ok (CONFREJ, p, ho, wo, go))"

section \<open>The loop over the options\<close>

record ipcp_req =
  q_buf :: "u8 list"
  q_next :: nat
  q_ucp :: nat
  q_l :: int
  q_rc :: u8
  q_ho :: ipcp_options
  q_wo :: ipcp_options
  q_go :: ipcp_options

text \<open>The part behind \<open>endswitch\<close>.\<close>

definition ipcp_req_move :: "nat \<Rightarrow> nat \<Rightarrow> ipcp_req \<Rightarrow> ipcp_req outcome" where
  "ipcp_req_move cip n st =
     (if q_ucp st \<noteq> cip
      then if length (q_buf st) < cip + n \<or> length (q_buf st) < q_ucp st + n then Undef
           else Ok (st\<lparr>q_buf := copy_within cip (q_ucp st) n (q_buf st), q_ucp := q_ucp st + n\<rparr>)
      else Ok (st\<lparr>q_ucp := q_ucp st + n\<rparr>))"

definition ipcp_req_answer :: "bool \<Rightarrow> u8 \<Rightarrow> nat \<Rightarrow> nat \<Rightarrow> ipcp_req \<Rightarrow> ipcp_req outcome" where
  "ipcp_req_answer reject_if_disagree orc cip clen st =
     (if orc = CONFACK \<and> q_rc st \<noteq> CONFACK then Ok st
      else if orc = CONFNAK \<and> \<not> reject_if_disagree \<and> q_rc st = CONFREJ then Ok st
      else
        let orc' = (if orc = CONFNAK \<and> reject_if_disagree then CONFREJ else orc);
            st = (if orc' = CONFNAK \<and> q_rc st = CONFACK then st\<lparr>q_rc := CONFNAK, q_ucp := 0\<rparr> else st);
            st = (if orc' = CONFREJ \<and> q_rc st \<noteq> CONFREJ then st\<lparr>q_rc := CONFREJ, q_ucp := 0\<rparr> else st)
        in ipcp_req_move cip clen st)"

text \<open>One turn. \<open>cilen\<close> is an \<open>u_short\<close>.\<close>

definition ipcp_req_step :: "ipcp_options \<Rightarrow> bool \<Rightarrow> ipcp_req \<Rightarrow> ipcp_req outcome" where
  "ipcp_req_step ao reject_if_disagree st =
     (let cip = q_next st; l = q_l st
      in case (if l < 2 then Ok None
               else case drop cip (q_buf st) of
                   citype # c1 # p \<Rightarrow> Ok (if uint c1 < 2 \<or> uint c1 > l then None else Some (citype, c1, p))
                 | _ \<Rightarrow> Undef) of
           Undef \<Rightarrow> Undef
         | Bad \<Rightarrow> Bad
         | Ok None \<Rightarrow>
             ipcp_req_answer reject_if_disagree CONFREJ cip (unat (word_of_int l :: u16)) (st\<lparr>q_l := 0\<rparr>)
         | Ok (Some (citype, c1, p)) \<Rightarrow>
             bindo (ipcp_req_ci reject_if_disagree ao citype (uint c1) p (q_ho st) (q_wo st) (q_go st))
               (\<lambda>(orc, p, ho, wo, go).
                  ipcp_req_answer reject_if_disagree orc cip (unat c1)
                    (st\<lparr>q_l := l - uint c1, q_next := cip + unat c1,
                        q_buf := take cip (q_buf st) @ [citype, c1] @ p,
                        q_ho := ho, q_wo := wo, q_go := go\<rparr>)))"

lemma ireq_answer_l: "ipcp_req_answer rid orc cip n st = Ok st' \<Longrightarrow> q_l st' = q_l st"
  by (auto simp: ipcp_req_answer_def ipcp_req_move_def Let_def split: if_splits)

lemma ipcp_req_step_l:
  "q_l st \<noteq> 0 \<Longrightarrow> ipcp_req_step ao rid st = Ok st' \<Longrightarrow> nat \<bar>q_l st'\<bar> < nat \<bar>q_l st\<bar>"
  by (auto simp: ipcp_req_step_def Let_def bindo_Ok_iff dest!: ireq_answer_l
      split: if_splits list.splits)

function ipcp_req_loop :: "ipcp_options \<Rightarrow> bool \<Rightarrow> ipcp_req \<Rightarrow> ipcp_req outcome" where
  "ipcp_req_loop ao rid st =
     (if q_l st = 0 then Ok st
      else bindo (ipcp_req_step ao rid st) (ipcp_req_loop ao rid))"
  by pat_completeness auto
termination
  by (relation "measure (\<lambda>(ao, rid, st). nat \<bar>q_l st\<bar>)") (auto dest: ipcp_req_step_l)

declare ipcp_req_loop.simps [simp del]

section \<open>The answer\<close>

text \<open>The \<open>CI_ADDR\<close> option appended when the peer has not asked for an address.\<close>

definition ipcp_req_append :: "bool \<Rightarrow> ipcp_req \<Rightarrow> ipcp_req outcome" where
  "ipcp_req_append reject_if_disagree st =
     (if q_rc st \<noteq> CONFREJ \<and> \<not> i_neg_addr (q_ho st) \<and> i_req_addr (q_wo st) \<and> \<not> reject_if_disagree
      then let st = (if q_rc st = CONFACK
                     then st\<lparr>q_rc := CONFNAK, q_ucp := 0, q_wo := (q_wo st)\<lparr>i_req_addr := False\<rparr>\<rparr>
                     else st);
               ci = [CI_ADDR, word_of_int CILEN_ADDR] @ putlong (ntohl (i_hisaddr (q_wo st)))
           in if length (q_buf st) < q_ucp st + length ci then Undef
              else Ok (st\<lparr>q_buf := take (q_ucp st) (q_buf st) @ ci @ drop (q_ucp st + length ci) (q_buf st),
                          q_ucp := q_ucp st + length ci\<rparr>)
      else Ok st)"

text \<open>The locals when \<open>ipcp_reqci\<close> returns: \<open>q_rc\<close> is its value and \<open>q_ucp\<close> is \<open>*len\<close>.\<close>

definition ipcp_req_start :: "ipcp_options \<Rightarrow> ipcp_options \<Rightarrow> u8 list \<Rightarrow> int \<Rightarrow> ipcp_req" where
  "ipcp_req_start wo go inp len =
     \<lparr>q_buf = inp, q_next = 0, q_ucp = 0, q_l = len, q_rc = CONFACK,
      q_ho = zero_ipcp_options, q_wo = wo, q_go = go\<rparr>"

definition ipcp_reqci :: "ipcp_options \<Rightarrow> ipcp_options \<Rightarrow> ipcp_options \<Rightarrow> u8 list \<Rightarrow> int \<Rightarrow> bool
    \<Rightarrow> ipcp_req outcome" where
  "ipcp_reqci ao wo go inp len reject_if_disagree =
     bindo (ipcp_req_loop ao reject_if_disagree (ipcp_req_start wo go inp len))
       (ipcp_req_append reject_if_disagree)"

section \<open>What the cases of the switch promise\<close>

text \<open>
  The options \<open>ho\<close> the peer may be granted: an address that is ours to give or that we accept, never
  0.0.0.0, and compression with no more slots than we have.
\<close>

definition granted_addr :: "ipcp_options \<Rightarrow> ipcp_options \<Rightarrow> ipcp_options \<Rightarrow> bool" where
  "granted_addr ao wo ho \<longleftrightarrow>
     (i_neg_addr ho \<longrightarrow> i_neg_addr ao \<and> i_hisaddr ho \<noteq> 0 \<and> (i_hisaddr ho = i_hisaddr wo \<or> i_accept_remote wo))
     \<and> (i_old_addrs ho \<longrightarrow> i_neg_addr ho \<and> (i_ouraddr ho = i_ouraddr wo \<or> i_ouraddr ho \<noteq> 0 \<and> i_accept_local wo))"

definition granted_vj :: "ipcp_options \<Rightarrow> ipcp_options \<Rightarrow> bool" where
  "granted_vj ao ho \<longleftrightarrow>
     (i_neg_vj ho \<longrightarrow> i_neg_vj ao)
     \<and> (i_old_vj ho \<longrightarrow> i_neg_vj ho \<and> i_vj_protocol ho \<in> {IPCP_VJ_COMP, IPCP_VJ_COMP_OLD})
     \<and> (i_neg_vj ho \<and> \<not> i_old_vj ho \<longrightarrow> i_vj_protocol ho = IPCP_VJ_COMP
          \<and> i_maxslotindex ho \<le> i_maxslotindex ao \<and> (i_cflag ho \<noteq> 0 \<longrightarrow> i_cflag ao \<noteq> 0))"

definition ipcp_granted :: "ipcp_options \<Rightarrow> ipcp_options \<Rightarrow> ipcp_options \<Rightarrow> bool" where
  "ipcp_granted ao wo ho \<longleftrightarrow> granted_addr ao wo ho \<and> granted_vj ao ho"

definition no_servers :: "ipcp_options \<Rightarrow> bool" where
  "no_servers ao \<longleftrightarrow> i_dnsaddr0 ao = 0 \<and> i_dnsaddr1 ao = 0 \<and> i_winsaddr0 ao = 0 \<and> i_winsaddr1 ao = 0"

definition wo_kept :: "ipcp_options \<Rightarrow> ipcp_options \<Rightarrow> bool" where
  "wo_kept wo wo' \<longleftrightarrow> wo' = wo \<or> wo' = wo\<lparr>i_req_addr := False\<rparr>"

definition go_kept :: "ipcp_options \<Rightarrow> ipcp_options \<Rightarrow> ipcp_options \<Rightarrow> bool" where
  "go_kept wo go go' \<longleftrightarrow> go' = go \<or> i_accept_local wo \<and> (\<exists>a. a \<noteq> 0 \<and> go' = go\<lparr>i_ouraddr := a\<rparr>)"

definition iverdict_ok :: "bool \<Rightarrow> ipcp_options \<Rightarrow> int \<Rightarrow> u8 list
    \<Rightarrow> ipcp_options \<Rightarrow> ipcp_options \<Rightarrow> ipcp_options \<Rightarrow> ipcp_verdict \<Rightarrow> bool" where
  "iverdict_ok rid ao clen p ho wo go = (\<lambda>(orc, p', ho', wo', go').
     orc \<in> {CONFACK, CONFNAK, CONFREJ}
     \<and> length p' = length p \<and> drop (nat (clen - 2)) p' = drop (nat (clen - 2)) p
     \<and> (orc \<noteq> CONFNAK \<longrightarrow> p' = p) \<and> (rid \<longrightarrow> no_servers ao \<longrightarrow> p' = p)
     \<and> wo_kept wo wo' \<and> go_kept wo go go'
     \<and> (orc = CONFACK \<longrightarrow> ipcp_granted ao wo ho \<longrightarrow> ipcp_granted ao wo ho'))"

lemma kept_refl [simp]: "wo_kept wo wo" "go_kept wo go go" "wo_kept wo (wo\<lparr>i_req_addr := False\<rparr>)"
  by (simp_all add: wo_kept_def go_kept_def)

lemma go_kept_set: "i_accept_local wo \<Longrightarrow> a \<noteq> 0 \<Longrightarrow> go_kept wo go (go\<lparr>i_ouraddr := a\<rparr>)"
  by (auto simp: go_kept_def)

lemma granted_addr_vj [simp]:
  "granted_vj ao (ho\<lparr>i_neg_addr := a, i_hisaddr := x\<rparr>) = granted_vj ao ho"
  "granted_vj ao (ho\<lparr>i_neg_addr := a, i_old_addrs := b, i_hisaddr := x, i_ouraddr := y\<rparr>) = granted_vj ao ho"
  "granted_addr ao wo (ho\<lparr>i_neg_vj := c, i_vj_protocol := v, i_maxslotindex := m, i_cflag := f\<rparr>) = granted_addr ao wo ho"
  "granted_addr ao wo (ho\<lparr>i_neg_vj := c, i_vj_protocol := v, i_old_vj := d, i_maxslotindex := m, i_cflag := f\<rparr>)
     = granted_addr ao wo ho"
  by (simp_all add: granted_addr_def granted_vj_def)

lemma igrant_addr:
  "i_neg_addr ao \<Longrightarrow> a \<noteq> 0 \<Longrightarrow> a = i_hisaddr wo \<or> i_accept_remote wo \<Longrightarrow> ipcp_granted ao wo ho \<Longrightarrow>
   ipcp_granted ao wo (ho\<lparr>i_neg_addr := True, i_hisaddr := a\<rparr>)"
  by (auto simp: ipcp_granted_def granted_addr_def [of _ _ "_ \<lparr>i_hisaddr := _\<rparr>"] granted_addr_def [of _ _ ho])

lemma igrant_addrs:
  "i_neg_addr ao \<Longrightarrow> a \<noteq> 0 \<Longrightarrow> a = i_hisaddr wo \<or> i_accept_remote wo \<Longrightarrow>
   b = i_ouraddr wo \<or> b \<noteq> 0 \<and> i_accept_local wo \<Longrightarrow> ipcp_granted ao wo ho \<Longrightarrow>
   ipcp_granted ao wo (ho\<lparr>i_neg_addr := True, i_old_addrs := True, i_hisaddr := a, i_ouraddr := b\<rparr>)"
  by (auto simp: ipcp_granted_def granted_addr_def)

lemma igrant_vj:
  assumes "i_neg_vj ao" "ipcp_granted ao wo ho"
  shows "x \<le> i_maxslotindex ao \<Longrightarrow> y \<noteq> 0 \<longrightarrow> i_cflag ao \<noteq> 0 \<Longrightarrow>
     ipcp_granted ao wo (ho\<lparr>i_neg_vj := True, i_vj_protocol := IPCP_VJ_COMP, i_maxslotindex := x, i_cflag := y\<rparr>)"
   and "v = IPCP_VJ_COMP \<or> v = IPCP_VJ_COMP_OLD \<Longrightarrow>
     ipcp_granted ao wo (ho\<lparr>i_neg_vj := True, i_vj_protocol := v, i_old_vj := True, i_maxslotindex := m, i_cflag := z\<rparr>)"
  using assms by (auto simp: ipcp_granted_def granted_vj_def)

text \<open>The bytes of the option behind an address that is read and perhaps overwritten.\<close>

lemma written_back:
  assumes "getlong p = Ok (l, q)"
  shows "length ((if b then putlong x else take 4 p) @ q) = length p"
    "drop 4 ((if b then putlong x else take 4 p) @ q) = drop 4 p"
    "\<not> b \<Longrightarrow> (if b then putlong x else take 4 p) @ q = p"
    "length (putlong x @ q) = length p" "drop 4 (putlong x @ q) = drop 4 p"
  using getlong_split [OF assms] by auto

lemma ireq_reject_ok: "wo_kept wo wo' \<Longrightarrow> iverdict_ok rid ao clen p ho wo go (CONFREJ, p, ho, wo', go)"
  by (simp add: iverdict_ok_def code_defs)

lemma iverdict_okI:
  "nat (clen - 2) = n \<Longrightarrow> length p' = length p \<Longrightarrow> drop n p' = drop n p \<Longrightarrow> orc \<in> {CONFACK, CONFNAK} \<Longrightarrow>
   (orc = CONFACK \<or> rid \<and> no_servers ao \<Longrightarrow> p' = p) \<Longrightarrow> wo_kept wo wo' \<Longrightarrow> go_kept wo go go' \<Longrightarrow>
   (orc = CONFACK \<Longrightarrow> ipcp_granted ao wo ho \<Longrightarrow> ipcp_granted ao wo ho') \<Longrightarrow>
   iverdict_ok rid ao clen p ho wo go (orc, p', ho', wo', go')"
  by (auto simp: iverdict_ok_def code_defs)

lemma ireq_addr_ok:
  assumes "ipcp_req_addr rid ao clen p ho wo go = Ok v"
  shows "iverdict_ok rid ao clen p ho wo go v"
proof (cases "i_neg_addr ao \<and> clen = CILEN_ADDR")
  case True
  then obtain l q where l: "getlong p = Ok (l, q)"
    using assms by (auto simp: ipcp_req_addr_def bindo_Ok_iff)
  define nak where "nak = (htonl l \<noteq> i_hisaddr wo \<and> (htonl l = 0 \<or> \<not> i_accept_remote wo))"
  show ?thesis
  proof (cases "\<not> nak \<and> htonl l = 0 \<and> i_hisaddr wo = 0")
    case t: True
    then show ?thesis
      using assms True l by (auto simp: ipcp_req_addr_def Let_def nak_def intro!: ireq_reject_ok)
  next
    case False
    then have "v = (if nak then CONFNAK else CONFACK,
        (if nak \<and> \<not> rid then putlong (ntohl (i_hisaddr wo)) else take 4 p) @ q,
        ho\<lparr>i_neg_addr := True, i_hisaddr := htonl l\<rparr>, wo, go)"
      using assms True l by (auto simp: ipcp_req_addr_def Let_def nak_def)
    moreover have "iverdict_ok rid ao clen p ho wo go \<dots>"
      by (rule iverdict_okI [where n = 4])
        (use True False written_back [OF l] in
          \<open>auto simp: ipcp_cilen_defs code_defs nak_def simp del: append_take_drop_id intro!: igrant_addr split: if_splits\<close>)
    ultimately show ?thesis by (simp only:)
  qed
next
  case False
  with assms show ?thesis by (auto simp: ipcp_req_addr_def intro!: ireq_reject_ok)
qed

lemma ireq_server_ok:
  assumes "ipcp_req_server a clen p ho wo go = Ok v" "no_servers ao \<Longrightarrow> a = 0"
  shows "iverdict_ok rid ao clen p ho wo go v"
proof (cases "a = 0 \<or> clen \<noteq> CILEN_ADDR")
  case True
  with assms show ?thesis by (auto simp: ipcp_req_server_def intro!: ireq_reject_ok)
next
  case False
  then obtain l q where l: "getlong p = Ok (l, q)"
    using assms by (auto simp: ipcp_req_server_def bindo_Ok_iff)
  then show ?thesis
    using False assms written_back [OF l]
    by (auto simp: ipcp_req_server_def ipcp_cilen_defs code_defs intro!: iverdict_okI [where n = 4]
      split: if_splits)
qed

lemma ireq_compress_ok:
  assumes "ipcp_req_compress rid ao clen p ho wo go = Ok v"
  shows "iverdict_ok rid ao clen p ho wo go v"
proof (cases "\<exists>x p1. i_neg_vj ao \<and> (clen = CILEN_VJ \<or> clen = CILEN_COMPRESS) \<and> getshort p = Ok (x, p1)
    \<and> (x = IPCP_VJ_COMP \<or> x = IPCP_VJ_COMP_OLD \<and> clen = CILEN_COMPRESS)")
  case False
  then have "v = (CONFREJ, p, ho, wo, go)"
    using assms by (auto simp: ipcp_req_compress_def bindo_Ok_iff split: if_splits)
  then show ?thesis by (simp add: ireq_reject_ok)
next
  case True
  then obtain x p1 where x: "i_neg_vj ao" "clen = CILEN_VJ \<or> clen = CILEN_COMPRESS" "getshort p = Ok (x, p1)"
    "x = IPCP_VJ_COMP \<or> x = IPCP_VJ_COMP_OLD \<and> clen = CILEN_COMPRESS"
    by blast
  obtain a b where p: "p = a # b # p1" using getshort_Ok [OF x(3)] by blast
  show ?thesis
  proof (cases "clen = CILEN_VJ")
    case True
    then have "x = IPCP_VJ_COMP" using x(4) by (simp add: ipcp_cilen_defs)
    with True assms x obtain m f q where q: "p1 = m # f # q"
      by (cases p1 rule: remdups_adj.cases) (auto simp: ipcp_req_compress_def Let_def)
    define naks where "naks = (m > i_maxslotindex ao, f \<noteq> 0 \<and> i_cflag ao = 0)"
    have "v = (if fst naks \<or> snd naks then CONFNAK else CONFACK,
        take 2 p @ [if fst naks \<and> \<not> rid then i_maxslotindex ao else m, if snd naks \<and> \<not> rid then i_cflag wo else f] @ q,
        ho\<lparr>i_neg_vj := True, i_vj_protocol := IPCP_VJ_COMP, i_maxslotindex := m, i_cflag := f\<rparr>, wo, go)"
      using assms True x \<open>x = IPCP_VJ_COMP\<close> by (simp add: ipcp_req_compress_def Let_def q naks_def)
    moreover have "iverdict_ok rid ao clen p ho wo go \<dots>"
      by (rule iverdict_okI [where n = 4])
        (use True x(1) in \<open>auto simp: ipcp_cilen_defs code_defs naks_def p q numeral_eq_Suc not_less
           intro!: igrant_vj split: if_splits\<close>)
    ultimately show ?thesis by (simp only:)
  next
    case False
    then have "v = (CONFACK, p, ho\<lparr>i_neg_vj := True, i_vj_protocol := x, i_old_vj := True,
        i_maxslotindex := MAX_STATES - 1, i_cflag := 1\<rparr>, wo, go)"
      using assms x by (auto simp: ipcp_req_compress_def Let_def)
    moreover have "iverdict_ok rid ao clen p ho wo go \<dots>"
      by (rule iverdict_okI [where n = 2]) (use x False in \<open>auto simp: ipcp_cilen_defs intro!: igrant_vj\<close>)
    ultimately show ?thesis by (simp only:)
  qed
qed

lemma ireq_addrs_ok:
  assumes "ipcp_req_addrs rid ao clen p ho wo go = Ok v"
  shows "iverdict_ok rid ao clen p ho wo go v"
proof (cases "i_neg_addr ao \<and> clen = CILEN_ADDRS")
  case True
  then obtain l p1 where l: "getlong p = Ok (l, p1)"
    using assms by (auto simp: ipcp_req_addrs_def bindo_Ok_iff)
  define nak where "nak = (htonl l \<noteq> i_hisaddr wo \<and> (htonl l = 0 \<or> \<not> i_accept_remote wo))"
  show ?thesis
  proof (cases "\<not> nak \<and> htonl l = 0 \<and> i_hisaddr wo = 0")
    case t: True
    then show ?thesis
      using assms True l by (auto simp: ipcp_req_addrs_def Let_def nak_def intro!: ireq_reject_ok)
  next
    case False
    then obtain m q where m: "getlong p1 = Ok (m, q)"
      using assms True l by (auto simp: ipcp_req_addrs_def Let_def nak_def bindo_Ok_iff split: if_splits)
    define nak2 where "nak2 = (htonl m \<noteq> i_ouraddr wo \<and> (htonl m = 0 \<or> \<not> i_accept_local wo))"
    define a where "a = (if nak \<and> \<not> rid then putlong (ntohl (i_hisaddr wo)) else take 4 p)"
    define b where "b = (if nak2 \<and> \<not> rid then putlong (ntohl (i_ouraddr wo)) else take 4 p1)"
    have ps: "p1 = drop 4 p" "4 \<le> length p" "q = drop 4 p1" "4 \<le> length p1"
      using getlong_split [OF l] getlong_split [OF m] by auto
    have "v = (if nak2 then CONFNAK else if nak then CONFNAK else CONFACK, a @ b @ q,
        ho\<lparr>i_neg_addr := True, i_old_addrs := True, i_hisaddr := htonl l, i_ouraddr := htonl m\<rparr>, wo,
        if htonl m \<noteq> i_ouraddr wo \<and> \<not> nak2 then go\<lparr>i_ouraddr := htonl m\<rparr> else go)"
    proof -
      have "\<not> ((htonl l = i_hisaddr wo \<or> htonl l \<noteq> 0 \<and> i_accept_remote wo) \<and> htonl l = 0 \<and> i_hisaddr wo = 0)"
        using False by (auto simp: nak_def)
      then show ?thesis
        using assms True l m
        by (cases "htonl l = 0"; cases "i_hisaddr wo = 0")
          (auto simp: ipcp_req_addrs_def Let_def nak_def nak2_def a_def b_def)
    qed
    moreover have "iverdict_ok rid ao clen p ho wo go \<dots>"
    proof (rule iverdict_okI [where n = 8])
      have "length a = 4" "length b = 4" using ps by (auto simp: a_def b_def)
      then show "length (a @ b @ q) = length p" "drop 8 (a @ b @ q) = drop 8 p" using ps by auto
      show "a @ b @ q = p" if "(if nak2 then CONFNAK else if nak then CONFNAK else CONFACK) = CONFACK \<or> rid \<and> no_servers ao"
      proof -
        have "\<not> (nak \<and> \<not> rid) \<and> \<not> (nak2 \<and> \<not> rid)" using that by (auto simp: code_defs split: if_splits)
        then have "a = take 4 p" "b = take 4 p1" by (auto simp: a_def b_def)
        then show ?thesis using ps by (metis append_take_drop_id)
      qed
    qed (use True False in \<open>auto simp: ipcp_cilen_defs code_defs nak_def nak2_def intro!: igrant_addrs go_kept_set
          split: if_splits\<close>)
    ultimately show ?thesis by (simp only:)
  qed
next
  case False
  with assms show ?thesis by (auto simp: ipcp_req_addrs_def intro!: ireq_reject_ok)
qed

lemma ireq_ci_ok:
  assumes "ipcp_req_ci rid ao citype clen p ho wo go = Ok v"
  shows "iverdict_ok rid ao clen p ho wo go v"
proof -
  have other: "iverdict_ok rid ao clen p ho wo go (CONFREJ, p, ho, wo, go)"
    by (simp add: ireq_reject_ok)
  have servers: "no_servers ao \<Longrightarrow> i_dnsaddr0 ao = 0" "no_servers ao \<Longrightarrow> i_dnsaddr1 ao = 0"
    "no_servers ao \<Longrightarrow> i_winsaddr0 ao = 0" "no_servers ao \<Longrightarrow> i_winsaddr1 ao = 0"
    by (simp_all add: no_servers_def)
  note rules = ireq_addrs_ok ireq_addr_ok ireq_server_ok ireq_compress_ok other servers
  show ?thesis
    using assms unfolding ipcp_req_ci_def by (simp split: if_splits) (blast intro: rules)+
qed

section \<open>One turn of the loop\<close>

lemma ireq_ci_defined:
  assumes "clen - 2 \<le> int (length p)"
  shows "\<exists>v. ipcp_req_ci rid ao citype clen p ho wo go = Ok v"
proof -
  obtain l where l: "clen \<in> {CILEN_ADDR, CILEN_ADDRS} \<longrightarrow> getlong p = Ok (l, drop 4 p)"
    using assms getlong_drop [of p] by (cases "clen \<in> {CILEN_ADDR, CILEN_ADDRS}") (auto simp: ipcp_cilen_defs)
  obtain m where m: "clen = CILEN_ADDRS \<longrightarrow> getlong (drop 4 p) = Ok (m, drop 4 (drop 4 p))"
  proof (cases "clen = CILEN_ADDRS")
    case True
    then have "4 \<le> length (drop 4 p)" using assms by (simp add: ipcp_cilen_defs)
    then show ?thesis using getlong_drop that by blast
  qed (use that in blast)
  have ne: "CILEN_ADDR \<noteq> CILEN_ADDRS" by (simp add: ipcp_cilen_defs)
  have "\<exists>v. ipcp_req_compress rid ao clen p ho wo go = Ok v"
  proof (cases "clen = CILEN_VJ \<or> clen = CILEN_COMPRESS")
    case True
    then obtain a b q where p: "p = a # b # q"
      using assms by (cases p rule: remdups_adj.cases) (auto simp: ipcp_cilen_defs)
    show ?thesis
    proof (cases "clen = CILEN_VJ")
      case True
      then obtain c d r where "q = c # d # r"
        using assms p by (cases q rule: remdups_adj.cases) (auto simp: ipcp_cilen_defs)
      then show ?thesis by (auto simp: ipcp_req_compress_def Let_def p getshort_def)
    qed (auto simp: ipcp_req_compress_def Let_def p getshort_def)
  qed (auto simp: ipcp_req_compress_def)
  moreover have "\<exists>v. ipcp_req_addrs rid ao clen p ho wo go = Ok v"
    using l m by (simp add: ipcp_req_addrs_def Let_def)
  moreover have "\<exists>v. ipcp_req_addr rid ao clen p ho wo go = Ok v"
    using l by (simp add: ipcp_req_addr_def Let_def)
  moreover have "\<exists>v. ipcp_req_server a clen p ho wo go = Ok v" for a
    using l by (simp add: ipcp_req_server_def)
  ultimately show ?thesis by (simp add: ipcp_req_ci_def)
qed

text \<open>\<open>moved cip u n a b\<close>: in \<open>b\<close> the \<open>n\<close> bytes at \<open>cip\<close> of \<open>a\<close> have been moved to \<open>u\<close>.\<close>

definition moved :: "nat \<Rightarrow> nat \<Rightarrow> nat \<Rightarrow> u8 list \<Rightarrow> u8 list \<Rightarrow> bool" where
  "moved cip u n a b \<longleftrightarrow> length b = length a \<and> take (u + n) b = take u a @ take n (drop cip a)
     \<and> drop (cip + n) b = drop (cip + n) a \<and> (u = cip \<longrightarrow> b = a)"

lemma ireq_move:
  assumes "q_ucp st \<le> cip" "cip + n \<le> length (q_buf st)"
  obtains b where "ipcp_req_move cip n st = Ok (st\<lparr>q_buf := b, q_ucp := q_ucp st + n\<rparr>)"
    "moved cip (q_ucp st) n (q_buf st) b"
proof (cases "q_ucp st = cip")
  case True
  then show ?thesis
    using that [of "q_buf st"] by (simp add: ipcp_req_move_def moved_def take_add)
next
  case False
  then show ?thesis
    using assms that [of "copy_within cip (q_ucp st) n (q_buf st)"]
    by (simp add: ipcp_req_move_def moved_def copy_within_parts)
qed

text \<open>What happens to one option: it is left out, put behind the others, or starts a new answer.\<close>

lemma ireq_answer_cases:
  assumes "orc \<in> {CONFACK, CONFNAK, CONFREJ}" "q_ucp st \<le> cip" "cip + n \<le> length (q_buf st)"
    and rc: "q_rc st \<in> {CONFACK, CONFNAK, CONFREJ}"
  obtains (skip) "ipcp_req_answer rid orc cip n st = Ok st" "q_rc st \<noteq> CONFACK" "orc \<noteq> CONFREJ"
  | (keep) b where "ipcp_req_answer rid orc cip n st = Ok (st\<lparr>q_buf := b, q_ucp := q_ucp st + n\<rparr>)"
      "moved cip (q_ucp st) n (q_buf st) b" "q_rc st = (if orc = CONFNAK \<and> rid then CONFREJ else orc)"
  | (restart) b rc where "ipcp_req_answer rid orc cip n st = Ok (st\<lparr>q_rc := rc, q_buf := b, q_ucp := n\<rparr>)"
      "moved cip 0 n (q_buf st) b" "rc = (if orc = CONFNAK \<and> rid then CONFREJ else orc)" "orc \<noteq> CONFACK"
proof (cases "orc = CONFACK \<and> q_rc st \<noteq> CONFACK \<or> orc = CONFNAK \<and> \<not> rid \<and> q_rc st = CONFREJ")
  case True
  then show ?thesis using skip by (auto simp: ipcp_req_answer_def code_defs)
next
  case False
  define orc' where "orc' = (if orc = CONFNAK \<and> rid then CONFREJ else orc)"
  show ?thesis
  proof (cases "q_rc st = orc'")
    case True
    obtain b where b: "ipcp_req_move cip n st = Ok (st\<lparr>q_buf := b, q_ucp := q_ucp st + n\<rparr>)"
      "moved cip (q_ucp st) n (q_buf st) b"
      using ireq_move [OF assms(2,3)] .
    moreover have "ipcp_req_answer rid orc cip n st = ipcp_req_move cip n st"
      using True False by (auto simp: ipcp_req_answer_def Let_def orc'_def code_defs)
    ultimately show ?thesis using True keep by (simp add: orc'_def)
  next
    case new: False
    define st1 where "st1 = st\<lparr>q_rc := orc', q_ucp := 0\<rparr>"
    obtain b where b: "ipcp_req_move cip n st1 = Ok (st1\<lparr>q_buf := b, q_ucp := q_ucp st1 + n\<rparr>)"
      "moved cip (q_ucp st1) n (q_buf st1) b"
      using ireq_move [of st1 cip n] assms(2,3) by (auto simp: st1_def)
    moreover have "ipcp_req_answer rid orc cip n st = ipcp_req_move cip n st1"
      using False new assms(1) rc by (auto simp: ipcp_req_answer_def Let_def orc'_def st1_def code_defs)
    moreover have "orc \<noteq> CONFACK"
      using False new by (auto simp: orc'_def code_defs)
    ultimately show ?thesis
      using restart [of b orc'] by (simp add: st1_def orc'_def)
  qed
qed

section \<open>The answer as a whole\<close>

text \<open>
  \<open>same_ci a b\<close>: the option \<open>a\<close> of the answer is about the option \<open>b\<close> of the request: same type, same
  length. \<open>ireq_shape\<close> relates the locals to the options \<open>opts\<close> read so far; the answer holds \<open>ans\<close>,
  which is about the selection \<open>sel\<close> of them.
\<close>

definition same_ci :: "u8 list \<Rightarrow> u8 list \<Rightarrow> bool" where
  "same_ci a b \<longleftrightarrow> is_ci a \<and> length a = length b \<and> take 2 a = take 2 b"

definition answer_about :: "bool \<Rightarrow> u8 \<Rightarrow> u8 list list \<Rightarrow> u8 list list \<Rightarrow> bool" where
  "answer_about unedited rc ans opts \<longleftrightarrow>
     (\<exists>sel. subseq sel opts \<and> list_all2 same_ci ans sel \<and> (rc = CONFREJ \<longrightarrow> unedited \<longrightarrow> ans = sel))"

lemma answer_about_snoc:
  "answer_about c rc ans opts \<Longrightarrow> answer_about c rc ans (opts @ [x])"
  "answer_about c rc ans opts \<Longrightarrow> same_ci a x \<Longrightarrow> (rc = CONFREJ \<Longrightarrow> c \<Longrightarrow> a = x) \<Longrightarrow>
   answer_about c rc (ans @ [a]) (opts @ [x])"
  "same_ci a x \<Longrightarrow> (rc = CONFREJ \<Longrightarrow> c \<Longrightarrow> a = x) \<Longrightarrow> answer_about c rc [a] (opts @ [x])"
proof -
  have "subseq sel (opts @ [x])" if "subseq sel opts" for sel using that by auto
  then show "answer_about c rc ans opts \<Longrightarrow> answer_about c rc ans (opts @ [x])"
    unfolding answer_about_def by blast
  show "answer_about c rc (ans @ [a]) (opts @ [x])"
    if about: "answer_about c rc ans opts" and new: "same_ci a x" "rc = CONFREJ \<Longrightarrow> c \<Longrightarrow> a = x"
  proof -
    obtain sel where sel: "subseq sel opts" "list_all2 same_ci ans sel" "rc = CONFREJ \<longrightarrow> c \<longrightarrow> ans = sel"
      using about unfolding answer_about_def by blast
    have "subseq (sel @ [x]) (opts @ [x])" using sel(1) by simp
    moreover have "list_all2 same_ci (ans @ [a]) (sel @ [x])"
      by (rule list_all2_appendI [OF sel(2)]) (simp add: new(1))
    moreover have "rc = CONFREJ \<longrightarrow> c \<longrightarrow> ans @ [a] = sel @ [x]"
      using sel(3) new(2) by blast
    ultimately show ?thesis unfolding answer_about_def by blast
  qed
  show "answer_about c rc [a] (opts @ [x])" if "same_ci a x" "rc = CONFREJ \<Longrightarrow> c \<Longrightarrow> a = x"
    unfolding answer_about_def
    by (rule exI [of _ "[x]"]) (use that in \<open>simp add: subseq_singleton_left\<close>)
qed

definition ireq_pos :: "u8 list \<Rightarrow> int \<Rightarrow> ipcp_req \<Rightarrow> u8 list list \<Rightarrow> bool" where
  "ireq_pos inp len st opts \<longleftrightarrow>
     list_all is_ci opts \<and> take (length (concat opts)) inp = concat opts
     \<and> q_next st = length (concat opts) \<and> int (q_next st) + q_l st = len \<and> 0 \<le> q_l st
     \<and> length (q_buf st) = length inp \<and> drop (q_next st) (q_buf st) = drop (q_next st) inp
     \<and> q_ucp st \<le> q_next st \<and> q_rc st \<in> {CONFACK, CONFNAK, CONFREJ}"

definition ireq_shape :: "u8 list \<Rightarrow> int \<Rightarrow> bool \<Rightarrow> bool \<Rightarrow> ipcp_req \<Rightarrow> u8 list list \<Rightarrow> bool" where
  "ireq_shape inp len rid unedited st opts \<longleftrightarrow>
     ireq_pos inp len st opts
     \<and> (q_rc st = CONFACK \<longrightarrow> q_buf st = inp \<and> q_ucp st = q_next st)
     \<and> (q_rc st \<noteq> CONFACK \<longrightarrow> (\<exists>ans. take (q_ucp st) (q_buf st) = concat ans \<and> q_ucp st = length (concat ans)
          \<and> ans \<noteq> [] \<and> answer_about unedited (q_rc st) ans opts))
     \<and> (q_rc st = CONFNAK \<longrightarrow> \<not> rid)"

text \<open>After a malformed option: \<open>bad\<close> is the rest of the packet.\<close>

definition ireq_shape_bad :: "u8 list \<Rightarrow> int \<Rightarrow> bool \<Rightarrow> ipcp_req \<Rightarrow> bool" where
  "ireq_shape_bad inp len unedited st \<longleftrightarrow> q_l st = 0 \<and> q_rc st = CONFREJ
     \<and> length (q_buf st) = length inp \<and> q_ucp st \<le> length inp
     \<and> (\<exists>opts bad ans. list_all is_ci opts \<and> bad \<noteq> [] \<and> take (nat len) inp = concat opts @ bad
          \<and> take (q_ucp st) (q_buf st) = concat ans @ bad
          \<and> q_ucp st = length (concat ans @ bad) \<and> answer_about unedited CONFREJ ans opts)"

lemma ireq_shapeI:
  assumes "ireq_pos inp len st opts" "q_rc st \<noteq> CONFACK" "q_rc st = CONFNAK \<longrightarrow> \<not> rid"
    "take (q_ucp st) (q_buf st) = concat ans" "q_ucp st = length (concat ans)" "ans \<noteq> []"
    "answer_about unedited (q_rc st) ans opts"
  shows "ireq_shape inp len rid unedited st opts"
  unfolding ireq_shape_def using assms by blast

lemma ireq_shape_badI:
  assumes "list_all is_ci opts" "take (nat len) inp = concat opts @ bad" "bad \<noteq> []"
    "take (q_ucp st) (q_buf st) = concat ans @ bad" "q_ucp st = length (concat ans @ bad)"
    "answer_about unedited CONFREJ ans opts" "q_l st = 0" "q_rc st = CONFREJ"
    "length (q_buf st) = length inp" "q_ucp st \<le> length inp"
  shows "ireq_shape_bad inp len unedited st"
  unfolding ireq_shape_bad_def using assms by blast

lemma ireq_pos_good_step:
  assumes p: "ireq_pos inp len st opts" and w: "within (inp, len)"
    and d: "drop (q_next st) (q_buf st) = citype # c1 # p" "2 \<le> uint c1" "uint c1 \<le> q_l st"
    and v: "length p' = length p" "drop (nat (uint c1 - 2)) p' = drop (nat (uint c1 - 2)) p"
    and st1: "st1 = st\<lparr>q_l := q_l st - uint c1, q_next := q_next st + unat c1,
        q_buf := take (q_next st) (q_buf st) @ [citype, c1] @ p', q_ho := ho, q_wo := wo, q_go := go\<rparr>"
    and x: "x = take (unat c1) (drop (q_next st) inp)"
    and a: "a = take (unat c1) (drop (q_next st) (q_buf st1))"
  shows "list_all is_ci (opts @ [x])" "take (length (concat (opts @ [x]))) inp = concat (opts @ [x])"
    "q_next st + unat c1 = length (concat (opts @ [x]))" "q_next st + unat c1 \<le> length inp"
    "length (q_buf st1) = length inp" "drop (q_next st + unat c1) (q_buf st1) = drop (q_next st + unat c1) inp"
    "take (q_ucp st) (q_buf st1) = take (q_ucp st) (q_buf st)"
    "same_ci a x" "p' = p \<Longrightarrow> q_buf st1 = q_buf st \<and> a = x" "length a = unat c1"
proof -
  have u: "int (unat c1) = uint c1" by simp
  have pos: "int (q_next st) + q_l st = len" "len \<le> int (length inp)" "length (q_buf st) = length inp"
    "drop (q_next st) (q_buf st) = drop (q_next st) inp" "q_ucp st \<le> q_next st"
    using p w by (auto simp: ireq_pos_def within_def)
  show le: "q_next st + unat c1 \<le> length inp" using pos d(3) u by linarith
  then have lx: "length x = unat c1" by (simp add: x)
  have c2: "2 \<le> unat c1" using d(2) u by linarith
  have dp: "citype # c1 # p = drop (q_next st) inp" using d(1) pos(4) by simp
  then have t2: "take 2 x = [citype, c1]" using c2 by (simp add: x min_def flip: dp)
  have nx: "q_next st \<le> length inp" using le by simp
  have bufd: "drop (q_next st) (q_buf st1) = citype # c1 # p'" using nx pos by (simp add: st1)
  have lp: "length inp = q_next st + 2 + length p" using arg_cong [OF dp, of length] nx by simp
  show lb: "length (q_buf st1) = length inp" using lp pos v(1) by (simp add: st1)
  then show la: "length a = unat c1" using le by (simp add: a)
  have ta2: "take 2 a = [citype, c1]" using c2 by (simp add: a bufd min_def)
  have "a ! 1 = c1" using ta2 la c2 by (metis (no_types, lifting) nth_Cons_0 nth_Cons_Suc nth_take One_nat_def one_less_numeral_iff semiring_norm(76))
  then have "is_ci a" using la c2 by (simp add: is_ci_def)
  then show "same_ci a x" using la lx ta2 t2 by (simp add: same_ci_def)
  have "x ! 1 = c1" using t2 lx c2 by (metis (no_types, lifting) nth_Cons_0 nth_Cons_Suc nth_take One_nat_def one_less_numeral_iff semiring_norm(76))
  then have "is_ci x" using lx c2 by (simp add: is_ci_def)
  then show "list_all is_ci (opts @ [x])" using p by (simp add: ireq_pos_def)
  have "length (concat (opts @ [x])) = q_next st + unat c1" using p lx by (simp add: ireq_pos_def)
  then show "q_next st + unat c1 = length (concat (opts @ [x]))"
    "take (length (concat (opts @ [x]))) inp = concat (opts @ [x])"
    using p by (simp_all add: ireq_pos_def take_add x)
  have n2: "unat c1 = Suc (Suc (nat (uint c1 - 2)))" using d(2) u by linarith
  show "drop (q_next st + unat c1) (q_buf st1) = drop (q_next st + unat c1) inp"
  proof -
    have "drop (unat c1) (citype # c1 # p') = drop (unat c1) (citype # c1 # p)"
      unfolding n2 using v(2) by simp
    then show ?thesis using bufd dp by (metis add.commute drop_drop)
  qed
  show "take (q_ucp st) (q_buf st1) = take (q_ucp st) (q_buf st)"
    using pos nx by (simp add: st1 min_def)
  show "q_buf st1 = q_buf st \<and> a = x" if "p' = p"
  proof
    show "q_buf st1 = q_buf st" using that d(1) by (simp add: st1 flip: d(1))
    then show "a = x" by (simp add: a x pos(4))
  qed
qed

lemma ireq_shape_good_step:
  assumes sh: "ireq_shape inp len rid unedited st opts" and w: "within (inp, len)"
    and d: "drop (q_next st) (q_buf st) = citype # c1 # p" "2 \<le> uint c1" "uint c1 \<le> q_l st"
    and v: "iverdict_ok rid ao (uint c1) p ho0 wo0 go0 (orc, p', ho, wo, go)"
    and un: "unedited = (rid \<longrightarrow> no_servers ao)"
    and st1: "st1 = st\<lparr>q_l := q_l st - uint c1, q_next := q_next st + unat c1,
        q_buf := take (q_next st) (q_buf st) @ [citype, c1] @ p', q_ho := ho, q_wo := wo, q_go := go\<rparr>"
  shows "\<exists>st' opts. ipcp_req_answer rid orc (q_next st) (unat c1) st1 = Ok st' \<and> ireq_shape inp len rid unedited st' opts
      \<and> (q_rc st' = CONFACK \<longrightarrow> q_rc st = CONFACK \<and> orc = CONFACK)"
proof -
  define n where "n = unat c1"
  define x where "x = take n (drop (q_next st) inp)"
  define a where "a = take n (drop (q_next st) (q_buf st1))"
  have pos: "ireq_pos inp len st opts" using sh by (simp add: ireq_shape_def)
  have vl: "length p' = length p" "drop (nat (uint c1 - 2)) p' = drop (nat (uint c1 - 2)) p"
    and orc: "orc \<in> {CONFACK, CONFNAK, CONFREJ}" and pp: "orc \<noteq> CONFNAK \<Longrightarrow> p' = p"
    "rid \<Longrightarrow> no_servers ao \<Longrightarrow> p' = p"
    using v by (auto simp: iverdict_ok_def)
  note g = ireq_pos_good_step [OF pos w d vl st1 x_def [unfolded n_def] a_def [unfolded n_def], folded n_def]
  have u: "int n = uint c1" by (simp add: n_def)
  have f: "q_ucp st1 = q_ucp st" "q_rc st1 = q_rc st" "q_next st1 = q_next st + n"
    "int (q_next st1) + q_l st1 = len" "0 \<le> q_l st1" "q_ucp st \<le> q_next st"
    "q_rc st \<in> {CONFACK, CONFNAK, CONFREJ}"
    using pos d(3) unfolding u [symmetric] by (simp_all add: st1 ireq_pos_def n_def)
  have p1: "ireq_pos inp len (st1\<lparr>q_rc := rc, q_buf := b, q_ucp := k\<rparr>) (opts @ [x])"
    if "length b = length inp" "drop (q_next st + n) b = drop (q_next st + n) inp" "k \<le> q_next st + n"
      "rc \<in> {CONFACK, CONFNAK, CONFREJ}" for rc b k
    using that g(1-3) f(3-5) by (simp add: ireq_pos_def)
  have mv: "length b = length inp" "drop (q_next st + n) b = drop (q_next st + n) inp"
      "take (u + n) b = take u (q_buf st1) @ a"
    if "moved (q_next st) u n (q_buf st1) b" for u b
    using that g(5,6) by (simp_all add: moved_def a_def)
  have nak: "q_rc st = CONFNAK \<Longrightarrow> \<not> rid" using sh by (simp add: ireq_shape_def)
  have ans: "\<exists>ans. take (q_ucp st) (q_buf st1) = concat ans \<and> q_ucp st = length (concat ans)
      \<and> ans \<noteq> [] \<and> answer_about unedited (q_rc st) ans opts" if "q_rc st \<noteq> CONFACK"
    using sh that by (simp add: ireq_shape_def g(7))
  have same: "a = x" if "rc = (if orc = CONFNAK \<and> rid then CONFREJ else orc)" "rc = CONFREJ" unedited for rc
  proof -
    have "CONFNAK \<noteq> CONFREJ" by (simp add: code_defs)
    then have "orc = CONFNAK \<Longrightarrow> rid" using that(1,2) by metis
    then have "p' = p" using pp un that(3) by blast
    then show ?thesis using g(9) by blast
  qed
  have le: "q_ucp st1 \<le> q_next st" "q_next st + n \<le> length (q_buf st1)" "q_rc st1 \<in> {CONFACK, CONFNAK, CONFREJ}"
    using f g(4,5) by simp_all
  from orc le show ?thesis
  proof (cases rule: ireq_answer_cases [where rid = rid])
    case skip
    obtain ans where "take (q_ucp st) (q_buf st1) = concat ans" "q_ucp st = length (concat ans)"
      "ans \<noteq> []" "answer_about unedited (q_rc st) ans opts" using ans skip(2) f(2) by auto
    moreover have "ireq_pos inp len st1 (opts @ [x])"
      using g(1-3,5,6) f by (simp add: ireq_pos_def)
    ultimately have "ireq_shape inp len rid unedited st1 (opts @ [x])"
      using skip(2) nak f(1,2) answer_about_snoc(1) by (auto simp: ireq_shape_def)
    then show ?thesis using skip f(2) unfolding n_def by blast
  next
    case (keep b)
    define st' where "st' = st1\<lparr>q_buf := b, q_ucp := q_ucp st1 + n\<rparr>"
    note m = mv [OF keep(2)]
    have ps: "ireq_pos inp len st' (opts @ [x])"
      using g(1-3) m(1,2) f by (simp add: ireq_pos_def st'_def)
    have "ireq_shape inp len rid unedited st' (opts @ [x])"
    proof (cases "q_rc st = CONFACK")
      case True
      then have "p' = p" using keep(3) f(2) pp(1) by (auto simp: code_defs split: if_splits)
      moreover have "q_buf st = inp" "q_ucp st = q_next st" using sh True by (simp_all add: ireq_shape_def)
      ultimately have "b = inp" using g(9) keep(2) f(1) by (simp add: moved_def)
      then show ?thesis
        using ps True \<open>q_ucp st = q_next st\<close> f by (simp add: ireq_shape_def st'_def code_defs)
    next
      case False
      then obtain ans where ans: "take (q_ucp st) (q_buf st1) = concat ans" "q_ucp st = length (concat ans)"
        "ans \<noteq> []" "answer_about unedited (q_rc st) ans opts" using ans by auto
      have "answer_about unedited (q_rc st) (ans @ [a]) (opts @ [x])"
        by (rule answer_about_snoc(2) [OF ans(4) g(8)]) (use same keep(3) f(2) in simp)
      moreover have "take (q_ucp st') (q_buf st') = concat (ans @ [a])"
        using m(3) ans(1) f(1) by (simp add: st'_def)
      moreover have "q_ucp st' = length (concat (ans @ [a]))"
        using ans(2) g(10) f(1) by (simp add: st'_def n_def)
      ultimately show ?thesis
        using ps False nak f(2) by (intro ireq_shapeI [where ans = "ans @ [a]"]) (simp_all add: st'_def)
    qed
    moreover have "q_rc st' = CONFACK \<longrightarrow> q_rc st = CONFACK \<and> orc = CONFACK"
      using keep(3) f(2) by (auto simp: st'_def code_defs split: if_splits)
    ultimately show ?thesis using keep(1) unfolding n_def st'_def by blast
  next
    case (restart b rc)
    define st' where "st' = st1\<lparr>q_rc := rc, q_buf := b, q_ucp := n\<rparr>"
    note m = mv [OF restart(2)]
    have rc: "rc \<in> {CONFNAK, CONFREJ}" "rc = CONFNAK \<longrightarrow> \<not> rid"
      using restart(3,4) orc by (auto simp: code_defs split: if_splits)
    have "ireq_pos inp len st' (opts @ [x])"
      using p1 [OF m(1,2), of n rc] rc(1) by (simp add: st'_def)
    moreover have "answer_about unedited rc [a] (opts @ [x])"
      by (rule answer_about_snoc(3) [OF g(8)]) (use same restart(3) in simp)
    moreover have "take n b = concat [a]" "n = length (concat [a])"
      using m(3) g(10) by (simp_all add: n_def)
    moreover have "rc \<noteq> CONFACK" using rc(1) by (auto simp: code_defs)
    ultimately have "ireq_shape inp len rid unedited st' (opts @ [x])"
      using rc(2) by (intro ireq_shapeI [where ans = "[a]"]) (simp_all add: st'_def)
    moreover have "q_rc st' \<noteq> CONFACK" using rc(1) by (auto simp: st'_def code_defs)
    ultimately show ?thesis using restart(1) unfolding n_def st'_def by blast
  qed
qed

lemma ireq_shape_bad_step:
  assumes sh: "ireq_shape inp len rid unedited st opts" and w: "within (inp, len)" and l: "q_l st \<noteq> 0"
    and small: "len < 65536"
  shows "\<exists>st'. ipcp_req_answer rid CONFREJ (q_next st) (unat (word_of_int (q_l st) :: u16)) (st\<lparr>q_l := 0\<rparr>) = Ok st'
      \<and> ireq_shape_bad inp len unedited st' \<and> q_wo st' = q_wo st \<and> q_go st' = q_go st"
proof -
  define n where "n = unat (word_of_int (q_l st) :: u16)"
  define st1 where "st1 = st\<lparr>q_l := 0\<rparr>"
  define bad where "bad = take n (drop (q_next st) inp)"
  have pos: "int (q_next st) + q_l st = len" "0 \<le> q_l st" "len \<le> int (length inp)" "list_all is_ci opts"
    "take (q_next st) inp = concat opts" "length (q_buf st) = length inp" "q_ucp st \<le> q_next st"
    "drop (q_next st) (q_buf st) = drop (q_next st) inp" "q_rc st \<in> {CONFACK, CONFNAK, CONFREJ}"
    using sh w by (auto simp: ireq_shape_def ireq_pos_def within_def)
  have "uint (word_of_int (q_l st) :: u16) = q_l st"
    using pos small by (simp add: uint_word_of_int)
  then have n: "int n = q_l st" by (simp add: n_def)
  then have nl: "nat len = q_next st + n" "q_next st + n \<le> length inp" "n \<noteq> 0" using pos l by linarith+
  have lb: "length bad = n" using nl(2) by (simp add: bad_def)
  have orc: "CONFREJ \<in> {CONFACK, CONFNAK, CONFREJ}" by simp
  have le: "q_ucp st1 \<le> q_next st" "q_next st + n \<le> length (q_buf st1)" "q_rc st1 \<in> {CONFACK, CONFNAK, CONFREJ}"
    using pos nl(2) by (simp_all add: st1_def)
  have t: "take (nat len) inp = concat opts @ bad" unfolding nl(1) take_add by (simp only: pos bad_def)
  have "bad \<noteq> []" using lb nl(3) by auto
  note common = pos(4) t \<open>bad \<noteq> []\<close>
  have mv: "length b = length inp" "take (u + n) b = take u (q_buf st) @ bad" if "moved (q_next st) u n (q_buf st) b" for u b
    using that pos by (simp_all add: moved_def bad_def)
  from orc le show ?thesis
  proof (cases rule: ireq_answer_cases [where rid = rid])
    case skip
    then show ?thesis by simp
  next
    case (keep b)
    then have "q_rc st \<noteq> CONFACK" "q_rc st = CONFREJ" by (auto simp: st1_def code_defs)
    then obtain ans where "take (q_ucp st) (q_buf st) = concat ans" "q_ucp st = length (concat ans)"
      "answer_about unedited CONFREJ ans opts" using sh by (auto simp: ireq_shape_def)
    then have "ireq_shape_bad inp len unedited (st1\<lparr>q_buf := b, q_ucp := q_ucp st1 + n\<rparr>)"
      using mv [of "q_ucp st" b] keep(2) common lb pos(7) nl(2) \<open>q_rc st = CONFREJ\<close>
      by (intro ireq_shape_badI [where opts = opts and bad = bad and ans = ans]) (simp_all add: st1_def)
    then show ?thesis using keep(1) by (auto simp: n_def st1_def)
  next
    case (restart b rc)
    have "answer_about unedited CONFREJ [] opts" by (auto simp: answer_about_def)
    then have "ireq_shape_bad inp len unedited (st1\<lparr>q_rc := rc, q_buf := b, q_ucp := n\<rparr>)"
      using mv [of 0 b] restart(2,3) common lb nl(2)
      by (intro ireq_shape_badI [where opts = opts and bad = bad and ans = "[]"]) (simp_all add: st1_def code_defs)
    then show ?thesis using restart(1) by (auto simp: n_def st1_def)
  qed
qed

text \<open>One turn: the answer keeps its shape, and only what we allow is acked.\<close>

definition ireq_kept :: "ipcp_options \<Rightarrow> ipcp_options \<Rightarrow> ipcp_options \<Rightarrow> ipcp_req \<Rightarrow> bool" where
  "ireq_kept ao wo go st \<longleftrightarrow> wo_kept wo (q_wo st) \<and> go_kept wo go (q_go st)
     \<and> (q_rc st = CONFACK \<longrightarrow> ipcp_granted ao wo (q_ho st))"

definition ireq_inv :: "ipcp_options \<Rightarrow> ipcp_options \<Rightarrow> ipcp_options \<Rightarrow> u8 list \<Rightarrow> int \<Rightarrow> bool \<Rightarrow> ipcp_req \<Rightarrow> bool" where
  "ireq_inv ao wo go inp len rid st \<longleftrightarrow> ireq_kept ao wo go st
     \<and> ((\<exists>opts. ireq_shape inp len rid (rid \<longrightarrow> no_servers ao) st opts)
        \<or> ireq_shape_bad inp len (rid \<longrightarrow> no_servers ao) st)"

lemma wo_kept_granted: "wo_kept wo wo' \<Longrightarrow> ipcp_granted ao wo' ho = ipcp_granted ao wo ho"
  by (auto simp: wo_kept_def ipcp_granted_def granted_addr_def)

lemma wo_kept_trans: "wo_kept wo wo1 \<Longrightarrow> wo_kept wo1 wo2 \<Longrightarrow> wo_kept wo wo2"
  by (auto simp: wo_kept_def)

lemma go_kept_trans:
  assumes "wo_kept wo wo1" "go_kept wo go go1" "go_kept wo1 go1 go2"
  shows "go_kept wo go go2"
proof (cases "go2 = go1")
  case False
  then obtain a where a: "i_accept_local wo1" "a \<noteq> 0" "go2 = go1\<lparr>i_ouraddr := a\<rparr>"
    using assms(3) by (auto simp: go_kept_def)
  have "go2 = go\<lparr>i_ouraddr := a\<rparr>" using assms(2) a(3) by (auto simp: go_kept_def)
  moreover have "i_accept_local wo" using assms(1) a(1) by (auto simp: wo_kept_def)
  ultimately show ?thesis using a(2) by (auto simp: go_kept_def)
qed (use assms in simp)

lemma ireq_answer_frame:
  assumes "ipcp_req_answer rid orc cip n st = Ok st'"
  shows "q_ho st' = q_ho st" "q_wo st' = q_wo st" "q_go st' = q_go st"
  using assms by (auto simp: ipcp_req_answer_def ipcp_req_move_def Let_def split: if_splits)

lemma ireq_inv_step:
  assumes inv: "ireq_inv ao wo go inp len rid st" and l: "q_l st \<noteq> 0" and w: "within (inp, len)"
    and small: "len < 65536"
  shows "\<exists>st'. ipcp_req_step ao rid st = Ok st' \<and> ireq_inv ao wo go inp len rid st'"
proof -
  define un where "un = (rid \<longrightarrow> no_servers ao)"
  obtain opts where sh: "ireq_shape inp len rid un st opts" and k: "ireq_kept ao wo go st"
    using inv l by (auto simp: ireq_inv_def ireq_shape_bad_def un_def)
  have pos: "int (q_next st) + q_l st = len" "0 \<le> q_l st" "len \<le> int (length inp)" "length (q_buf st) = length inp"
    using sh w by (simp_all add: ireq_shape_def ireq_pos_def within_def)
  show ?thesis
  proof (cases "q_l st < 2 \<or> (\<exists>citype c1 p. drop (q_next st) (q_buf st) = citype # c1 # p
      \<and> (uint c1 < 2 \<or> uint c1 > q_l st))")
    case True
    then have "ipcp_req_step ao rid st = ipcp_req_answer rid CONFREJ (q_next st)
        (unat (word_of_int (q_l st) :: u16)) (st\<lparr>q_l := 0\<rparr>)"
      by (auto simp: ipcp_req_step_def Let_def)
    moreover obtain st' where "ipcp_req_answer rid CONFREJ (q_next st)
        (unat (word_of_int (q_l st) :: u16)) (st\<lparr>q_l := 0\<rparr>) = Ok st'"
      "ireq_shape_bad inp len un st'" "q_wo st' = q_wo st" "q_go st' = q_go st"
      using ireq_shape_bad_step [OF sh w l small] by blast
    ultimately show ?thesis
      using k by (auto simp: ireq_inv_def ireq_kept_def un_def ireq_shape_bad_def code_defs)
  next
    case False
    have "2 \<le> q_l st" using False by simp
    then have "2 \<le> length (drop (q_next st) (q_buf st))" using pos by simp
    then obtain citype c1 p where d: "drop (q_next st) (q_buf st) = citype # c1 # p"
      by (cases "drop (q_next st) (q_buf st)" rule: remdups_adj.cases) auto
    then have c1: "2 \<le> uint c1" "uint c1 \<le> q_l st" using False by auto
    have "int (length (drop (q_next st) (q_buf st))) = int (length inp) - int (q_next st)"
      using pos \<open>2 \<le> q_l st\<close> by (simp add: of_nat_diff)
    then have "uint c1 - 2 \<le> int (length p)" using d c1(2) pos by simp
    then obtain orc p' ho' wo' go' where v: "ipcp_req_ci rid ao citype (uint c1) p (q_ho st) (q_wo st) (q_go st)
        = Ok (orc, p', ho', wo', go')"
      using ireq_ci_defined by (metis prod_cases5)
    have ok: "iverdict_ok rid ao (uint c1) p (q_ho st) (q_wo st) (q_go st) (orc, p', ho', wo', go')"
      by (rule ireq_ci_ok [OF v])
    define st1 where "st1 = st\<lparr>q_l := q_l st - uint c1, q_next := q_next st + unat c1,
        q_buf := take (q_next st) (q_buf st) @ [citype, c1] @ p', q_ho := ho', q_wo := wo', q_go := go'\<rparr>"
    obtain st' opts' where st': "ipcp_req_answer rid orc (q_next st) (unat c1) st1 = Ok st'"
      "ireq_shape inp len rid un st' opts'" "q_rc st' = CONFACK \<longrightarrow> q_rc st = CONFACK \<and> orc = CONFACK"
      using ireq_shape_good_step [OF sh w d c1 ok un_def st1_def] by blast
    have "ipcp_req_step ao rid st = Ok st'"
      using False d c1 v st'(1) by (simp add: ipcp_req_step_def Let_def st1_def)
    moreover have "ireq_kept ao wo go st'"
    proof -
      have kept: "wo_kept (q_wo st) wo'" "go_kept (q_wo st) (q_go st) go'"
        and gr: "orc = CONFACK \<longrightarrow> ipcp_granted ao (q_wo st) (q_ho st) \<longrightarrow> ipcp_granted ao (q_wo st) ho'"
        using ok by (simp_all add: iverdict_ok_def)
      have st: "wo_kept wo (q_wo st)" "go_kept wo go (q_go st)" "q_rc st = CONFACK \<longrightarrow> ipcp_granted ao wo (q_ho st)"
        using k by (simp_all add: ireq_kept_def)
      show ?thesis
        using wo_kept_trans [OF st(1) kept(1)] go_kept_trans [OF st(1,2) kept(2)] st'(3) st(3) gr
          wo_kept_granted [OF st(1)] ireq_answer_frame [OF st'(1)]
        by (simp add: ireq_kept_def st1_def)
    qed
    ultimately show ?thesis using st'(2) by (auto simp: ireq_inv_def un_def)
  qed
qed

lemma ireq_loop:
  assumes w: "within (inp, len)" and small: "len < 65536"
  shows "ireq_inv ao wo go inp len rid st \<Longrightarrow>
    \<exists>st'. ipcp_req_loop ao rid st = Ok st' \<and> ireq_inv ao wo go inp len rid st' \<and> q_l st' = 0"
proof (induction "nat \<bar>q_l st\<bar>" arbitrary: st rule: less_induct)
  case less
  show ?case
  proof (cases "q_l st = 0")
    case True
    with less.prems show ?thesis by (simp add: ipcp_req_loop.simps)
  next
    case False
    obtain s1 where s1: "ipcp_req_step ao rid st = Ok s1" "ireq_inv ao wo go inp len rid s1"
      using ireq_inv_step [OF less.prems False w small] by blast
    then show ?thesis
      using less.hyps [OF ipcp_req_step_l [OF False s1(1)] s1(2)] False
      by (simp add: ipcp_req_loop.simps [of _ _ st])
  qed
qed

lemma ireq_inv_start: "within (inp, len) \<Longrightarrow> ireq_inv ao wo go inp len rid (ipcp_req_start wo go inp len)"
  unfolding ireq_inv_def
  by (intro conjI disjI1 exI [of _ "[]"])
    (simp_all add: ireq_kept_def ipcp_req_start_def ireq_shape_def ireq_pos_def within_def code_defs
      ipcp_granted_def granted_addr_def granted_vj_def zero_ipcp_options_def)

lemma ipcp_reqci_loop:
  assumes w: "within (inp, len)" and small: "len < 65536" and buf: "len + CILEN_ADDR \<le> int (length inp)"
  obtains st st' where "ipcp_reqci ao wo go inp len rid = Ok st'" "ipcp_req_append rid st = Ok st'"
    "ireq_inv ao wo go inp len rid st" "q_l st = 0"
proof -
  obtain st where st: "ipcp_req_loop ao rid (ipcp_req_start wo go inp len) = Ok st"
    "ireq_inv ao wo go inp len rid st" "q_l st = 0"
    using ireq_loop [OF w small ireq_inv_start [OF w]] by blast
  have "\<exists>st'. ipcp_req_append rid st = Ok st'"
  proof (cases "q_rc st = CONFREJ")
    case False
    then obtain opts where "ireq_pos inp len st opts"
      using st(2) by (auto simp: ireq_inv_def ireq_shape_def ireq_shape_bad_def)
    then have "int (q_ucp st) \<le> len" "length (q_buf st) = length inp"
      using st(3) by (auto simp: ireq_pos_def)
    then have "q_ucp st + 6 \<le> length (q_buf st)" "6 \<le> length (q_buf st)"
      using buf by (auto simp: ipcp_cilen_defs)
    then show ?thesis by (simp add: ipcp_req_append_def Let_def)
  qed (simp add: ipcp_req_append_def)
  then show ?thesis using that st by (auto simp: ipcp_reqci_def)
qed

definition append_ci :: "ipcp_options \<Rightarrow> u8 list" where
  "append_ci wo = [CI_ADDR, word_of_int CILEN_ADDR] @ putlong (ntohl (i_hisaddr wo))"

lemma ireq_append_ack:
  assumes "ipcp_req_append rid st = Ok st'" "q_rc st' = CONFACK"
  shows "st' = st"
  using assms by (auto simp: ipcp_req_append_def Let_def code_defs split: if_splits)

lemma ireq_append_rej: "ipcp_req_append rid st = Ok st' \<Longrightarrow> q_rc st = CONFREJ \<Longrightarrow> st' = st"
  by (simp add: ipcp_req_append_def)

lemma ireq_append_kept:
  assumes "ipcp_req_append rid st = Ok st'"
  shows "wo_kept (q_wo st) (q_wo st')" "q_go st' = q_go st" "q_ho st' = q_ho st"
    "q_rc st \<noteq> CONFREJ \<Longrightarrow> q_rc st' \<noteq> CONFREJ"
  using assms by (auto simp: ipcp_req_append_def Let_def wo_kept_def code_defs split: if_splits)

lemma ireq_append_nak:
  assumes "ipcp_req_append rid st = Ok st'" "q_rc st' = CONFNAK" "wo_kept wo (q_wo st)" "q_ucp st \<le> length (q_buf st)"
  shows "q_rc st = CONFNAK \<and> st' = st
    \<or> \<not> rid \<and> take (q_ucp st') (q_buf st') = (if q_rc st = CONFNAK then take (q_ucp st) (q_buf st) else []) @ append_ci wo"
proof -
  have h: "i_hisaddr (q_wo st) = i_hisaddr wo" using assms(3) by (auto simp: wo_kept_def)
  show ?thesis
    using assms(1,2,4) h
    by (auto simp: ipcp_req_append_def Let_def append_ci_def code_defs putlong_def split: if_splits)
qed

theorem ipcp_reqci_ack:
  assumes "within (inp, len)" "len < 65536" "len + CILEN_ADDR \<le> int (length inp)"
    and r: "ipcp_reqci ao wo go inp len rid = Ok st" "q_rc st = CONFACK"
  shows "q_buf st = inp \<and> int (q_ucp st) = len \<and> ipcp_granted ao wo (q_ho st)
    \<and> (\<exists>opts. list_all is_ci opts \<and> take (nat len) inp = concat opts)"
proof -
  obtain s0 where s0: "ipcp_req_append rid s0 = Ok st" "ireq_inv ao wo go inp len rid s0" "q_l s0 = 0"
    using ipcp_reqci_loop [OF assms(1-3), of ao wo go rid] r(1) by (metis outcome.inject)
  then have "s0 = st" using ireq_append_ack r(2) by metis
  then obtain opts where "ireq_shape inp len rid (rid \<longrightarrow> no_servers ao) st opts" "ireq_kept ao wo go st"
    using s0(2) r(2) by (auto simp: ireq_inv_def ireq_shape_bad_def code_defs)
  moreover from this have "int (q_next st) = len" "take (q_next st) inp = concat opts"
    using s0(3) \<open>s0 = st\<close> by (simp_all add: ireq_shape_def ireq_pos_def)
  ultimately show ?thesis
    using r(2) by (auto simp: ireq_shape_def ireq_pos_def ireq_kept_def)
qed

theorem ipcp_reqci_reject:
  assumes "within (inp, len)" "len < 65536" "len + CILEN_ADDR \<le> int (length inp)"
    and r: "ipcp_reqci ao wo go inp len rid = Ok st" "q_rc st = CONFREJ"
  shows "\<exists>opts bad rej. list_all is_ci opts \<and> take (nat len) inp = concat opts @ bad
    \<and> take (q_ucp st) (q_buf st) = concat rej @ bad \<and> answer_about (rid \<longrightarrow> no_servers ao) CONFREJ rej opts"
proof -
  obtain s0 where s0: "ipcp_req_append rid s0 = Ok st" "ireq_inv ao wo go inp len rid s0" "q_l s0 = 0"
    using ipcp_reqci_loop [OF assms(1-3), of ao wo go rid] r(1) by (metis outcome.inject)
  then have "q_rc s0 = CONFREJ" using ireq_append_kept(4) r(2) by metis
  then have "s0 = st" using ireq_append_rej s0(1) by metis
  then consider (shape) opts where "ireq_shape inp len rid (rid \<longrightarrow> no_servers ao) st opts"
    | (bad) "ireq_shape_bad inp len (rid \<longrightarrow> no_servers ao) st"
    using s0(2) by (auto simp: ireq_inv_def)
  then show ?thesis
  proof cases
    case (shape opts)
    then have pos: "int (q_next st) = len" "take (q_next st) inp = concat opts" "list_all is_ci opts"
      using s0(3) \<open>s0 = st\<close> by (simp_all add: ireq_shape_def ireq_pos_def)
    obtain rej where "take (q_ucp st) (q_buf st) = concat rej" "answer_about (rid \<longrightarrow> no_servers ao) CONFREJ rej opts"
      using shape r(2) by (auto simp: ireq_shape_def code_defs)
    then show ?thesis
      using pos by (intro exI [of _ opts] exI [of _ "[]"] exI [of _ rej]) auto
  next
    case bad
    then show ?thesis unfolding ireq_shape_bad_def by blast
  qed
qed

theorem ipcp_reqci_nak:
  assumes "within (inp, len)" "len < 65536" "len + CILEN_ADDR \<le> int (length inp)"
    and r: "ipcp_reqci ao wo go inp len rid = Ok st" "q_rc st = CONFNAK"
  shows "\<not> rid \<and> (\<exists>opts naks extra. list_all is_ci opts \<and> take (nat len) inp = concat opts
    \<and> take (q_ucp st) (q_buf st) = concat naks @ extra \<and> extra \<in> {[], append_ci wo}
    \<and> naks @ [extra] \<noteq> [[]] \<and> answer_about False CONFNAK naks opts)"
proof -
  obtain s0 where s0: "ipcp_req_append rid s0 = Ok st" "ireq_inv ao wo go inp len rid s0" "q_l s0 = 0"
    using ipcp_reqci_loop [OF assms(1-3), of ao wo go rid] r(1) by (metis outcome.inject)
  have "q_rc s0 \<noteq> CONFREJ" using ireq_append_rej [OF s0(1)] r(2) by (auto simp: code_defs)
  then obtain opts where sh: "ireq_shape inp len rid (rid \<longrightarrow> no_servers ao) s0 opts"
    using s0(2) by (auto simp: ireq_inv_def ireq_shape_bad_def)
  have "ireq_pos inp len s0 opts" using sh by (simp add: ireq_shape_def)
  then have "int (q_next s0) = len" "q_ucp s0 \<le> q_next s0" "length (q_buf s0) = length inp"
    "take (q_next s0) inp = concat opts" "list_all is_ci opts"
    using s0(3) by (simp_all add: ireq_pos_def)
  moreover from this have "nat len = q_next s0" "q_next s0 \<le> length inp"
    using assms(1) by (simp_all add: within_def)
  ultimately have pos: "take (nat len) inp = concat opts" "list_all is_ci opts" "q_ucp s0 \<le> length (q_buf s0)"
    by simp_all
  have wo: "wo_kept wo (q_wo s0)" using s0(2) by (simp add: ireq_inv_def ireq_kept_def)
  have nrid: "q_rc s0 = CONFNAK \<Longrightarrow> \<not> rid" using sh by (simp add: ireq_shape_def)
  have naks: "\<exists>naks. take (q_ucp s0) (q_buf s0) = concat naks \<and> naks \<noteq> [] \<and> answer_about False CONFNAK naks opts"
    if "q_rc s0 = CONFNAK"
    using sh that by (auto simp: ireq_shape_def answer_about_def code_defs)
  have none: "answer_about False CONFNAK [] opts" by (auto simp: answer_about_def)
  have ne: "append_ci wo \<noteq> []" by (simp add: append_ci_def)
  from ireq_append_nak [OF s0(1) r(2) wo pos(3)] show ?thesis
  proof (elim disjE conjE)
    assume "q_rc s0 = CONFNAK" "st = s0"
    then show ?thesis using nrid naks pos by fastforce
  next
    assume n: "\<not> rid" "take (q_ucp st) (q_buf st)
        = (if q_rc s0 = CONFNAK then take (q_ucp s0) (q_buf s0) else []) @ append_ci wo"
    show ?thesis
    proof (cases "q_rc s0 = CONFNAK")
      case True
      then show ?thesis using n naks pos by fastforce
    next
      case False
      then have "take (q_ucp st) (q_buf st) = concat [] @ append_ci wo" using n by simp
      then show ?thesis using n(1) none pos ne by fastforce
    qed
  qed
qed

text \<open>Whatever the code of the answer: no access leaves the buffer, and \<open>*wo\<close> and \<open>*go\<close> are kept.\<close>

theorem ipcp_reqci_defined:
  assumes "within (inp, len)" "len < 65536" "len + CILEN_ADDR \<le> int (length inp)"
  shows "\<exists>st. ipcp_reqci ao wo go inp len rid = Ok st \<and> wo_kept wo (q_wo st) \<and> go_kept wo go (q_go st)"
proof -
  obtain s0 st where s: "ipcp_reqci ao wo go inp len rid = Ok st" "ipcp_req_append rid s0 = Ok st"
    "ireq_inv ao wo go inp len rid s0"
    using ipcp_reqci_loop [OF assms, of ao wo go rid] by metis
  then show ?thesis
    using ireq_append_kept [OF s(2)] wo_kept_trans by (auto simp: ireq_inv_def ireq_kept_def)
qed

end
