(* ===== verification/Ipcp.thy ===== *)
theory Ipcp
  imports Fsm_Retransmit Auth_Addr Ipcp_Replies Ipcp_Requests
begin

text \<open>
  The IPCP machine of ipcp.c: the callback table \<open>ipcp_callbacks\<close> over the option routines of
  \<open>Ipcp_Options\<close>, \<open>Ipcp_Replies\<close> and \<open>Ipcp_Requests\<close>, what IPCP does to the interface when it comes up
  and goes down, and the entry points of \<open>ipcp_protent\<close>. A world is the row of the option tables
  for one unit \<open>f\<close> with \<open>f = &ipcp_fsm[lns[f->unit].ipcp_unit]\<close>, and what \<open>ipcp_up\<close> and \<open>ipcp_down\<close>
  read of the link. The calls into the kernel and the environment are recorded in \<open>w_calls\<close>; what
  the driver answers to a call is the parameter \<open>w_driver\<close> of the calls so far.
\<close>

datatype ipcp_call =
    Script_unsetenv_prefix string
  | Script_setenv string string
  | Create_resolv u32 u32
  | Sifaddr int u32 u32 u32
  | Sifvjcomp int bool u8 u8
  | Sifup int
  | Sifdefaultroute int u32
  | Sifproxyarp int u32
  | Cifproxyarp int u32
  | Cifdefaultroute int u32
  | Run_program string "string list" int

record ipcp_world =
  w_want :: ipcp_options
  w_got :: ipcp_options
  w_allow :: ipcp_options
  w_his :: ipcp_options
  w_cis_received :: "int \<Rightarrow> bool"
  w_ipcp_unit :: int
  w_resolver :: resolver
  w_addresses :: "string list option"
  w_getmask :: "u32 \<Rightarrow> u32"
  w_driver :: "ipcp_call list \<Rightarrow> ipcp_call \<Rightarrow> bool"
  w_ifname :: string
  w_devnam :: string
  w_ipparam :: string
  w_baud_rate :: nat
  w_calls :: "ipcp_call list"
  w_hung :: bool

type_synonym ipcp_sys = "ipcp_world sys"

section \<open>The callbacks for the options\<close>

definition ipcp_resetci :: "ipcp_sys \<Rightarrow> ipcp_sys" where
  "ipcp_resetci s =
     (let w = world s; wo = ipcp_reset_wantoptions (w_allow w) (w_want w)
      in s\<lparr>world := w\<lparr>w_want := wo, w_got := wo,
                       w_cis_received := (w_cis_received w)(w_ipcp_unit w := False)\<rparr>\<rparr>)"

definition ipcp_cilen :: "ipcp_sys \<Rightarrow> int \<times> ipcp_sys" where
  "ipcp_cilen s =
     (let w = world s;
          go = ipcp_cilen_old (w_want w) (w_his w) (w_cis_received w (f_unit s)) (w_got w)
      in (ipcp_cilen_sum go, s\<lparr>world := w\<lparr>w_got := go\<rparr>\<rparr>))"

definition ipcp_cb_addci :: "int \<Rightarrow> ipcp_sys \<Rightarrow> u8 list \<times> int \<times> ipcp_sys" where
  "ipcp_cb_addci lenp s =
     (let w = world s; (bytes, go, len) = ipcp_addci (w_got w) lenp
      in (bytes, len, s\<lparr>world := w\<lparr>w_got := go\<rparr>\<rparr>))"

definition ipcp_cb_ackci :: "u8 list \<Rightarrow> int \<Rightarrow> ipcp_sys \<Rightarrow> bool \<times> ipcp_sys" where
  "ipcp_cb_ackci p len s =
     (case ipcp_ackci (w_got (world s)) (p, len) of
        Undef \<Rightarrow> (False, s\<lparr>ub := True\<rparr>)
      | Bad \<Rightarrow> (False, s)
      | Ok _ \<Rightarrow> (True, s))"

text \<open>
  \<open>fuel\<close> rounds of the loop over the extra options; when they are not enough, the loop of the code
  is taken not to end, and the state is marked by \<open>w_hung\<close>.
\<close>

definition ipcp_nakci :: "u8 list \<Rightarrow> int \<Rightarrow> ipcp_sys \<Rightarrow> int \<times> ipcp_sys" where
  "ipcp_nakci p len s =
     (let w = world s
      in case ipcp_nakci_parse (nat len + 1) (w_got w) (p, len) of
           None \<Rightarrow> (0, s\<lparr>world := w\<lparr>w_hung := True\<rparr>\<rparr>)
         | Some NakUndef \<Rightarrow> (0, s\<lparr>ub := True\<rparr>)
         | Some (NakBad st) \<Rightarrow> (0, s)
         | Some (NakOk st) \<Rightarrow>
             (1, if f_state s \<noteq> OPENED then s\<lparr>world := w\<lparr>w_got := m_try st\<rparr>\<rparr> else s))"

definition ipcp_rejci :: "u8 list \<Rightarrow> int \<Rightarrow> ipcp_sys \<Rightarrow> int \<times> ipcp_sys" where
  "ipcp_rejci p len s =
     (let w = world s
      in case ipcp_rejci_try (w_got w) (p, len) of
           Undef \<Rightarrow> (0, s\<lparr>ub := True\<rparr>)
         | Bad \<Rightarrow> (0, s)
         | Ok tr \<Rightarrow> (1, if f_state s \<noteq> OPENED then s\<lparr>world := w\<lparr>w_got := tr\<rparr>\<rparr> else s))"

definition ipcp_cb_reqci :: "u8 list \<Rightarrow> int \<Rightarrow> bool \<Rightarrow> ipcp_sys \<Rightarrow> u8 \<times> u8 list \<times> int \<times> ipcp_sys" where
  "ipcp_cb_reqci inp len reject_if_disagree s =
     (let w = world s; w = w\<lparr>w_cis_received := (w_cis_received w)(f_unit s := True)\<rparr>
      in case ipcp_reqci (w_allow w) (w_want w) (w_got w) inp len reject_if_disagree of
           Ok st \<Rightarrow> (q_rc st, q_buf st, int (q_ucp st),
                     s\<lparr>world := w\<lparr>w_his := q_ho st, w_want := q_wo st, w_got := q_go st\<rparr>\<rparr>)
         | _ \<Rightarrow> (CONFREJ, inp, len, s\<lparr>world := w, ub := True\<rparr>))"

section \<open>Scripts\<close>

fun decimal :: "nat \<Rightarrow> string" where
  "decimal n = (if n < 10 then [char_of (48 + n)] else decimal (n div 10) @ [char_of (48 + n mod 10)])"

declare decimal.simps [simp del]

definition ip_ntoa :: "u32 \<Rightarrow> string" where
  "ip_ntoa ipaddr =
     (let ipaddr = ntohl ipaddr
      in decimal (unat (ucast (drop_bit 24 ipaddr) :: u8)) @ ''.''
         @ decimal (unat (ucast (drop_bit 16 ipaddr) :: u8)) @ ''.''
         @ decimal (unat (ucast (drop_bit 8 ipaddr) :: u8)) @ ''.''
         @ decimal (unat (ucast ipaddr :: u8)))"

text \<open>A call that is made for its effect, and one whose answer is looked at.\<close>

definition do_call :: "ipcp_call \<Rightarrow> ipcp_world \<Rightarrow> ipcp_world" where
  "do_call c w = w\<lparr>w_calls := w_calls w @ [c]\<rparr>"

definition try_call :: "ipcp_call \<Rightarrow> ipcp_world \<Rightarrow> bool \<times> ipcp_world" where
  "try_call c w = (w_driver w (w_calls w) c, do_call c w)"

definition ipcp_script :: "int \<Rightarrow> string \<Rightarrow> ipcp_world \<Rightarrow> ipcp_world" where
  "ipcp_script u script w =
     do_call (Run_program script
       [script, w_ifname w, w_devnam w, decimal (w_baud_rate w), ip_ntoa (i_ouraddr (w_got w)),
        ip_ntoa (i_hisaddr (w_his w)), w_ipparam w] u) w"

section \<open>The interface comes up and goes down\<close>

definition ipcp_down :: "ipcp_sys \<Rightarrow> ipcp_sys" where
  "ipcp_down s =
     (let w = world s; hisaddr = i_hisaddr (w_his w);
          w = (if i_proxy_arp (w_got w) then do_call (Cifproxyarp (f_unit s) hisaddr) w else w);
          w = (if i_default_route (w_got w) then do_call (Cifdefaultroute (f_unit s) hisaddr) w else w)
      in s\<lparr>world := ipcp_script (f_unit s) ''/etc/ppp/ip-down'' w\<rparr>)"

text \<open>The table without its \<open>up\<close>: \<open>ipcp_up\<close> itself calls \<open>fsm_close\<close>, which reads only \<open>down\<close>.\<close>

definition ipcp_callbacks_but_up :: "ipcp_world fsm_callbacks" where
  "ipcp_callbacks_but_up =
     \<lparr>resetci = Some ipcp_resetci, cilen = Some ipcp_cilen, addci = Some ipcp_cb_addci,
      ackci = Some ipcp_cb_ackci, nakci = Some ipcp_nakci, rejci = Some ipcp_rejci,
      reqci = Some ipcp_cb_reqci, up = None, down = Some ipcp_down, starting = None,
      finished = None, retransmit = None, extcode = None\<rparr>"

definition ipcp_up_close :: "string \<Rightarrow> ipcp_sys \<Rightarrow> ipcp_sys" where
  "ipcp_up_close reason s =
     (if w_ipcp_unit (world s) < 0 then s
      else fsm_close ipcp_callbacks_but_up (Some (map of_char reason)) s)"

text \<open>The name servers, lines 1131 to 1151.\<close>

definition setenv_server :: "u32 \<Rightarrow> string \<Rightarrow> string \<Rightarrow> ipcp_world \<Rightarrow> ipcp_world" where
  "setenv_server addr name ms_name w =
     (if addr \<noteq> 0 then do_call (Script_setenv ms_name (ip_ntoa addr)) (do_call (Script_setenv name (ip_ntoa addr)) w)
      else w)"

definition ipcp_up_env :: "ipcp_options \<Rightarrow> ipcp_world \<Rightarrow> ipcp_world" where
  "ipcp_up_env go w =
     (let w = do_call (Script_unsetenv_prefix ''MS_DNS'') w;
          w = (if i_dnsaddr0 go \<noteq> 0 \<or> i_dnsaddr1 go \<noteq> 0
               then let w = do_call (Script_setenv ''USEPEERDNS'' ''1'') w;
                        w = setenv_server (i_dnsaddr0 go) ''DNS1'' ''MS_DNS1'' w;
                        w = setenv_server (i_dnsaddr1 go) ''DNS2'' ''MS_DNS2'' w
                    in do_call (Create_resolv (i_dnsaddr0 go) (i_dnsaddr1 go)) w
               else w);
          w = do_call (Script_unsetenv_prefix ''MS_WINS'') w;
          w = (if i_winsaddr0 go \<noteq> 0 then do_call (Script_setenv ''MS_WINS1'' (ip_ntoa (i_winsaddr0 go))) w else w)
      in if i_winsaddr1 go \<noteq> 0 then do_call (Script_setenv ''MS_WINS2'' (ip_ntoa (i_winsaddr1 go))) w else w)"

text \<open>The routes and the script, lines 1193 to 1221.\<close>

definition ipcp_up_routes :: "int \<Rightarrow> ipcp_world \<Rightarrow> ipcp_world" where
  "ipcp_up_routes u w =
     (let hisaddr = i_hisaddr (w_his w);
          w = (if i_default_route (w_want w)
               then let (done, w) = try_call (Sifdefaultroute u hisaddr) w
                    in if done then w\<lparr>w_got := (w_got w)\<lparr>i_default_route := True\<rparr>\<rparr> else w
               else w);
          w = (if i_proxy_arp (w_want w)
               then let (done, w) = try_call (Sifproxyarp u hisaddr) w
                    in if done then w\<lparr>w_got := (w_got w)\<lparr>i_proxy_arp := True\<rparr>\<rparr> else w
               else w)
      in ipcp_script u ''/etc/ppp/ip-up'' w)"

text \<open>The interface, lines 1166 to 1221.\<close>

definition ipcp_up_iface :: "ipcp_sys \<Rightarrow> ipcp_sys" where
  "ipcp_up_iface s =
     (let w = world s; u = f_unit s; ho = w_his w; go = w_got w;
          msk = w_getmask w (i_ouraddr go);
          (done, w) = try_call (Sifaddr u (i_ouraddr go) (i_hisaddr ho) msk) w
      in if \<not> done then ipcp_up_close ''sifaddr failed'' (s\<lparr>world := w\<rparr>)
         else
           let w = do_call (Sifvjcomp u (i_neg_vj ho) (i_cflag ho) (i_maxslotindex ho)) w;
               (done, w) = try_call (Sifup u) w
           in if \<not> done then ipcp_up_close ''sifup failed'' (s\<lparr>world := w\<rparr>)
              else s\<lparr>world := ipcp_up_routes u w\<rparr>)"

definition ipcp_up :: "ipcp_sys \<Rightarrow> ipcp_sys" where
  "ipcp_up s =
     (let w = world s;
          w = w\<lparr>w_got := (w_got w)\<lparr>i_default_route := False, i_proxy_arp := False\<rparr>\<rparr>;
          w = (if \<not> i_neg_addr (w_his w)
               then w\<lparr>w_his := (w_his w)\<lparr>i_hisaddr := i_hisaddr (w_want w)\<rparr>\<rparr> else w)
      in if i_hisaddr (w_his w) = 0
         then ipcp_up_close ''Could not determine remote IP address'' (s\<lparr>world := w\<rparr>)
         else if i_ouraddr (w_got w) = 0
         then ipcp_up_close ''Could not determine local IP address'' (s\<lparr>world := w\<rparr>)
         else
           let w = ipcp_up_env (w_got w) w
           in if \<not> auth_ip_addr (w_resolver w) (w_addresses w) (i_hisaddr (w_his w))
              then ipcp_up_close ''Peer is not authorized to use remote address'' (s\<lparr>world := w\<rparr>)
              else ipcp_up_iface (s\<lparr>world := w\<rparr>))"

definition ipcp_callbacks :: "ipcp_world fsm_callbacks" where
  "ipcp_callbacks = ipcp_callbacks_but_up\<lparr>up := Some ipcp_up\<rparr>"

section \<open>The units\<close>

definition NUM_PPP :: nat where "NUM_PPP = 64"

text \<open>
  \<open>ipcp_fsm\<close> as a list of \<open>NUM_PPP\<close> rows. An index outside the array is \<open>None\<close>, except that the
  entry points check for negative units and return.
\<close>

definition at_unit :: "int \<Rightarrow> ('s \<Rightarrow> 's) \<Rightarrow> 's list \<Rightarrow> 's list option" where
  "at_unit unit g tab =
     (if unit < 0 then Some tab
      else if nat unit < length tab then Some (tab[nat unit := g (tab ! nat unit)]) else None)"

definition ipcp_init :: "ipcp_sys \<Rightarrow> ipcp_sys" where
  "ipcp_init s =
     (let s = s\<lparr>f_unit := -1, f_inuse := False, f_protocol := PPP_IPCP, f_state := INITIAL, f_flags := 0,
                f_id := 0, f_reqid := 0, f_seen_ack := False, f_timeouttime := 0, f_maxconfreqtransmits := 0,
                f_retransmits := 0, f_maxtermtransmits := 0, f_nakloops := 0, f_maxnakloops := 0,
                f_term_reason := [], f_term_reason_len := 0\<rparr>;
          s = fsm_init s
      in s\<lparr>world := (world s)\<lparr>w_want := ipcp_init_wantoptions, w_allow := ipcp_init_allowoptions\<rparr>\<rparr>)"

fun ipcp_getunit :: "int \<Rightarrow> nat \<Rightarrow> ipcp_sys list \<Rightarrow> int \<times> ipcp_sys list" where
  "ipcp_getunit linkunit i [] = (-1, [])"
| "ipcp_getunit linkunit i (f # fs) =
     (if \<not> f_inuse f
      then (int i, f\<lparr>f_inuse := True, f_state := INITIAL, f_flags := 0, f_id := 0, f_unit := linkunit\<rparr> # fs)
      else let (u, fs) = ipcp_getunit linkunit (Suc i) fs in (u, f # fs))"

definition ipcp_freeunit :: "nat \<Rightarrow> ipcp_sys list \<Rightarrow> ipcp_sys list" where
  "ipcp_freeunit unit tab = tab[unit := (tab ! unit)\<lparr>f_inuse := False, f_unit := -1\<rparr>]"

definition ipcp_open :: "int \<Rightarrow> ipcp_sys list \<Rightarrow> ipcp_sys list option" where
  "ipcp_open unit = at_unit unit (fsm_open ipcp_callbacks)"

definition ipcp_close :: "int \<Rightarrow> u8 list option \<Rightarrow> ipcp_sys list \<Rightarrow> ipcp_sys list option" where
  "ipcp_close unit reason = at_unit unit (fsm_close ipcp_callbacks reason)"

definition ipcp_lowerup :: "int \<Rightarrow> ipcp_sys list \<Rightarrow> ipcp_sys list option" where
  "ipcp_lowerup unit = at_unit unit (fsm_lowerup ipcp_callbacks)"

definition ipcp_lowerdown :: "int \<Rightarrow> ipcp_sys list \<Rightarrow> ipcp_sys list option" where
  "ipcp_lowerdown unit = at_unit unit (fsm_lowerdown ipcp_callbacks)"

text \<open>\<open>units\<close> is the column \<open>ipcp_unit\<close> of \<open>lns\<close>.\<close>

definition ipcp_input :: "(nat \<Rightarrow> int) \<Rightarrow> nat \<Rightarrow> u8 list \<Rightarrow> int \<Rightarrow> ipcp_sys list \<Rightarrow> ipcp_sys list option" where
  "ipcp_input units linkunit p len = at_unit (units linkunit) (fsm_input ipcp_callbacks p len)"

definition ipcp_protrej :: "(nat \<Rightarrow> int) \<Rightarrow> nat \<Rightarrow> ipcp_sys list \<Rightarrow> ipcp_sys list option" where
  "ipcp_protrej units linkunit = at_unit (units linkunit) (fsm_lowerdown ipcp_callbacks)"

section \<open>The contracts of the automaton\<close>

text \<open>A step that touches the world and the mark \<open>ub\<close> only.\<close>

definition world_step :: "'w sys \<Rightarrow> 'w sys \<Rightarrow> bool" where
  "world_step s t \<longleftrightarrow> (\<exists>w b. t = s\<lparr>ub := b, world := w\<rparr>)"

lemma world_stepI [intro, simp]:
  "world_step s s" "world_step s (s\<lparr>world := w\<rparr>)" "world_step s (s\<lparr>ub := b\<rparr>)"
  "world_step s (s\<lparr>world := w, ub := b\<rparr>)"
proof -
  have "s = s\<lparr>ub := ub s, world := world s\<rparr>" "s\<lparr>world := w\<rparr> = s\<lparr>ub := ub s, world := w\<rparr>"
    "s\<lparr>ub := b\<rparr> = s\<lparr>ub := b, world := world s\<rparr>" "s\<lparr>world := w, ub := b\<rparr> = s\<lparr>ub := b, world := w\<rparr>"
    by simp_all
  then show "world_step s s" "world_step s (s\<lparr>world := w\<rparr>)" "world_step s (s\<lparr>ub := b\<rparr>)"
    "world_step s (s\<lparr>world := w, ub := b\<rparr>)"
    unfolding world_step_def by blast+
qed

lemma world_step_quiet: "(\<And>s. world_step s (g s)) \<Longrightarrow> quiet g"
proof -
  assume g: "\<And>s. world_step s (g s)"
  have "fsm.truncate (g s) = fsm.truncate s \<and> timers (g s) = timers s \<and> sent (g s) = sent s" for s
  proof -
    obtain w b where "g s = s\<lparr>ub := b, world := w\<rparr>" using g unfolding world_step_def by blast
    then show ?thesis by (simp add: fsm.defs)
  qed
  then show ?thesis by (simp add: quiet_def)
qed

lemma ipcp_world_steps:
  "world_step s (ipcp_resetci s)" "world_step s (snd (ipcp_cilen s))"
  "world_step s (snd (snd (ipcp_cb_addci n s)))"
  "world_step s (snd (ipcp_cb_ackci p n s))" "world_step s (snd (ipcp_nakci p n s))"
  "world_step s (snd (ipcp_rejci p n s))" "world_step s (snd (snd (snd (ipcp_cb_reqci p n r s))))"
  "world_step s (ipcp_down s)"
  by (simp_all add: ipcp_resetci_def ipcp_cilen_def ipcp_cb_addci_def ipcp_cb_ackci_def ipcp_nakci_def
        ipcp_rejci_def ipcp_cb_reqci_def ipcp_down_def Let_def
        split: outcome.split nak_result.split option.split prod.split)

lemma ipcp_callbacks_quiet:
  "quiet ipcp_resetci" "quiet (\<lambda>s. snd (ipcp_cilen s))" "quiet (\<lambda>s. snd (snd (ipcp_cb_addci n s)))"
  "quiet (\<lambda>s. snd (ipcp_cb_ackci p n s))" "quiet (\<lambda>s. snd (ipcp_nakci p n s))"
  "quiet (\<lambda>s. snd (ipcp_rejci p n s))" "quiet (\<lambda>s. snd (snd (snd (ipcp_cb_reqci p n r s))))"
  "quiet ipcp_down"
  by (rule world_step_quiet, rule ipcp_world_steps)+

lemma ipcp_nakrej_nonneg: "0 \<le> fst (ipcp_nakci p n s)" "0 \<le> fst (ipcp_rejci p n s)"
  by (simp_all add: ipcp_nakci_def ipcp_rejci_def Let_def split: outcome.split nak_result.split option.split)

interpretation ipcpb: fsm_client ipcp_callbacks_but_up
  by unfold_locales
    (auto simp: ipcp_callbacks_but_up_def ipcp_callbacks_quiet intro: quiet_keeps ipcp_callbacks_quiet)

definition up_result :: "ipcp_sys \<Rightarrow> ipcp_sys \<Rightarrow> bool" where
  "up_result s t \<longleftrightarrow> (\<exists>w r. t = s\<lparr>world := w\<rparr> \<or> t = fsm_close ipcp_callbacks_but_up r (s\<lparr>world := w\<rparr>))"

lemma up_resultI [simp]:
  "up_result s (s\<lparr>world := w\<rparr>)" "up_result s (ipcp_up_close r (s\<lparr>world := w\<rparr>))"
  by (auto simp: up_result_def ipcp_up_close_def)

lemma up_result_iface: "up_result s (ipcp_up_iface (s\<lparr>world := w\<rparr>))"
  by (simp add: ipcp_up_iface_def Let_def split: prod.split)

lemma ipcp_up_result: "up_result s (ipcp_up s)"
  by (simp add: ipcp_up_def Let_def up_result_iface)

lemma ipcp_up_cases:
  obtains w where "ipcp_up s = s\<lparr>world := w\<rparr>"
  | w r where "ipcp_up s = fsm_close ipcp_callbacks_but_up r (s\<lparr>world := w\<rparr>)"
  using ipcp_up_result [of s] unfolding up_result_def by blast

lemma ipcp_up_keeps: "keeps ipcp_up"
  unfolding keeps_def
proof (intro allI conjI impI)
  fix s :: ipcp_sys
  have w: "armed (s\<lparr>world := w\<rparr>) = armed s" "one_timer (s\<lparr>world := w\<rparr>) = one_timer s" for w :: ipcp_world
    by (simp_all add: armed_def one_timer_def)
  show "armed (ipcp_up s)" if "armed s"
    by (cases rule: ipcp_up_cases [of s])
      (simp_all add: w that keepsD(1) [OF ipcpb.close_keeps])
  show "one_timer (ipcp_up s)" if "one_timer s"
    by (cases rule: ipcp_up_cases [of s])
      (simp_all add: w that keepsD(2) [OF ipcpb.close_keeps])
qed

lemma ipcp_up_opens:
  assumes "f_state s = OPENED"
  shows "f_state (ipcp_up s) = OPENED \<and> sent_codes (ipcp_up s) = sent_codes s
    \<or> follows (Some Close_ev) s (ipcp_up s)"
proof -
  have d: "f_state (call (down ipcp_callbacks_but_up) t) = f_state t"
    "sent_codes (call (down ipcp_callbacks_but_up) t) = sent_codes t" for t
    using quietD(3) [OF ipcpb.calls(2)] quiet_codes [OF ipcpb.calls(2)] by simp_all
  have w: "sent_codes (s\<lparr>world := w\<rparr>) = sent_codes s" for w by (simp add: sent_codes_def)
  show ?thesis
    by (cases rule: ipcp_up_cases [of s])
      (simp_all add: assms w follows_def fsm_close_def Let_def d)
qed

interpretation ipcpf: fsm_plain_client ipcp_callbacks
proof unfold_locales
  show "quiet g" if "resetci ipcp_callbacks = Some g" for g
    using that ipcpb.resetci_quiet by (simp add: ipcp_callbacks_def)
  show "quiet (\<lambda>s. snd (g s))" if "cilen ipcp_callbacks = Some g" for g
    using that ipcpb.cilen_quiet by (simp add: ipcp_callbacks_def)
  show "keeps g" if "up ipcp_callbacks = Some g" for g
    using that ipcp_up_keeps by (simp add: ipcp_callbacks_def)
  show "f_state (g s) = OPENED \<and> sent_codes (g s) = sent_codes s \<or> follows (Some Close_ev) s (g s)"
    if "up ipcp_callbacks = Some g" "f_state s = OPENED" for g s
    using that ipcp_up_opens by (simp add: ipcp_callbacks_def)
qed (auto simp: ipcp_callbacks_def ipcp_callbacks_but_up_def ipcp_nakrej_nonneg
      intro: ipcp_callbacks_quiet quiet_keeps ipcp_up_keeps)

section \<open>What coming up and going down do to the interface\<close>

text \<open>Calls that only prepare the scripts.\<close>

fun script_call :: "ipcp_call \<Rightarrow> bool" where
  "script_call (Script_unsetenv_prefix p) = True"
| "script_call (Script_setenv n v) = True"
| "script_call (Create_resolv a b) = True"
| "script_call (Run_program p args u) = True"
| "script_call c = False"

definition adds_calls :: "(ipcp_call \<Rightarrow> bool) \<Rightarrow> ipcp_world \<Rightarrow> ipcp_world \<Rightarrow> bool" where
  "adds_calls P w w' \<longleftrightarrow> (\<exists>cs. w' = w\<lparr>w_calls := w_calls w @ cs\<rparr> \<and> list_all P cs)"

lemma adds_calls_refl: "adds_calls P w w"
  unfolding adds_calls_def by (rule exI [of _ "[]"]) simp

lemma adds_calls_do: "P c \<Longrightarrow> adds_calls P w w' \<Longrightarrow> adds_calls P w (do_call c w')"
proof -
  assume c: "P c" and "adds_calls P w w'"
  then obtain cs where "w' = w\<lparr>w_calls := w_calls w @ cs\<rparr>" "list_all P cs"
    unfolding adds_calls_def by blast
  then have "do_call c w' = w\<lparr>w_calls := w_calls w @ (cs @ [c])\<rparr> \<and> list_all P (cs @ [c])"
    using c by (simp add: do_call_def)
  then show ?thesis unfolding adds_calls_def by blast
qed

lemma adds_calls_if: "adds_calls P w x \<Longrightarrow> adds_calls P w y \<Longrightarrow> adds_calls P w (if b then x else y)"
  by simp

lemma adds_calls_let:
  "adds_calls P w v \<Longrightarrow> (\<And>x. adds_calls P w x \<Longrightarrow> adds_calls P w (f x)) \<Longrightarrow> adds_calls P w (Let v f)"
  by (simp add: Let_def)

lemma adds_calls_server: "adds_calls script_call w x \<Longrightarrow> adds_calls script_call w (setenv_server a n m x)"
  unfolding setenv_server_def by (intro adds_calls_if adds_calls_do) simp_all

lemma ipcp_up_env_calls: "adds_calls script_call w (ipcp_up_env go w)"
  unfolding ipcp_up_env_def
  by (assumption | rule adds_calls_refl | rule adds_calls_let | rule adds_calls_if
      | rule adds_calls_server | rule adds_calls_do | simp only: script_call.simps)+

text \<open>
  The calls from number \<open>n\<close> on that the driver has accepted.
\<close>

definition accepted_since :: "nat \<Rightarrow> ipcp_world \<Rightarrow> ipcp_call \<Rightarrow> bool" where
  "accepted_since n w c \<longleftrightarrow>
     (\<exists>i. n \<le> i \<and> i < length (w_calls w) \<and> w_calls w ! i = c \<and> w_driver w (take i (w_calls w)) c)"

lemma accepted_do:
  "n \<le> length (w_calls w) \<Longrightarrow>
     accepted_since n (do_call c' w) c \<longleftrightarrow> accepted_since n w c \<or> c = c' \<and> w_driver w (w_calls w) c"
proof -
  assume n: "n \<le> length (w_calls w)"
  have old: "i < length (w_calls w) \<Longrightarrow>
      (w_calls w @ [c']) ! i = w_calls w ! i \<and> take i (w_calls w @ [c']) = take i (w_calls w)" for i
    by (simp add: nth_append)
  have "accepted_since n (do_call c' w) c \<longleftrightarrow>
      (\<exists>i. n \<le> i \<and> i < Suc (length (w_calls w)) \<and> (w_calls w @ [c']) ! i = c
         \<and> w_driver w (take i (w_calls w @ [c'])) c)"
    by (simp add: accepted_since_def do_call_def)
  also have "\<dots> \<longleftrightarrow> accepted_since n w c \<or> c = c' \<and> w_driver w (w_calls w) c"
    unfolding accepted_since_def using old n by (metis less_Suc_eq nth_append_length append_eq_conv_conj)
  finally show ?thesis .
qed

text \<open>What \<open>ipcp_up\<close> has done when it leaves the layer open.\<close>

lemma ipcp_up_close_not_open:
  "f_state s = OPENED \<Longrightarrow> 0 \<le> w_ipcp_unit (world s) \<Longrightarrow> f_state (ipcp_up_close r s) = CLOSING"
  by (simp add: ipcp_up_close_def fsm_close_def Let_def)

lemma ipcp_up_routes_frame:
  "w_his (ipcp_up_routes u w) = w_his w" "i_ouraddr (w_got (ipcp_up_routes u w)) = i_ouraddr (w_got w)"
  "w_addresses (ipcp_up_routes u w) = w_addresses w" "w_resolver (ipcp_up_routes u w) = w_resolver w"
  "w_driver (ipcp_up_routes u w) = w_driver w" "w_getmask (ipcp_up_routes u w) = w_getmask w"
  "\<exists>cs. w_calls (ipcp_up_routes u w) = w_calls w @ cs"
  by (simp_all add: ipcp_up_routes_def ipcp_script_def try_call_def do_call_def Let_def)

lemma accepted_append:
  "accepted_since n w c \<Longrightarrow> w_calls w' = w_calls w @ cs \<Longrightarrow> w_driver w' = w_driver w \<Longrightarrow> accepted_since n w' c"
  unfolding accepted_since_def by (auto simp: nth_append)

lemma accepted_routes: "accepted_since n w c \<Longrightarrow> accepted_since n (ipcp_up_routes u w) c"
  using ipcp_up_routes_frame(7) [of u w] accepted_append ipcp_up_routes_frame(5) by blast

theorem ipcp_up_stays_open:
  assumes "f_state s = OPENED" "0 \<le> w_ipcp_unit (world s)" "f_state (ipcp_up s) = OPENED"
  defines "w \<equiv> world (ipcp_up s)"
  shows "i_hisaddr (w_his w) \<noteq> 0 \<and> i_ouraddr (w_got w) \<noteq> 0
    \<and> auth_ip_addr (w_resolver w) (w_addresses w) (i_hisaddr (w_his w))
    \<and> accepted_since (length (w_calls (world s))) w
        (Sifaddr (f_unit s) (i_ouraddr (w_got w)) (i_hisaddr (w_his w)) (w_getmask w (i_ouraddr (w_got w))))
    \<and> accepted_since (length (w_calls (world s))) w (Sifup (f_unit s))"
proof -
  define w0 where "w0 = (let w = (world s)\<lparr>w_got := (w_got (world s))\<lparr>i_default_route := False, i_proxy_arp := False\<rparr>\<rparr>
    in if \<not> i_neg_addr (w_his w) then w\<lparr>w_his := (w_his w)\<lparr>i_hisaddr := i_hisaddr (w_want w)\<rparr>\<rparr> else w)"
  define w1 where "w1 = ipcp_up_env (w_got w0) w0"
  have u0: "w_ipcp_unit w0 = w_ipcp_unit (world s)" "w_calls w0 = w_calls (world s)"
    by (simp_all add: w0_def Let_def)
  obtain cs where w1: "w1 = w0\<lparr>w_calls := w_calls w0 @ cs\<rparr>" "list_all script_call cs"
    using ipcp_up_env_calls [of w0 "w_got w0"] by (auto simp: adds_calls_def w1_def)
  have up: "ipcp_up s =
     (if i_hisaddr (w_his w0) = 0
      then ipcp_up_close ''Could not determine remote IP address'' (s\<lparr>world := w0\<rparr>)
      else if i_ouraddr (w_got w0) = 0
      then ipcp_up_close ''Could not determine local IP address'' (s\<lparr>world := w0\<rparr>)
      else if \<not> auth_ip_addr (w_resolver w1) (w_addresses w1) (i_hisaddr (w_his w1))
      then ipcp_up_close ''Peer is not authorized to use remote address'' (s\<lparr>world := w1\<rparr>)
      else ipcp_up_iface (s\<lparr>world := w1\<rparr>))"
    unfolding ipcp_up_def w1_def w0_def Let_def by (rule refl)
  have c: "f_state (ipcp_up_close r (s\<lparr>world := x\<rparr>)) = CLOSING" if "w_ipcp_unit x = w_ipcp_unit w0" for r x
    using ipcp_up_close_not_open [of "s\<lparr>world := x\<rparr>" r] assms(1,2) that u0 by simp
  have ok: "i_hisaddr (w_his w0) \<noteq> 0" "i_ouraddr (w_got w0) \<noteq> 0"
    "auth_ip_addr (w_resolver w0) (w_addresses w0) (i_hisaddr (w_his w0))"
    and iface: "ipcp_up s = ipcp_up_iface (s\<lparr>world := w1\<rparr>)"
    using assms(3) c [of w0] c [of w1] unfolding up by (auto simp: w1(1) split: if_splits)
  define n where "n = length (w_calls (world s))"
  define ca where "ca = Sifaddr (f_unit s) (i_ouraddr (w_got w0)) (i_hisaddr (w_his w0)) (w_getmask w0 (i_ouraddr (w_got w0)))"
  define cv where "cv = Sifvjcomp (f_unit s) (i_neg_vj (w_his w0)) (i_cflag (w_his w0)) (i_maxslotindex (w_his w0))"
  define w2 where "w2 = do_call cv (do_call ca w1)"
  have fr: "w_ipcp_unit (do_call c x) = w_ipcp_unit x" "w_his (do_call c x) = w_his x" "w_got (do_call c x) = w_got x"
    "w_driver (do_call c x) = w_driver x" "length (w_calls x) \<le> length (w_calls (do_call c x))" for c x
    by (simp_all add: do_call_def)
  have iface': "ipcp_up_iface (s\<lparr>world := w1\<rparr>) =
     (if \<not> w_driver w1 (w_calls w1) ca then ipcp_up_close ''sifaddr failed'' (s\<lparr>world := do_call ca w1\<rparr>)
      else if \<not> w_driver w2 (w_calls w2) (Sifup (f_unit s))
      then ipcp_up_close ''sifup failed'' (s\<lparr>world := do_call (Sifup (f_unit s)) w2\<rparr>)
      else s\<lparr>world := ipcp_up_routes (f_unit s) (do_call (Sifup (f_unit s)) w2)\<rparr>)"
    by (simp add: ipcp_up_iface_def Let_def try_call_def w2_def ca_def cv_def w1(1))
  have acc: "w_driver w1 (w_calls w1) ca" "w_driver w2 (w_calls w2) (Sifup (f_unit s))"
    and res: "world (ipcp_up s) = ipcp_up_routes (f_unit s) (do_call (Sifup (f_unit s)) w2)"
    using assms(3) c [of "do_call ca w1"] c [of "do_call (Sifup (f_unit s)) w2"]
    unfolding iface iface' by (auto simp: fr w1(1) w2_def split: if_splits)
  define w3 where "w3 = do_call (Sifup (f_unit s)) w2"
  have n: "n \<le> length (w_calls w1)" by (simp add: n_def w1(1) u0)
  then have n2: "n \<le> length (w_calls (do_call ca w1))" "n \<le> length (w_calls w2)" "n \<le> length (w_calls w3)"
    by (simp_all add: w2_def w3_def do_call_def)
  have "accepted_since n w3 ca \<and> accepted_since n w3 (Sifup (f_unit s))"
    using acc by (simp add: w3_def accepted_do n2 w2_def [symmetric]) (simp add: w2_def accepted_do n n2)
  then have "accepted_since n w ca \<and> accepted_since n w (Sifup (f_unit s))"
    using accepted_routes n2(3) by (simp add: w_def res w3_def)
  then show ?thesis
    using ok unfolding w_def n_def res
    by (simp add: ipcp_up_routes_frame fr w2_def ca_def w1(1))
      (simp add: do_call_def)
qed

end
