(* ===== verification/Fsm_World.thy ===== *)
theory Fsm_World
  imports Fsm
begin

text \<open>
  The automaton touches the rest of the program through its callbacks only: a property \<open>P\<close> of the world
  that each callback keeps is kept by every event.
\<close>

lemma fsm_world_simps [simp]:
  "world (fsm_stermreq s) = world s" "world (UNTIMEOUT s) = world s" "world (TIMEOUT s) = world s"
  "world (fsm_sdata c i d n s) = world s"
  by (simp_all add: fsm_stermreq_def UNTIMEOUT_def TIMEOUT_def fsm_sdata_def Let_def)

locale fsm_world =
  fixes cb :: "'w fsm_callbacks" and P :: "'w \<Rightarrow> bool"
  assumes resetci_P: "resetci cb = Some g1 \<Longrightarrow> P (world s) \<Longrightarrow> P (world (g1 s))"
    and cilen_P: "cilen cb = Some g2 \<Longrightarrow> P (world s) \<Longrightarrow> P (world (snd (g2 s)))"
    and addci_P: "addci cb = Some g3 \<Longrightarrow> P (world s) \<Longrightarrow> P (world (snd (snd (g3 n s))))"
    and ackci_P: "ackci cb = Some g4 \<Longrightarrow> P (world s) \<Longrightarrow> P (world (snd (g4 p n s)))"
    and reqci_P: "reqci cb = Some g5 \<Longrightarrow> P (world s) \<Longrightarrow> P (world (snd (snd (snd (g5 p n r s)))))"
    and nakci_P: "nakci cb = Some g6 \<Longrightarrow> P (world s) \<Longrightarrow> P (world (snd (g6 p n s)))"
    and rejci_P: "rejci cb = Some g6 \<Longrightarrow> P (world s) \<Longrightarrow> P (world (snd (g6 p n s)))"
    and extcode_P: "extcode cb = Some g7 \<Longrightarrow> P (world s) \<Longrightarrow> P (world (snd (g7 c i p n s)))"
    and up_P: "up cb = Some g1 \<Longrightarrow> P (world s) \<Longrightarrow> P (world (g1 s))"
    and down_P: "down cb = Some g1 \<Longrightarrow> P (world s) \<Longrightarrow> P (world (g1 s))"
    and starting_P: "starting cb = Some g1 \<Longrightarrow> P (world s) \<Longrightarrow> P (world (g1 s))"
    and finished_P: "finished cb = Some g1 \<Longrightarrow> P (world s) \<Longrightarrow> P (world (g1 s))"
    and retransmit_P: "retransmit cb = Some g1 \<Longrightarrow> P (world s) \<Longrightarrow> P (world (g1 s))"
begin

lemma calls_P:
  "P (world s) \<Longrightarrow> P (world (call (resetci cb) s))" "P (world s) \<Longrightarrow> P (world (call (up cb) s))"
  "P (world s) \<Longrightarrow> P (world (call (down cb) s))" "P (world s) \<Longrightarrow> P (world (call (starting cb) s))"
  "P (world s) \<Longrightarrow> P (world (call (finished cb) s))" "P (world s) \<Longrightarrow> P (world (call (retransmit cb) s))"
proof -
  show "P (world s) \<Longrightarrow> P (world (call (resetci cb) s))" by (cases "resetci cb") (simp_all add: resetci_P)
  show "P (world s) \<Longrightarrow> P (world (call (up cb) s))" by (cases "up cb") (simp_all add: up_P)
  show "P (world s) \<Longrightarrow> P (world (call (down cb) s))" by (cases "down cb") (simp_all add: down_P)
  show "P (world s) \<Longrightarrow> P (world (call (starting cb) s))" by (cases "starting cb") (simp_all add: starting_P)
  show "P (world s) \<Longrightarrow> P (world (call (finished cb) s))" by (cases "finished cb") (simp_all add: finished_P)
  show "P (world s) \<Longrightarrow> P (world (call (retransmit cb) s))" by (cases "retransmit cb") (simp_all add: retransmit_P)
qed

lemma sconfreq_P: "P (world s) \<Longrightarrow> P (world (fsm_sconfreq cb r s))"
proof -
  assume P: "P (world s)"
  define s1 where "s1 = (if f_state s \<noteq> REQSENT \<and> f_state s \<noteq> ACKRCVD \<and> f_state s \<noteq> ACKSENT
               then (call (resetci cb) s)\<lparr>f_nakloops := 0\<rparr> else s)"
  define s2 where "s2 = (if \<not> r then s1\<lparr>f_retransmits := f_maxconfreqtransmits s1, f_id := f_id s1 + 1,
                      f_reqid := f_id s1 + 1\<rparr> else s1)\<lparr>f_seen_ack := False\<rparr>"
  have "P (world s2)" using P calls_P(1) by (simp add: s2_def s1_def)
  then show ?thesis
    unfolding fsm_sconfreq_def s1_def [symmetric] s2_def [symmetric] Let_def
    by (auto simp: s2_def [symmetric] case_prod_beta cilen_P addci_P split: option.split)
qed

lemma lowerup_P: "P (world s) \<Longrightarrow> P (world (fsm_lowerup cb s))"
  by (simp add: fsm_lowerup_def sconfreq_P split: link_state.split)

lemma lowerdown_P: "P (world s) \<Longrightarrow> P (world (fsm_lowerdown cb s))"
  by (simp add: fsm_lowerdown_def calls_P split: link_state.split)

lemma restart_P: "P (world s) \<Longrightarrow> P (world (fsm_restart cb s))"
  by (simp add: fsm_restart_def lowerup_P lowerdown_P)

lemma open_P: "P (world s) \<Longrightarrow> P (world (fsm_open cb s))"
  by (simp add: fsm_open_def calls_P sconfreq_P restart_P split: link_state.split)

lemma close_P: "P (world s) \<Longrightarrow> P (world (fsm_close cb reason s))"
  by (simp add: fsm_close_def calls_P Let_def)

lemma protreject_P: "P (world s) \<Longrightarrow> P (world (fsm_protreject cb s))"
  by (simp add: fsm_protreject_def calls_P Let_def)

lemma timeout_P: "P (world s) \<Longrightarrow> P (world (fsm_timeout cb s))"
  by (simp add: fsm_timeout_def calls_P sconfreq_P Let_def)

lemma sconfreply_P: "P (world s) \<Longrightarrow> P (world (fsm_sconfreply cb code pid inp len s))"
  by (simp add: fsm_sconfreply_def calls_P Let_def)

lemma rconfreq_P: "P (world s) \<Longrightarrow> P (world (fsm_rconfreq cb pid inp len s))"
proof -
  assume "P (world s)"
  then have n: "P (world (fsm_startneg cb s))" by (simp add: fsm_startneg_def calls_P sconfreq_P)
  then have "P (world (snd (snd (snd (fsm_checkci cb inp len (fsm_startneg cb s))))))"
    by (simp add: fsm_checkci_def reqci_P split: option.split)
  then show ?thesis
    using \<open>P (world s)\<close> by (simp add: fsm_rconfreq_def Let_def case_prod_beta sconfreply_P)
qed

lemma rconfack_P: "P (world s) \<Longrightarrow> P (world (fsm_rconfack cb pid inp len s))"
proof -
  assume P: "P (world s)"
  obtain good t where t: "(case ackci cb of Some check \<Rightarrow> check inp len s | None \<Rightarrow> (len = 0, s)) = (good, t)"
    by (metis surj_pair)
  have "P (world (snd (case ackci cb of Some check \<Rightarrow> check inp len s | None \<Rightarrow> (len = 0, s))))"
    using P by (simp add: ackci_P split: option.split)
  then have "P (world t)" by (simp add: t)
  then show ?thesis
    using P by (simp add: fsm_rconfack_def t Let_def calls_P sconfreq_P split: link_state.split)
qed

lemma nakrej_good_P: "P (world s) \<Longrightarrow> P (world (fsm_nakrej_good cb ret pid s))"
  by (simp add: fsm_nakrej_good_def calls_P sconfreq_P Let_def)

lemma rconfnakrej_P: "P (world s) \<Longrightarrow> P (world (fsm_rconfnakrej cb code pid inp len s))"
  by (simp add: fsm_rconfnakrej_def Let_def case_prod_beta nakrej_good_P nakci_P rejci_P split: option.split)

lemma rtermreq_P: "P (world s) \<Longrightarrow> P (world (fsm_rtermreq cb pid s))"
  by (simp add: fsm_rtermreq_def calls_P Let_def)

lemma rtermack_P: "P (world s) \<Longrightarrow> P (world (fsm_rtermack cb s))"
  by (simp add: fsm_rtermack_def calls_P sconfreq_P split: link_state.split)

lemma rcoderej_P: "P (world s) \<Longrightarrow> P (world (fsm_rcoderej inp len s))"
  by (simp add: fsm_rcoderej_def split: list.split)

lemma input_P: "P (world s) \<Longrightarrow> P (world (fsm_input cb pkt l s))"
  by (simp add: fsm_input_def Let_def case_prod_beta rconfreq_P rconfack_P rconfnakrej_P rtermreq_P rtermack_P
      rcoderej_P extcode_P split: list.split option.split)

theorem step_P: "P (world s) \<Longrightarrow> P (world (fsm_step cb e s))"
  by (cases e) (simp_all add: lowerup_P lowerdown_P open_P close_P timeout_P protreject_P input_P)

end

end
