(* ===== verification/Lcp_Options.thy ===== *)
theory Lcp_Options
  imports Fsm
begin

text \<open>
  The LCP options of ipppd/lcp.h and the callbacks of lcp.c that put them on the wire and check
  the peer's Configure-Ack (\<open>lcp_cilen\<close>, \<open>lcp_addci\<close>, \<open>lcp_ackci\<close>).

  Each macro of lcp.c (\<open>LENCI\<dots>\<close>, \<open>ADDCI\<dots>\<close>, \<open>ACKCI\<dots>\<close>) is a function of the same name with its
  \<open>neg\<close> argument as a flag; \<open>ADDCI\<dots>\<close> gives the bytes it puts at \<open>ucp\<close>. The lemmas \<open>ack_\<dots>\<close> say that an
  \<open>ACKCI\<close> macro accepts exactly the bytes of its \<open>ADDCI\<close> macro, which is the contract
  \<open>ci_codec\<close>. The record leaves out \<open>cb_type\<close>, \<open>cb_num\<close> and \<open>cb_numlen\<close>, which no code uses.
\<close>

section \<open>Constants\<close>

definition CI_MRU :: u8 where "CI_MRU = 1"
definition CI_ASYNCMAP :: u8 where "CI_ASYNCMAP = 2"
definition CI_AUTHTYPE :: u8 where "CI_AUTHTYPE = 3"
definition CI_QUALITY :: u8 where "CI_QUALITY = 4"
definition CI_MAGICNUMBER :: u8 where "CI_MAGICNUMBER = 5"
definition CI_PCOMPRESSION :: u8 where "CI_PCOMPRESSION = 7"
definition CI_ACCOMPRESSION :: u8 where "CI_ACCOMPRESSION = 8"
definition CI_CALLBACK :: u8 where "CI_CALLBACK = 13"
definition CI_MPMRRU :: u8 where "CI_MPMRRU = 17"
definition CI_MPSHORTSEQ :: u8 where "CI_MPSHORTSEQ = 18"
definition CI_MPDISCRIMINATOR :: u8 where "CI_MPDISCRIMINATOR = 19"

lemmas ci_defs = CI_MRU_def CI_ASYNCMAP_def CI_AUTHTYPE_def CI_QUALITY_def CI_MAGICNUMBER_def
  CI_PCOMPRESSION_def CI_ACCOMPRESSION_def CI_CALLBACK_def CI_MPMRRU_def CI_MPSHORTSEQ_def
  CI_MPDISCRIMINATOR_def

definition CB_AUTH :: int where "CB_AUTH = 0"
definition CB_DIALSTRING :: int where "CB_DIALSTRING = 1"
definition CB_LOCATIONID :: int where "CB_LOCATIONID = 2"
definition CB_PHONENO :: int where "CB_PHONENO = 3"
definition CB_NAME :: int where "CB_NAME = 4"
definition CB_CBCP :: int where "CB_CBCP = 6"

lemmas cb_defs = CB_AUTH_def CB_DIALSTRING_def CB_LOCATIONID_def CB_PHONENO_def CB_NAME_def CB_CBCP_def

definition PPP_PAP :: u16 where "PPP_PAP = 0xc023"
definition PPP_LQR :: u16 where "PPP_LQR = 0xc025"
definition PPP_CHAP :: u16 where "PPP_CHAP = 0xc223"
definition PPP_LCP :: u16 where "PPP_LCP = 0xc021"

definition CHAP_DIGEST_MD5 :: u8 where "CHAP_DIGEST_MD5 = 5"

definition CILEN_CHAR :: int where "CILEN_CHAR = 3"
definition CILEN_SHORT :: int where "CILEN_SHORT = 4"
definition CILEN_CHAP :: int where "CILEN_CHAP = 5"
definition CILEN_LONG :: int where "CILEN_LONG = 6"
definition CILEN_LQR :: int where "CILEN_LQR = 8"
definition CILEN_CB :: int where "CILEN_CB = 3"

lemmas cilen_defs = CILEN_VOID_def CILEN_CHAR_def CILEN_SHORT_def CILEN_CHAP_def CILEN_LONG_def
  CILEN_LQR_def CILEN_CB_def

definition DEFMRU :: u16 where "DEFMRU = 1500"
definition MINMRU :: u16 where "MINMRU = 128"
definition MAXMRU :: u16 where "MAXMRU = 16384"

section \<open>The options\<close>

record callback_opts =
  cb_neg_cbcp :: bool
  cb_neg_rfc :: bool
  cb_rfc_preferred :: bool
  cb_type :: int
  cb_message :: "u8 list"
  cb_mlen :: int
  cb_delay :: int

record lcp_options =
  l_passive :: bool
  l_silent :: bool
  l_restart :: bool
  l_neg_mru :: bool
  l_neg_asyncmap :: bool
  l_neg_upap :: bool
  l_neg_chap :: bool
  l_neg_magicnumber :: bool
  l_neg_pcompression :: bool
  l_neg_accompression :: bool
  l_neg_lqr :: bool
  l_neg_mpshortseq :: bool
  l_neg_mpdiscr :: bool
  l_neg_mpmrru :: bool
  l_neg_mp :: bool
  l_neg_callback :: bool
  l_mp_class :: u8
  l_mp_addr :: "u8 list"
  l_mp_alen :: u8
  l_mp_mrru :: u16
  l_mru :: u16
  l_chap_mdtype :: u8
  l_asyncmap :: u32
  l_magicnumber :: u32
  l_numloops :: int
  l_lqr_period :: u32
  l_cbopt :: callback_opts

text \<open>The options of \<open>BZERO\<close>.\<close>

definition zero_lcp_options :: lcp_options where
  "zero_lcp_options =
     \<lparr>l_passive = False, l_silent = False, l_restart = False, l_neg_mru = False,
      l_neg_asyncmap = False, l_neg_upap = False, l_neg_chap = False, l_neg_magicnumber = False,
      l_neg_pcompression = False, l_neg_accompression = False, l_neg_lqr = False,
      l_neg_mpshortseq = False, l_neg_mpdiscr = False, l_neg_mpmrru = False, l_neg_mp = False,
      l_neg_callback = False, l_mp_class = 0, l_mp_addr = replicate 20 0, l_mp_alen = 0,
      l_mp_mrru = 0, l_mru = 0, l_chap_mdtype = 0, l_asyncmap = 0, l_magicnumber = 0,
      l_numloops = 0, l_lqr_period = 0,
      l_cbopt = \<lparr>cb_neg_cbcp = False, cb_neg_rfc = False, cb_rfc_preferred = False, cb_type = 0,
                 cb_message = [], cb_mlen = 0, cb_delay = 0\<rparr>\<rparr>"

section \<open>lcp_cilen\<close>

definition LENCIVOID :: "bool \<Rightarrow> int" where "LENCIVOID neg = (if neg then CILEN_VOID else 0)"
definition LENCICHAP :: "bool \<Rightarrow> int" where "LENCICHAP neg = (if neg then CILEN_CHAP else 0)"
definition LENCISHORT :: "bool \<Rightarrow> int" where "LENCISHORT neg = (if neg then CILEN_SHORT else 0)"
definition LENCILONG :: "bool \<Rightarrow> int" where "LENCILONG neg = (if neg then CILEN_LONG else 0)"
definition LENCILQR :: "bool \<Rightarrow> int" where "LENCILQR neg = (if neg then CILEN_LQR else 0)"
definition LENCIMPDISCRI :: "bool \<Rightarrow> u8 \<Rightarrow> int" where
  "LENCIMPDISCRI neg alen = (if neg then 3 + uint alen else 0)"
definition LENCIMPMRRU :: "bool \<Rightarrow> int" where "LENCIMPMRRU neg = (if neg then CILEN_SHORT else 0)"
definition LENCIMPSHORTSEQ :: "bool \<Rightarrow> int" where "LENCIMPSHORTSEQ neg = (if neg then CILEN_VOID else 0)"
definition LENCICB :: "bool \<Rightarrow> int \<Rightarrow> int \<Rightarrow> int" where
  "LENCICB neg type mlen =
     (if neg then CILEN_CB + (if type \<noteq> CB_CBCP \<and> type \<noteq> CB_AUTH then mlen else 0) else 0)"

lemmas lenci_defs = LENCIVOID_def LENCICHAP_def LENCISHORT_def LENCILONG_def LENCILQR_def
  LENCIMPDISCRI_def LENCIMPMRRU_def LENCIMPSHORTSEQ_def LENCICB_def

definition lcp_cilen :: "lcp_options \<Rightarrow> int" where
  "lcp_cilen go =
     LENCISHORT (l_neg_mru go)
     + LENCILONG (l_neg_asyncmap go)
     + LENCICHAP (l_neg_chap go)
     + LENCISHORT (\<not> l_neg_chap go \<and> l_neg_upap go)
     + LENCILQR (l_neg_lqr go)
     + LENCILONG (l_neg_magicnumber go)
     + LENCIVOID (l_neg_pcompression go)
     + LENCIVOID (l_neg_accompression go)
     + LENCICB (l_neg_callback go) (cb_type (l_cbopt go)) (cb_mlen (l_cbopt go))
     + LENCIMPDISCRI (l_neg_mpdiscr go) (l_mp_alen go)
     + LENCIMPMRRU (l_neg_mpmrru go)
     + LENCIMPSHORTSEQ (l_neg_mpshortseq go)"

section \<open>lcp_addci\<close>

definition ADDCIVOID :: "u8 \<Rightarrow> bool \<Rightarrow> u8 list" where
  "ADDCIVOID opt neg = (if neg then [opt, word_of_int CILEN_VOID] else [])"
definition ADDCISHORT :: "u8 \<Rightarrow> bool \<Rightarrow> u16 \<Rightarrow> u8 list" where
  "ADDCISHORT opt neg val = (if neg then [opt, word_of_int CILEN_SHORT] @ putshort val else [])"
definition ADDCICHAP :: "u8 \<Rightarrow> bool \<Rightarrow> u16 \<Rightarrow> u8 \<Rightarrow> u8 list" where
  "ADDCICHAP opt neg val digest =
     (if neg then [opt, word_of_int CILEN_CHAP] @ putshort val @ [digest] else [])"
definition ADDCILONG :: "u8 \<Rightarrow> bool \<Rightarrow> u32 \<Rightarrow> u8 list" where
  "ADDCILONG opt neg val = (if neg then [opt, word_of_int CILEN_LONG] @ putlong val else [])"
definition ADDCILQR :: "u8 \<Rightarrow> bool \<Rightarrow> u32 \<Rightarrow> u8 list" where
  "ADDCILQR opt neg val =
     (if neg then [opt, word_of_int CILEN_LQR] @ putshort PPP_LQR @ putlong val else [])"
definition ADDCIMPDISCR :: "u8 \<Rightarrow> bool \<Rightarrow> u8 \<Rightarrow> u8 list \<Rightarrow> u8 \<Rightarrow> u8 list" where
  "ADDCIMPDISCR opt neg clas aval alen =
     (if neg then [opt, word_of_int (uint alen + 3), clas] @ take (unat alen) aval else [])"
definition ADDCICB :: "u8 \<Rightarrow> bool \<Rightarrow> int \<Rightarrow> u8 list \<Rightarrow> int \<Rightarrow> u8 list" where
  "ADDCICB opt neg type aval alen =
     (if neg
      then let checklen = (if type = CB_CBCP \<or> type = CB_AUTH then 0 else alen)
           in [opt, word_of_int (checklen + 3), word_of_int type] @ take (nat checklen) aval
      else [])"

lemmas addci_defs = ADDCIVOID_def ADDCISHORT_def ADDCICHAP_def ADDCILONG_def ADDCILQR_def
  ADDCIMPDISCR_def ADDCICB_def

definition lcp_addci :: "lcp_options \<Rightarrow> u8 list" where
  "lcp_addci go = concat
     [ADDCISHORT CI_MRU (l_neg_mru go) (l_mru go),
      ADDCILONG CI_ASYNCMAP (l_neg_asyncmap go) (l_asyncmap go),
      ADDCICHAP CI_AUTHTYPE (l_neg_chap go) PPP_CHAP (l_chap_mdtype go),
      ADDCISHORT CI_AUTHTYPE (\<not> l_neg_chap go \<and> l_neg_upap go) PPP_PAP,
      ADDCILQR CI_QUALITY (l_neg_lqr go) (l_lqr_period go),
      ADDCILONG CI_MAGICNUMBER (l_neg_magicnumber go) (l_magicnumber go),
      ADDCIVOID CI_PCOMPRESSION (l_neg_pcompression go),
      ADDCIVOID CI_ACCOMPRESSION (l_neg_accompression go),
      ADDCICB CI_CALLBACK (l_neg_callback go) (cb_type (l_cbopt go)) (cb_message (l_cbopt go))
        (cb_mlen (l_cbopt go)),
      ADDCISHORT CI_MPMRRU (l_neg_mpmrru go) (l_mp_mrru go),
      ADDCIVOID CI_MPSHORTSEQ (l_neg_mpshortseq go),
      ADDCIMPDISCR CI_MPDISCRIMINATOR (l_neg_mpdiscr go) (l_mp_class go) (l_mp_addr go)
        (l_mp_alen go)]"

section \<open>lcp_ackci\<close>

fun ACKCIVOID :: "u8 \<Rightarrow> bool \<Rightarrow> cursor \<Rightarrow> cursor outcome" where
  "ACKCIVOID opt neg (p, len) =
     (if neg
      then let len = len - CILEN_VOID
           in if len < 0 then Bad else bindo (ack_head opt CILEN_VOID p) (\<lambda>p. Ok (p, len))
      else Ok (p, len))"

fun ACKCISHORT :: "u8 \<Rightarrow> bool \<Rightarrow> u16 \<Rightarrow> cursor \<Rightarrow> cursor outcome" where
  "ACKCISHORT opt neg val (p, len) =
     (if neg
      then let len = len - CILEN_SHORT
           in if len < 0 then Bad
              else bindo (ack_head opt CILEN_SHORT p) (\<lambda>p.
                   bindo (getshort p) (\<lambda>(cishort, p). if cishort \<noteq> val then Bad else Ok (p, len)))
      else Ok (p, len))"

fun ACKCICHAP :: "u8 \<Rightarrow> bool \<Rightarrow> u16 \<Rightarrow> u8 \<Rightarrow> cursor \<Rightarrow> cursor outcome" where
  "ACKCICHAP opt neg val digest (p, len) =
     (if neg
      then let len = len - CILEN_CHAP
           in if len < 0 then Bad
              else bindo (ack_head opt CILEN_CHAP p) (\<lambda>p.
                   bindo (getshort p) (\<lambda>(cishort, p).
                     if cishort \<noteq> val then Bad
                     else bindo (getchar p) (\<lambda>(cichar, p).
                            if cichar \<noteq> digest then Bad else Ok (p, len))))
      else Ok (p, len))"

fun ACKCILONG :: "u8 \<Rightarrow> bool \<Rightarrow> u32 \<Rightarrow> cursor \<Rightarrow> cursor outcome" where
  "ACKCILONG opt neg val (p, len) =
     (if neg
      then let len = len - CILEN_LONG
           in if len < 0 then Bad
              else bindo (ack_head opt CILEN_LONG p) (\<lambda>p.
                   bindo (getlong p) (\<lambda>(cilong, p). if cilong \<noteq> val then Bad else Ok (p, len)))
      else Ok (p, len))"

fun ACKCILQR :: "u8 \<Rightarrow> bool \<Rightarrow> u32 \<Rightarrow> cursor \<Rightarrow> cursor outcome" where
  "ACKCILQR opt neg val (p, len) =
     (if neg
      then let len = len - CILEN_LQR
           in if len < 0 then Bad
              else bindo (ack_head opt CILEN_LQR p) (\<lambda>p.
                   bindo (getshort p) (\<lambda>(cishort, p).
                     if cishort \<noteq> PPP_LQR then Bad
                     else bindo (getlong p) (\<lambda>(cilong, p).
                            if cilong \<noteq> val then Bad else Ok (p, len))))
      else Ok (p, len))"

text \<open>The loop over the bytes of an address or message, the \<open>i\<close> of the code counting up.\<close>

fun ack_bytes :: "u8 list \<Rightarrow> u8 list \<Rightarrow> u8 list outcome" where
  "ack_bytes [] p = Ok p"
| "ack_bytes (a # aval) p =
     bindo (getchar p) (\<lambda>(cichar, p). if cichar \<noteq> a then Bad else ack_bytes aval p)"

fun ACKCIMPDISCRI :: "u8 \<Rightarrow> bool \<Rightarrow> u8 \<Rightarrow> u8 list \<Rightarrow> u8 \<Rightarrow> cursor \<Rightarrow> cursor outcome" where
  "ACKCIMPDISCRI opt neg clas aval alen (p, len) =
     (if neg
      then let len = len - (3 + uint alen)
           in if len < 0 then Bad
              else bindo (getchar p) (\<lambda>(citype, p).
                   bindo (getchar p) (\<lambda>(cilen, p).
                   bindo (getchar p) (\<lambda>(cichar, p).
                     if uint cilen \<noteq> uint alen + 3 \<or> citype \<noteq> opt \<or> cichar \<noteq> clas then Bad
                     else bindo (ack_bytes (take (unat alen) aval) p) (\<lambda>p. Ok (p, len)))))
      else Ok (p, len))"

text \<open>\<open>checklen\<close> is computed with \<open>opt != CB_AUTH\<close>, as in the source.\<close>

fun ACKCICB :: "u8 \<Rightarrow> bool \<Rightarrow> int \<Rightarrow> u8 list \<Rightarrow> int \<Rightarrow> cursor \<Rightarrow> cursor outcome" where
  "ACKCICB opt neg type aval alen (p, len) =
     (if neg
      then let checklen = (if type \<noteq> CB_CBCP \<and> uint opt \<noteq> CB_AUTH then alen else 0);
               len = len - (3 + checklen)
           in if len < 0 then Bad
              else bindo (getchar p) (\<lambda>(citype, p).
                   bindo (getchar p) (\<lambda>(cilen, p).
                   bindo (getchar p) (\<lambda>(cichar, p).
                     if uint cilen \<noteq> checklen + 3 \<or> citype \<noteq> opt \<or> uint cichar \<noteq> type then Bad
                     else bindo (ack_bytes (take (nat checklen) aval) p) (\<lambda>p. Ok (p, len)))))
      else Ok (p, len))"

definition lcp_ackci_steps :: "lcp_options \<Rightarrow> (cursor \<Rightarrow> cursor outcome) list" where
  "lcp_ackci_steps go =
     [ACKCISHORT CI_MRU (l_neg_mru go) (l_mru go),
      ACKCILONG CI_ASYNCMAP (l_neg_asyncmap go) (l_asyncmap go),
      ACKCICHAP CI_AUTHTYPE (l_neg_chap go) PPP_CHAP (l_chap_mdtype go),
      ACKCISHORT CI_AUTHTYPE (\<not> l_neg_chap go \<and> l_neg_upap go) PPP_PAP,
      ACKCILQR CI_QUALITY (l_neg_lqr go) (l_lqr_period go),
      ACKCILONG CI_MAGICNUMBER (l_neg_magicnumber go) (l_magicnumber go),
      ACKCIVOID CI_PCOMPRESSION (l_neg_pcompression go),
      ACKCIVOID CI_ACCOMPRESSION (l_neg_accompression go),
      ACKCICB CI_CALLBACK (l_neg_callback go) (cb_type (l_cbopt go)) (cb_message (l_cbopt go))
        (cb_mlen (l_cbopt go)),
      ACKCISHORT CI_MPMRRU (l_neg_mpmrru go) (l_mp_mrru go),
      ACKCIVOID CI_MPSHORTSEQ (l_neg_mpshortseq go),
      ACKCIMPDISCRI CI_MPDISCRIMINATOR (l_neg_mpdiscr go) (l_mp_class go) (l_mp_addr go)
        (l_mp_alen go)]"

definition lcp_ackci :: "lcp_options \<Rightarrow> cursor \<Rightarrow> unit outcome" where
  "lcp_ackci go s = bindo (seqp (lcp_ackci_steps go) s) at_end"

section \<open>Every ACKCI macro accepts what its ADDCI macro puts\<close>

lemma ack_bytes_eq:
  "length aval \<le> length p \<Longrightarrow>
     ack_bytes aval p = (if take (length aval) p = aval then Ok (drop (length aval) p) else Bad)"
proof (induction aval arbitrary: p)
  case (Cons a aval)
  then obtain c q where "p = c # q" by (cases p) auto
  with Cons show ?case by simp
qed simp

lemma ack_skip [exact_intros]:
  "exact (ACKCIVOID opt False) []" "exact (ACKCISHORT opt False s) []"
  "exact (ACKCICHAP opt False s c) []" "exact (ACKCILONG opt False l) []"
  "exact (ACKCILQR opt False l) []" "exact (ACKCIMPDISCRI opt False c a n) []"
  "exact (ACKCICB opt False t a m) []"
  by (auto simp: exact_def within_def)

lemma ack_void [exact_intros]: "exact (ACKCIVOID opt neg) (ADDCIVOID opt neg)"
proof (cases neg)
  case True
  have "exact (ACKCIVOID opt True) [opt, 2]"
    by (rule exact_fixed)
      (auto simp: CILEN_VOID_def length_Suc_conv fixed_simps split: if_splits cong: if_cong)
  with True show ?thesis by (simp add: ADDCIVOID_def CILEN_VOID_def)
qed (simp add: ack_skip ADDCIVOID_def)

lemma ack_short [exact_intros]: "exact (ACKCISHORT opt neg val) (ADDCISHORT opt neg val)"
proof (cases neg)
  case True
  have "exact (ACKCISHORT opt True val) ([opt, 4] @ putshort val)"
    by (rule exact_fixed)
      (auto simp: CILEN_SHORT_def length_Suc_conv fixed_simps split: if_splits cong: if_cong)
  with True show ?thesis by (simp add: ADDCISHORT_def CILEN_SHORT_def)
qed (simp add: ack_skip ADDCISHORT_def)

lemma ack_chap [exact_intros]: "exact (ACKCICHAP opt neg val digest) (ADDCICHAP opt neg val digest)"
proof (cases neg)
  case True
  have "exact (ACKCICHAP opt True val digest) ([opt, 5] @ putshort val @ [digest])"
    by (rule exact_fixed)
      (auto simp: CILEN_CHAP_def length_Suc_conv fixed_simps split: if_splits cong: if_cong)
  with True show ?thesis by (simp add: ADDCICHAP_def CILEN_CHAP_def)
qed (simp add: ack_skip ADDCICHAP_def)

lemma ack_long [exact_intros]: "exact (ACKCILONG opt neg val) (ADDCILONG opt neg val)"
proof (cases neg)
  case True
  have "exact (ACKCILONG opt True val) ([opt, 6] @ putlong val)"
    by (rule exact_fixed)
      (auto simp: CILEN_LONG_def length_Suc_conv fixed_simps split: if_splits cong: if_cong)
  with True show ?thesis by (simp add: ADDCILONG_def CILEN_LONG_def)
qed (simp add: ack_skip ADDCILONG_def)

lemma ack_lqr [exact_intros]: "exact (ACKCILQR opt neg val) (ADDCILQR opt neg val)"
proof (cases neg)
  case True
  have "exact (ACKCILQR opt True val) ([opt, 8] @ putshort PPP_LQR @ putlong val)"
    by (rule exact_fixed)
      (auto simp: CILEN_LQR_def length_Suc_conv fixed_simps split: if_splits cong: if_cong)
  with True show ?thesis by (simp add: ADDCILQR_def CILEN_LQR_def)
qed (simp add: ack_skip ADDCILQR_def)

text \<open>The options of variable length: type, length and one byte, then \<open>n\<close> bytes of \<open>aval\<close>.\<close>

lemma length_3_more:
  "length q = Suc (Suc (Suc n)) \<longleftrightarrow> (\<exists>a b c v. q = a # b # c # v \<and> length v = n)"
  by (auto simp: length_Suc_conv)

lemma exact_var:
  assumes f: "\<And>p len. f (p, len) =
      (if len - (3 + int (length v)) < 0 then Bad
       else bindo (getchar p) (\<lambda>(a, p). bindo (getchar p) (\<lambda>(b, p). bindo (getchar p) (\<lambda>(c, p).
              if b \<noteq> x \<or> a \<noteq> opt \<or> c \<noteq> y then Bad
              else bindo (ack_bytes v p) (\<lambda>p. Ok (p, len - (3 + int (length v))))))))"
  shows "exact f ([opt, x, y] @ v)"
proof (rule exact_fixed)
  show "f (p, len) = Bad" if "len - int (length ([opt, x, y] @ v)) < 0" for p len
    using that by (simp add: f)
next
  fix q r :: "u8 list" and len
  assume "length q = length ([opt, x, y] @ v)" and len: "0 \<le> len - int (length ([opt, x, y] @ v))"
  then obtain a b c w where q: "q = a # b # c # w" and w: "length w = length v"
    by (auto simp: length_3_more)
  have "ack_bytes v (w @ r) = (if w = v then Ok r else Bad)"
    using w by (simp add: ack_bytes_eq)
  then show "f (q @ r, len) = (if q = [opt, x, y] @ v then Ok (r, len - int (length ([opt, x, y] @ v))) else Bad)"
    using len by (auto simp: f q)
qed

lemma ack_discri [exact_intros]:
  assumes "unat alen \<le> length aval" "unat alen \<le> 252"
  shows "exact (ACKCIMPDISCRI opt neg clas aval alen) (ADDCIMPDISCR opt neg clas aval alen)"
proof (cases neg)
  case True
  have n: "int (length (take (unat alen) aval)) = uint alen"
    using assms by simp
  have u: "uint alen \<le> 252"
    using assms(2) by (simp only: unat_eq_nat_uint nat_le_iff of_nat_numeral)
  have b: "uint c = uint alen + 3 \<longleftrightarrow> c = word_of_int (uint alen + 3)" for c :: u8
    using u by (intro uint_byte) simp_all
  have "exact (ACKCIMPDISCRI opt True clas aval alen)
      ([opt, word_of_int (uint alen + 3), clas] @ take (unat alen) aval)"
    by (rule exact_var) (simp only: n b ACKCIMPDISCRI.simps Let_def if_True)
  with True show ?thesis by (simp add: ADDCIMPDISCR_def)
qed (simp add: ack_skip ADDCIMPDISCR_def)

lemma ack_cb [exact_intros]:
  assumes "neg \<Longrightarrow> 0 \<le> alen \<and> alen \<le> int (length aval) \<and> alen \<le> 252"
    and "neg \<Longrightarrow> 0 \<le> type \<and> type < 256 \<and> (type = CB_AUTH \<longrightarrow> alen = 0)" and "opt \<noteq> 0"
  shows "exact (ACKCICB opt neg type aval alen) (ADDCICB opt neg type aval alen)"
proof (cases neg)
  case True
  define m where "m = (if type = CB_CBCP \<or> type = CB_AUTH then 0 else alen)"
  have m: "0 \<le> m" "m \<le> 252" "int (length (take (nat m) aval)) = m"
    using assms(1) True by (auto simp: m_def)
  have opt: "uint opt \<noteq> CB_AUTH" using assms(3) by (simp add: CB_AUTH_def uint_0_iff)
  have k: "(if type \<noteq> CB_CBCP \<and> uint opt \<noteq> CB_AUTH then alen else 0) = m"
    using assms(1,2) True opt by (auto simp: m_def)
  have b: "uint c = m + 3 \<longleftrightarrow> c = word_of_int (m + 3)" "uint c = type \<longleftrightarrow> c = word_of_int type" for c :: u8
    using m assms(2) True by (intro uint_byte; simp)+
  have "exact (ACKCICB opt True type aval alen)
      ([opt, word_of_int (m + 3), word_of_int type] @ take (nat m) aval)"
    by (rule exact_var) (simp only: m(3) b k ACKCICB.simps Let_def if_True)
  with True show ?thesis by (simp only: ADDCICB_def if_True Let_def m_def)
qed (simp add: ack_skip ADDCICB_def)

section \<open>The codec of the LCP options\<close>

text \<open>
  What configuration and negotiation keep true of the options: the discriminator address has
  the bytes \<open>mp_alen\<close> says, the callback message has \<open>mlen\<close> bytes, and neither makes an option
  longer than its length byte can say.
\<close>

definition lcp_ok :: "lcp_options \<Rightarrow> bool" where
  "lcp_ok go \<longleftrightarrow>
     unat (l_mp_alen go) \<le> length (l_mp_addr go) \<and> unat (l_mp_alen go) \<le> 252
     \<and> (l_neg_callback go \<longrightarrow>
          0 \<le> cb_mlen (l_cbopt go) \<and> cb_mlen (l_cbopt go) \<le> int (length (cb_message (l_cbopt go)))
          \<and> cb_mlen (l_cbopt go) \<le> 252
          \<and> 0 \<le> cb_type (l_cbopt go) \<and> cb_type (l_cbopt go) < 256
          \<and> (cb_type (l_cbopt go) = CB_AUTH \<longrightarrow> cb_mlen (l_cbopt go) = 0))"

lemma addci_lengths:
  "int (length (ADDCIVOID opt neg)) = LENCIVOID neg"
  "int (length (ADDCISHORT opt neg s)) = LENCISHORT neg"
  "int (length (ADDCICHAP opt neg s c)) = LENCICHAP neg"
  "int (length (ADDCILONG opt neg l)) = LENCILONG neg"
  "int (length (ADDCILQR opt neg l)) = LENCILQR neg"
  "unat n \<le> length a \<Longrightarrow> int (length (ADDCIMPDISCR opt neg c a n)) = LENCIMPDISCRI neg n"
  "(neg \<Longrightarrow> 0 \<le> m \<and> m \<le> int (length a)) \<Longrightarrow> int (length (ADDCICB opt neg t a m)) = LENCICB neg t m"
  by (auto simp: addci_defs lenci_defs cilen_defs)

lemma lcp_length_addci: "lcp_ok go \<Longrightarrow> int (length (lcp_addci go)) = lcp_cilen go"
  by (simp add: lcp_addci_def lcp_cilen_def addci_lengths lcp_ok_def)
    (simp add: lenci_defs)

lemma lcp_ackci_exact: "lcp_ok go \<Longrightarrow> exact (seqp (lcp_ackci_steps go)) (lcp_addci go)"
  unfolding lcp_ackci_steps_def lcp_addci_def lcp_ok_def
  by (rule exact_seqp)
    (auto intro!: exact_intros simp: CI_CALLBACK_def)

interpretation lcp: ci_codec lcp_ok lcp_cilen lcp_addci lcp_ackci
  by unfold_locales (auto simp: lcp_length_addci lcp_ackci_def intro: lcp_ackci_exact)

end
