(* ===== verification/Lcp_Replies.thy ===== *)
theory Lcp_Replies
  imports Lcp_Options Ci_Reject
begin

text \<open>
  The peer's Configure-Reject and Configure-Nak: the parsing parts of \<open>lcp_rejci\<close> and
  \<open>lcp_nakci\<close>. Each macro (\<open>REJCI\<dots>\<close>, \<open>NAKCI\<dots>\<close>) is a function; its \<open>neg\<close> argument, a field name
  in C, is the field of \<open>*go\<close> with an update function for \<open>try\<close> (or \<open>no\<close>).
\<close>

section \<open>lcp_rejci\<close>

type_synonym rej_state = "lcp_options \<times> cursor"

definition REJCIVOID :: "u8 \<Rightarrow> bool \<Rightarrow> (lcp_options \<Rightarrow> lcp_options) \<Rightarrow> rej_state \<Rightarrow> rej_state outcome" where
  "REJCIVOID opt neg clear = (\<lambda>(tr, p, len).
     if neg
     then bindo (ci_here CILEN_VOID opt (p, len)) (\<lambda>here.
            if here then Ok (clear tr, drop 2 p, len - CILEN_VOID) else Ok (tr, p, len))
     else Ok (tr, p, len))"

definition REJCISHORT :: "u8 \<Rightarrow> bool \<Rightarrow> (lcp_options \<Rightarrow> lcp_options) \<Rightarrow> u16 \<Rightarrow> rej_state \<Rightarrow> rej_state outcome" where
  "REJCISHORT opt neg clear val = (\<lambda>(tr, p, len).
     if neg
     then bindo (ci_here CILEN_SHORT opt (p, len)) (\<lambda>here.
            if here
            then bindo (getshort (drop 2 p)) (\<lambda>(cishort, p).
                   if cishort \<noteq> val then Bad else Ok (clear tr, p, len - CILEN_SHORT))
            else Ok (tr, p, len))
     else Ok (tr, p, len))"

definition REJCICHAP :: "u8 \<Rightarrow> bool \<Rightarrow> (lcp_options \<Rightarrow> lcp_options) \<Rightarrow> u16 \<Rightarrow> u8 \<Rightarrow> rej_state \<Rightarrow> rej_state outcome" where
  "REJCICHAP opt neg clear val digest = (\<lambda>(tr, p, len).
     if neg
     then bindo (ci_here CILEN_CHAP opt (p, len)) (\<lambda>here.
            if here
            then bindo (getshort (drop 2 p)) (\<lambda>(cishort, p).
                 bindo (getchar p) (\<lambda>(cichar, p).
                   if cishort \<noteq> val \<or> cichar \<noteq> digest then Bad
                   else Ok ((clear tr)\<lparr>l_neg_upap := False\<rparr>, p, len - CILEN_CHAP)))
            else Ok (tr, p, len))
     else Ok (tr, p, len))"

definition REJCILONG :: "u8 \<Rightarrow> bool \<Rightarrow> (lcp_options \<Rightarrow> lcp_options) \<Rightarrow> u32 \<Rightarrow> rej_state \<Rightarrow> rej_state outcome" where
  "REJCILONG opt neg clear val = (\<lambda>(tr, p, len).
     if neg
     then bindo (ci_here CILEN_LONG opt (p, len)) (\<lambda>here.
            if here
            then bindo (getlong (drop 2 p)) (\<lambda>(cilong, p).
                   if cilong \<noteq> val then Bad else Ok (clear tr, p, len - CILEN_LONG))
            else Ok (tr, p, len))
     else Ok (tr, p, len))"

definition REJCILQR :: "u8 \<Rightarrow> bool \<Rightarrow> (lcp_options \<Rightarrow> lcp_options) \<Rightarrow> u32 \<Rightarrow> rej_state \<Rightarrow> rej_state outcome" where
  "REJCILQR opt neg clear val = (\<lambda>(tr, p, len).
     if neg
     then bindo (ci_here CILEN_LQR opt (p, len)) (\<lambda>here.
            if here
            then bindo (getshort (drop 2 p)) (\<lambda>(cishort, p).
                 bindo (getlong p) (\<lambda>(cilong, p).
                   if cishort \<noteq> PPP_LQR \<or> cilong \<noteq> val then Bad
                   else Ok (clear tr, p, len - CILEN_LQR)))
            else Ok (tr, p, len))
     else Ok (tr, p, len))"

text \<open>The common form of \<open>REJCIMPDISCRI\<close> and \<open>REJCICB\<close>: one byte, then \<open>n\<close> bytes of \<open>aval\<close>.\<close>

definition rej_var :: "u8 \<Rightarrow> bool \<Rightarrow> (lcp_options \<Rightarrow> lcp_options) \<Rightarrow> int \<Rightarrow> u8 list \<Rightarrow> int \<Rightarrow> rej_state \<Rightarrow> rej_state outcome" where
  "rej_var opt neg clear first aval n = (\<lambda>(tr, p, len).
     if neg
     then bindo (ci_here (n + 3) opt (p, len)) (\<lambda>here.
            if here
            then bindo (getchar (drop 2 p)) (\<lambda>(cichar, p).
                   if uint cichar \<noteq> first then Bad
                   else bindo (ack_bytes (take (nat n) aval) p) (\<lambda>p.
                          Ok (clear tr, p, len - (n + 3))))
            else Ok (tr, p, len))
     else Ok (tr, p, len))"

definition REJCIMPDISCRI :: "u8 \<Rightarrow> bool \<Rightarrow> (lcp_options \<Rightarrow> lcp_options) \<Rightarrow> u8 \<Rightarrow> u8 list \<Rightarrow> u8 \<Rightarrow> rej_state \<Rightarrow> rej_state outcome" where
  "REJCIMPDISCRI opt neg clear clas aval alen = rej_var opt neg clear (uint clas) aval (uint alen)"

definition REJCICB :: "u8 \<Rightarrow> bool \<Rightarrow> (lcp_options \<Rightarrow> lcp_options) \<Rightarrow> int \<Rightarrow> u8 list \<Rightarrow> int \<Rightarrow> rej_state \<Rightarrow> rej_state outcome" where
  "REJCICB opt neg clear type aval alen =
     rej_var opt neg clear type aval (if type \<noteq> CB_CBCP \<and> type \<noteq> CB_AUTH then alen else 0)"

definition lcp_rejci_steps :: "lcp_options \<Rightarrow> (rej_state \<Rightarrow> rej_state outcome) list" where
  "lcp_rejci_steps go =
     [REJCISHORT CI_MRU (l_neg_mru go) (l_neg_mru_update (\<lambda>_. False)) (l_mru go),
      REJCILONG CI_ASYNCMAP (l_neg_asyncmap go) (l_neg_asyncmap_update (\<lambda>_. False)) (l_asyncmap go),
      REJCICHAP CI_AUTHTYPE (l_neg_chap go) (l_neg_chap_update (\<lambda>_. False)) PPP_CHAP (l_chap_mdtype go),
      REJCISHORT CI_AUTHTYPE (\<not> l_neg_chap go \<and> l_neg_upap go) (l_neg_upap_update (\<lambda>_. False)) PPP_PAP,
      REJCILQR CI_QUALITY (l_neg_lqr go) (l_neg_lqr_update (\<lambda>_. False)) (l_lqr_period go),
      REJCILONG CI_MAGICNUMBER (l_neg_magicnumber go) (l_neg_magicnumber_update (\<lambda>_. False))
        (l_magicnumber go),
      REJCIVOID CI_PCOMPRESSION (l_neg_pcompression go) (l_neg_pcompression_update (\<lambda>_. False)),
      REJCIVOID CI_ACCOMPRESSION (l_neg_accompression go) (l_neg_accompression_update (\<lambda>_. False)),
      REJCICB CI_CALLBACK (l_neg_callback go) (l_neg_callback_update (\<lambda>_. False))
        (cb_type (l_cbopt go)) (cb_message (l_cbopt go)) (cb_mlen (l_cbopt go)),
      REJCISHORT CI_MPMRRU (l_neg_mpmrru go) (l_neg_mpmrru_update (\<lambda>_. False)) (l_mp_mrru go),
      REJCIVOID CI_MPSHORTSEQ (l_neg_mpshortseq go) (l_neg_mpshortseq_update (\<lambda>_. False)),
      REJCIMPDISCRI CI_MPDISCRIMINATOR (l_neg_mpdiscr go) (l_neg_mpdiscr_update (\<lambda>_. False))
        (l_mp_class go) (l_mp_addr go) (l_mp_alen go)]"

text \<open>The new options \<open>try\<close> of a good Reject; \<open>Bad\<close> is the \<open>goto bad\<close>.\<close>

definition lcp_rejci_try :: "lcp_options \<Rightarrow> cursor \<Rightarrow> lcp_options outcome" where
  "lcp_rejci_try go s =
     bindo (seqp (lcp_rejci_steps go) (go, s)) (\<lambda>(tr, s). bindo (at_end s) (\<lambda>_. Ok tr))"

section \<open>lcp_nakci\<close>

text \<open>
  The locals of \<open>lcp_nakci\<close>, with \<open>*go\<close>, which it also writes; \<open>n_drawn\<close> counts the calls of
  \<open>magic()\<close>.
\<close>

record nak_state =
  n_p :: "u8 list"
  n_len :: int
  n_go :: lcp_options
  n_no :: lcp_options
  n_try :: lcp_options
  n_looped_back :: bool
  n_drawn :: nat

text \<open>The frame of the \<open>NAKCI\<close> macros; \<open>rest\<close> gets the state with \<open>len\<close> and \<open>p\<close> advanced.\<close>

definition nak_ci :: "int \<Rightarrow> u8 \<Rightarrow> (lcp_options \<Rightarrow> bool) \<Rightarrow> (nak_state \<Rightarrow> nak_state nak_result) \<Rightarrow> nak_state \<Rightarrow> nak_state nak_result" where
  "nak_ci l opt neg rest st =
     (if neg (n_go st)
      then readn st (ci_here l opt (n_p st, n_len st)) (\<lambda>here.
             if here then rest (st\<lparr>n_len := n_len st - l, n_p := drop 2 (n_p st)\<rparr>) else NakOk st)
      else NakOk st)"

definition NAKCIVOID :: "u8 \<Rightarrow> (lcp_options \<Rightarrow> bool) \<Rightarrow> (lcp_options \<Rightarrow> lcp_options) \<Rightarrow> (nak_state \<Rightarrow> nak_state) \<Rightarrow> nak_state \<Rightarrow> nak_state nak_result" where
  "NAKCIVOID opt neg seen code =
     nak_ci CILEN_VOID opt neg (\<lambda>st. NakOk (code (st\<lparr>n_no := seen (n_no st)\<rparr>)))"

definition NAKCISHORT :: "u8 \<Rightarrow> (lcp_options \<Rightarrow> bool) \<Rightarrow> (lcp_options \<Rightarrow> lcp_options) \<Rightarrow> (u16 \<Rightarrow> nak_state \<Rightarrow> nak_state) \<Rightarrow> nak_state \<Rightarrow> nak_state nak_result" where
  "NAKCISHORT opt neg seen code =
     nak_ci CILEN_SHORT opt neg (\<lambda>st. readn st (getshort (n_p st)) (\<lambda>(cishort, p).
       NakOk (code cishort (st\<lparr>n_p := p, n_no := seen (n_no st)\<rparr>))))"

definition NAKCILONG :: "u8 \<Rightarrow> (lcp_options \<Rightarrow> bool) \<Rightarrow> (lcp_options \<Rightarrow> lcp_options) \<Rightarrow> (u32 \<Rightarrow> nak_state \<Rightarrow> nak_state) \<Rightarrow> nak_state \<Rightarrow> nak_state nak_result" where
  "NAKCILONG opt neg seen code =
     nak_ci CILEN_LONG opt neg (\<lambda>st. readn st (getlong (n_p st)) (\<lambda>(cilong, p).
       NakOk (code cilong (st\<lparr>n_p := p, n_no := seen (n_no st)\<rparr>))))"

definition NAKCILQR :: "u8 \<Rightarrow> (lcp_options \<Rightarrow> bool) \<Rightarrow> (lcp_options \<Rightarrow> lcp_options) \<Rightarrow> (u16 \<Rightarrow> u32 \<Rightarrow> nak_state \<Rightarrow> nak_state) \<Rightarrow> nak_state \<Rightarrow> nak_state nak_result" where
  "NAKCILQR opt neg seen code =
     nak_ci CILEN_LQR opt neg (\<lambda>st. readn st (getshort (n_p st)) (\<lambda>(cishort, p).
       readn st (getlong p) (\<lambda>(cilong, p).
         NakOk (code cishort cilong (st\<lparr>n_p := p, n_no := seen (n_no st)\<rparr>)))))"

text \<open>\<open>GETCHAR(cichar, p)\<close>, \<open>n\<close> times.\<close>

fun skip_chars :: "nat \<Rightarrow> u8 list \<Rightarrow> u8 list outcome" where
  "skip_chars 0 p = Ok p"
| "skip_chars (Suc n) p = bindo (getchar p) (\<lambda>(cichar, p). skip_chars n p)"

definition NAKCIMPDISCRI :: "u8 \<Rightarrow> (lcp_options \<Rightarrow> bool) \<Rightarrow> (lcp_options \<Rightarrow> lcp_options) \<Rightarrow> (nak_state \<Rightarrow> nak_state) \<Rightarrow> u8 \<Rightarrow> nak_state \<Rightarrow> nak_state nak_result" where
  "NAKCIMPDISCRI opt neg seen code alen =
     nak_ci (uint alen + 3) opt neg (\<lambda>st. readn st (getchar (n_p st)) (\<lambda>(cichar, p).
       readn st (skip_chars (unat alen) p) (\<lambda>p.
         NakOk (code (st\<lparr>n_p := p, n_no := seen (n_no st)\<rparr>)))))"

text \<open>The authentication protocol. Note that a different CHAP digest changes \<open>go\<close>, not \<open>try\<close>.\<close>

definition nak_auth_proto :: "int \<Rightarrow> u16 \<Rightarrow> u8 list \<Rightarrow> nak_state \<Rightarrow> nak_state nak_result" where
  "nak_auth_proto clen cishort p st =
     (if cishort = PPP_PAP \<and> clen = CILEN_SHORT
      then if \<not> l_neg_chap (n_go st) then NakBad st
           else NakOk (st\<lparr>n_p := p, n_try := (n_try st)\<lparr>l_neg_chap := False\<rparr>\<rparr>)
      else if cishort = PPP_CHAP \<and> clen = CILEN_CHAP
      then readn st (getchar p) (\<lambda>(cichar, p).
             if l_neg_chap (n_go st)
             then NakOk (if cichar \<noteq> l_chap_mdtype (n_go st)
                         then st\<lparr>n_p := p, n_go := (n_go st)\<lparr>l_neg_chap := False\<rparr>\<rparr> else st\<lparr>n_p := p\<rparr>)
             else NakOk (st\<lparr>n_p := p, n_try := (n_try st)\<lparr>l_neg_upap := False\<rparr>\<rparr>))
      else
        NakOk (st\<lparr>n_p := drop (nat (clen - CILEN_SHORT)) p,
                  n_try := (if l_neg_chap (n_go st) then (n_try st)\<lparr>l_neg_chap := False\<rparr>
                            else (n_try st)\<lparr>l_neg_upap := False\<rparr>)\<rparr>))"

definition nak_auth :: "nak_state \<Rightarrow> nak_state nak_result" where
  "nak_auth st =
     (if (l_neg_chap (n_go st) \<or> l_neg_upap (n_go st)) \<and> n_len st \<ge> CILEN_SHORT
      then case n_p st of
        c0 # c1 # p \<Rightarrow>
          if c0 = CI_AUTHTYPE \<and> uint c1 \<ge> CILEN_SHORT \<and> uint c1 \<le> n_len st
          then
            let st = st\<lparr>n_len := n_len st - uint c1,
                        n_no := (n_no st)\<lparr>l_neg_chap := l_neg_chap (n_go st),
                                          l_neg_upap := l_neg_upap (n_go st)\<rparr>\<rparr>
            in readn st (getshort p) (\<lambda>(cishort, p). nak_auth_proto (uint c1) cishort p st)
          else NakOk st
      | _ \<Rightarrow> NakUndef
      else NakOk st)"

text \<open>The fallback to another callback type: the value of \<open>try.neg_callback\<close>.\<close>

definition nak_callback_neg :: "callback_opts \<Rightarrow> int \<Rightarrow> bool" where
  "nak_callback_neg wcb ty =
     (if ty = CB_AUTH
      then cb_neg_rfc wcb \<and> (cb_type wcb = CB_AUTH \<or> cb_type wcb = CB_CBCP \<and> cb_mlen wcb = 0)
      else if ty = CB_PHONENO
      then cb_neg_rfc wcb \<and> (cb_type wcb = CB_PHONENO \<or> cb_type wcb = CB_CBCP \<and> cb_mlen wcb \<noteq> 0)
      else if ty = CB_CBCP then cb_neg_cbcp wcb
      else if ty \<in> {CB_DIALSTRING, CB_LOCATIONID, CB_NAME}
      then cb_neg_rfc wcb \<and> cb_mlen wcb \<noteq> 0 \<and> cb_type wcb = ty
      else False)"

definition nak_callback_try :: "callback_opts \<Rightarrow> int \<Rightarrow> lcp_options \<Rightarrow> lcp_options" where
  "nak_callback_try wcb ty tr =
     (if nak_callback_neg wcb ty
      then let cb = (l_cbopt tr)\<lparr>cb_type := ty\<rparr>;
               cb = (if ty \<noteq> CB_AUTH \<and> ty \<noteq> CB_CBCP
                     then cb\<lparr>cb_mlen := cb_mlen wcb, cb_message := cb_message wcb\<rparr> else cb)
           in tr\<lparr>l_neg_callback := True, l_cbopt := cb\<rparr>
      else tr\<lparr>l_neg_callback := False\<rparr>)"

definition nak_callback :: "callback_opts \<Rightarrow> nak_state \<Rightarrow> nak_state nak_result" where
  "nak_callback wcb st =
     (if l_neg_callback (n_go st) \<and> n_len st \<ge> CILEN_CB
      then case n_p st of
        c0 # c1 # p \<Rightarrow>
          if c0 = CI_CALLBACK \<and> uint c1 \<ge> CILEN_CB \<and> uint c1 \<le> n_len st
          then
            let mlen = uint c1 - CILEN_CB;
                st = st\<lparr>n_len := n_len st - (mlen + CILEN_CB)\<rparr>
            in readn st (getchar p) (\<lambda>(ty, p).
               readn st (skip_chars (nat mlen) p) (\<lambda>p.
                 NakOk (st\<lparr>n_p := p, n_no := (n_no st)\<lparr>l_neg_callback := True\<rparr>,
                           n_try := nak_callback_try wcb (uint ty) (n_try st)\<rparr>)))
          else NakOk st
      | _ \<Rightarrow> NakUndef
      else NakOk st)"

text \<open>
  The steps in the order of the source. \<open>wo\<close> is \<open>*wo\<close>, \<open>mg\<close> the value \<open>magic()\<close> returns.
\<close>

definition lcp_nakci_steps :: "lcp_options \<Rightarrow> u32 \<Rightarrow> u8 \<Rightarrow> (nak_state \<Rightarrow> nak_state nak_result) list" where
  "lcp_nakci_steps wo mg alen =
     [NAKCISHORT CI_MRU l_neg_mru (l_neg_mru_update (\<lambda>_. True))
        (\<lambda>cishort st. if cishort \<le> l_mru wo \<or> cishort < DEFMRU
                      then st\<lparr>n_try := (n_try st)\<lparr>l_mru := cishort\<rparr>\<rparr> else st),
      NAKCILONG CI_ASYNCMAP l_neg_asyncmap (l_neg_asyncmap_update (\<lambda>_. True))
        (\<lambda>cilong st. st\<lparr>n_try := (n_try st)\<lparr>l_asyncmap := l_asyncmap (n_go st) OR cilong\<rparr>\<rparr>),
      nak_auth,
      NAKCILQR CI_QUALITY l_neg_lqr (l_neg_lqr_update (\<lambda>_. True))
        (\<lambda>cishort cilong st. if cishort \<noteq> PPP_LQR
                             then st\<lparr>n_try := (n_try st)\<lparr>l_neg_lqr := False\<rparr>\<rparr>
                             else st\<lparr>n_try := (n_try st)\<lparr>l_lqr_period := cilong\<rparr>\<rparr>),
      nak_callback (l_cbopt wo),
      NAKCILONG CI_MAGICNUMBER l_neg_magicnumber (l_neg_magicnumber_update (\<lambda>_. True))
        (\<lambda>cilong st. st\<lparr>n_try := (n_try st)\<lparr>l_magicnumber := mg\<rparr>, n_looped_back := True,
                        n_drawn := n_drawn st + 1\<rparr>),
      NAKCIVOID CI_PCOMPRESSION l_neg_pcompression (l_neg_pcompression_update (\<lambda>_. True))
        (\<lambda>st. st\<lparr>n_try := (n_try st)\<lparr>l_neg_pcompression := False\<rparr>\<rparr>),
      NAKCIVOID CI_ACCOMPRESSION l_neg_accompression (l_neg_accompression_update (\<lambda>_. True))
        (\<lambda>st. st\<lparr>n_try := (n_try st)\<lparr>l_neg_accompression := False\<rparr>\<rparr>),
      NAKCISHORT CI_MPMRRU l_neg_mpmrru (l_neg_mpmrru_update (\<lambda>_. True))
        (\<lambda>cishort st. st\<lparr>n_try := (n_try st)\<lparr>l_mp_mrru := cishort\<rparr>\<rparr>),
      NAKCIVOID CI_MPSHORTSEQ l_neg_mpshortseq (l_neg_mpshortseq_update (\<lambda>_. True))
        (\<lambda>st. st\<lparr>n_try := (n_try st)\<lparr>l_neg_mpshortseq := False\<rparr>\<rparr>),
      NAKCIMPDISCRI CI_MPDISCRIMINATOR l_neg_mpdiscr (l_neg_mpdiscr_update (\<lambda>_. True))
        (\<lambda>st. st\<lparr>n_try := (n_try st)\<lparr>l_neg_mpdiscr := False\<rparr>\<rparr>) alen]"

text \<open>
  The \<open>switch\<close> on an option the peer added: the cases that are \<open>goto bad\<close>.
\<close>

definition nak_extra_bad :: "u8 \<Rightarrow> int \<Rightarrow> lcp_options \<Rightarrow> lcp_options \<Rightarrow> bool" where
  "nak_extra_bad citype clen go no =
     (if citype = CI_MRU then l_neg_mru go \<or> l_neg_mru no \<or> clen \<noteq> CILEN_SHORT
      else if citype = CI_ASYNCMAP then l_neg_asyncmap go \<or> l_neg_asyncmap no \<or> clen \<noteq> CILEN_LONG
      else if citype = CI_AUTHTYPE
      then l_neg_chap go \<or> l_neg_chap no \<or> l_neg_upap go \<or> l_neg_upap no
      else if citype = CI_CALLBACK then l_neg_callback go \<or> l_neg_callback no
      else if citype = CI_MAGICNUMBER
      then l_neg_magicnumber go \<or> l_neg_magicnumber no \<or> clen \<noteq> CILEN_LONG
      else if citype = CI_PCOMPRESSION
      then l_neg_pcompression go \<or> l_neg_pcompression no \<or> clen \<noteq> CILEN_VOID
      else if citype = CI_ACCOMPRESSION
      then l_neg_accompression go \<or> l_neg_accompression no \<or> clen \<noteq> CILEN_VOID
      else if citype = CI_QUALITY then l_neg_lqr go \<or> l_neg_lqr no \<or> clen \<noteq> CILEN_LQR
      else False)"

function lcp_nak_extra :: "nak_state \<Rightarrow> nak_state nak_result" where
  "lcp_nak_extra st =
     (if n_len st > CILEN_VOID
      then case n_p st of
        citype # c1 # p \<Rightarrow>
          let cilen = uint c1; len = n_len st - cilen
          in if cilen < CILEN_VOID \<or> len < 0 then NakBad st
             else if nak_extra_bad citype cilen (n_go st) (n_no st) then NakBad st
             else
               let st = st\<lparr>n_len := len, n_p := drop (nat (cilen - 2)) p\<rparr>
               in if citype = CI_MRU
                  then readn st (getshort p) (\<lambda>(cishort, _).
                         lcp_nak_extra (if cishort < DEFMRU
                                        then st\<lparr>n_try := (n_try st)\<lparr>l_mru := cishort\<rparr>\<rparr> else st))
                  else lcp_nak_extra st
      | _ \<Rightarrow> NakUndef
      else NakOk st)"
  by pat_completeness auto
termination
  by (relation "measure (\<lambda>st. nat (n_len st))") (auto simp: CILEN_VOID_def split: if_splits)

declare lcp_nak_extra.simps [simp del]

definition nak_end :: "nak_state \<Rightarrow> nak_state nak_result" where
  "nak_end st = (if n_len st \<noteq> 0 then NakBad st else NakOk st)"

definition lcp_nakci_parse :: "lcp_options \<Rightarrow> lcp_options \<Rightarrow> u32 \<Rightarrow> cursor \<Rightarrow> nak_state nak_result" where
  "lcp_nakci_parse go wo mg s =
     seqn (lcp_nakci_steps wo mg (l_mp_alen go) @ [lcp_nak_extra, nak_end])
       \<lparr>n_p = fst s, n_len = snd s, n_go = go, n_no = zero_lcp_options, n_try = go,
        n_looped_back = False, n_drawn = 0\<rparr>"

section \<open>A good Reject\<close>

lemmas rejci_defs = REJCIVOID_def REJCISHORT_def REJCICHAP_def REJCILONG_def REJCILQR_def

lemma rejects_void: "rejects 0 (REJCIVOID opt neg clear) neg (ADDCIVOID opt True) clear"
proof (cases neg)
  case True
  then show ?thesis
    by (intro rejects_body [where n = 2 and opt = opt])
      (auto simp: rejci_defs addci_defs CILEN_VOID_def)
qed (simp add: rejects_skip rejci_defs)

lemma rejects_short: "rejects 0 (REJCISHORT opt neg clear val) neg (ADDCISHORT opt True val) clear"
proof (cases neg)
  case True
  then show ?thesis
    by (intro rejects_body [where n = 4 and opt = opt])
      (auto simp: rejci_defs addci_defs CILEN_SHORT_def length_Suc_conv fixed_simps split: if_splits)
qed (simp add: rejects_skip rejci_defs)

lemma rejects_chap:
  "rejects 0 (REJCICHAP opt neg clear val digest) neg (ADDCICHAP opt True val digest)
     (\<lambda>t. (clear t)\<lparr>l_neg_upap := False\<rparr>)"
proof (cases neg)
  case True
  then show ?thesis
    by (intro rejects_body [where n = 5 and opt = opt])
      (auto simp: rejci_defs addci_defs CILEN_CHAP_def length_Suc_conv fixed_simps split: if_splits)
qed (simp add: rejects_skip rejci_defs)

lemma rejects_long: "rejects 0 (REJCILONG opt neg clear val) neg (ADDCILONG opt True val) clear"
proof (cases neg)
  case True
  then show ?thesis
    by (intro rejects_body [where n = 6 and opt = opt])
      (auto simp: rejci_defs addci_defs CILEN_LONG_def length_Suc_conv fixed_simps split: if_splits)
qed (simp add: rejects_skip rejci_defs)

lemma rejects_lqr: "rejects 0 (REJCILQR opt neg clear val) neg (ADDCILQR opt True val) clear"
proof (cases neg)
  case True
  then show ?thesis
    by (intro rejects_body [where n = 8 and opt = opt])
      (auto simp: rejci_defs addci_defs CILEN_LQR_def length_Suc_conv fixed_simps split: if_splits)
qed (simp add: rejects_skip rejci_defs)

lemma rejects_var:
  assumes "neg \<Longrightarrow> 0 \<le> n \<and> n \<le> 252 \<and> n \<le> int (length aval) \<and> 0 \<le> first \<and> first < 256"
  shows "rejects 0 (rej_var opt neg clear first aval n) neg
    ([opt, word_of_int (n + 3), word_of_int first] @ take (nat n) aval) clear"
proof (cases neg)
  case True
  have b: "uint c = first \<longleftrightarrow> c = word_of_int first" for c :: u8
    using assms True by (intro uint_byte) simp_all
  have len: "length (take (nat n) aval) = nat n" using assms True by auto
  show ?thesis
  proof (rule rejects_body [where n = "n + 3" and opt = opt])
    fix tr and v r :: "u8 list" and len assume "length v = length (drop 2 ([opt, word_of_int (n + 3), word_of_int first] @ take (nat n) aval))"
    then obtain c w where v: "v = c # w" "length w = nat n" using len by (cases v) auto
    have "ack_bytes (take (nat n) aval) (w @ r) = (if w = take (nat n) aval then Ok r else Bad)"
      using len v(2) by (simp add: ack_bytes_eq)
    then show "(bindo (getchar (drop 2 (opt # word_of_int (n + 3) # v @ r))) (\<lambda>(cichar, p).
        if uint cichar \<noteq> first then Bad
        else bindo (ack_bytes (take (nat n) aval) p) (\<lambda>p. Ok (clear tr, p, len - (n + 3)))))
      = (if v = drop 2 ([opt, word_of_int (n + 3), word_of_int first] @ take (nat n) aval)
         then Ok (clear tr, r, len - (n + 3)) else Bad)"
      by (auto simp: v b)
  qed (use True assms len in \<open>simp_all add: rej_var_def\<close>)
qed (simp add: rejects_skip rej_var_def)

lemma rejects_discri:
  assumes "unat alen \<le> length aval" "unat alen \<le> 252"
  shows "rejects 0 (REJCIMPDISCRI opt neg clear clas aval alen) neg (ADDCIMPDISCR opt True clas aval alen) clear"
proof -
  have "int (unat alen) \<le> int 252" "int (unat alen) \<le> int (length aval)"
    using assms by (simp_all only: of_nat_le_iff)
  then have "0 \<le> uint alen \<and> uint alen \<le> 252 \<and> uint alen \<le> int (length aval) \<and> 0 \<le> uint clas \<and> uint clas < 256"
    using uint_lt2p [of clas] by simp
  from rejects_var [OF this] show ?thesis
    by (simp add: REJCIMPDISCRI_def ADDCIMPDISCR_def)
qed

lemma rejects_cb:
  assumes "neg \<Longrightarrow> 0 \<le> alen \<and> alen \<le> int (length aval) \<and> alen \<le> 252 \<and> 0 \<le> type \<and> type < 256"
  shows "rejects 0 (REJCICB opt neg clear type aval alen) neg (ADDCICB opt True type aval alen) clear"
proof -
  define n where "n = (if type \<noteq> CB_CBCP \<and> type \<noteq> CB_AUTH then alen else 0)"
  have "0 \<le> n \<and> n \<le> 252 \<and> n \<le> int (length aval) \<and> 0 \<le> type \<and> type < 256" if neg
    using assms that by (auto simp: n_def)
  from rejects_var [OF this]
  have "rejects 0 (REJCICB opt neg clear type aval alen) neg
      ([opt, word_of_int (n + 3), word_of_int type] @ take (nat n) aval) clear"
    by (simp add: REJCICB_def n_def)
  moreover have "(if type = CB_CBCP \<or> type = CB_AUTH then 0 else alen) = n" by (simp add: n_def)
  ultimately show ?thesis by (simp only: ADDCICB_def if_True Let_def)
qed

text \<open>The table of the twelve steps.\<close>

definition rej_table :: "lcp_options \<Rightarrow> lcp_options rej_entry list" where
  "rej_table go = zip (lcp_rejci_steps go)
     [(l_neg_mru go, ADDCISHORT CI_MRU True (l_mru go), l_neg_mru_update (\<lambda>_. False)),
      (l_neg_asyncmap go, ADDCILONG CI_ASYNCMAP True (l_asyncmap go), l_neg_asyncmap_update (\<lambda>_. False)),
      (l_neg_chap go, ADDCICHAP CI_AUTHTYPE True PPP_CHAP (l_chap_mdtype go),
       \<lambda>t. (l_neg_chap_update (\<lambda>_. False) t)\<lparr>l_neg_upap := False\<rparr>),
      (\<not> l_neg_chap go \<and> l_neg_upap go, ADDCISHORT CI_AUTHTYPE True PPP_PAP, l_neg_upap_update (\<lambda>_. False)),
      (l_neg_lqr go, ADDCILQR CI_QUALITY True (l_lqr_period go), l_neg_lqr_update (\<lambda>_. False)),
      (l_neg_magicnumber go, ADDCILONG CI_MAGICNUMBER True (l_magicnumber go),
       l_neg_magicnumber_update (\<lambda>_. False)),
      (l_neg_pcompression go, ADDCIVOID CI_PCOMPRESSION True, l_neg_pcompression_update (\<lambda>_. False)),
      (l_neg_accompression go, ADDCIVOID CI_ACCOMPRESSION True, l_neg_accompression_update (\<lambda>_. False)),
      (l_neg_callback go, ADDCICB CI_CALLBACK True (cb_type (l_cbopt go)) (cb_message (l_cbopt go))
         (cb_mlen (l_cbopt go)), l_neg_callback_update (\<lambda>_. False)),
      (l_neg_mpmrru go, ADDCISHORT CI_MPMRRU True (l_mp_mrru go), l_neg_mpmrru_update (\<lambda>_. False)),
      (l_neg_mpshortseq go, ADDCIVOID CI_MPSHORTSEQ True, l_neg_mpshortseq_update (\<lambda>_. False)),
      (l_neg_mpdiscr go, ADDCIMPDISCR CI_MPDISCRIMINATOR True (l_mp_class go) (l_mp_addr go)
         (l_mp_alen go), l_neg_mpdiscr_update (\<lambda>_. False))]"

lemma rej_table_fst: "map fst (rej_table go) = lcp_rejci_steps go"
  by (simp add: rej_table_def lcp_rejci_steps_def)

lemma rej_table_rejects: "lcp_ok go \<Longrightarrow> list_all (\<lambda>(f, neg, e, clear). rejects 0 f neg e clear) (rej_table go)"
  by (auto simp: rej_table_def lcp_rejci_steps_def lcp_ok_def rejects_short rejects_long rejects_chap
      rejects_lqr rejects_void rejects_cb rejects_discri)

lemma if_clear:
  "(if b then x\<lparr>l_neg_mru := False\<rparr> else x) = x\<lparr>l_neg_mru := l_neg_mru x \<and> \<not> b\<rparr>"
  "(if b then x\<lparr>l_neg_asyncmap := False\<rparr> else x) = x\<lparr>l_neg_asyncmap := l_neg_asyncmap x \<and> \<not> b\<rparr>"
  "(if b then x\<lparr>l_neg_upap := False\<rparr> else x) = x\<lparr>l_neg_upap := l_neg_upap x \<and> \<not> b\<rparr>"
  "(if b then x\<lparr>l_neg_lqr := False\<rparr> else x) = x\<lparr>l_neg_lqr := l_neg_lqr x \<and> \<not> b\<rparr>"
  "(if b then x\<lparr>l_neg_magicnumber := False\<rparr> else x) = x\<lparr>l_neg_magicnumber := l_neg_magicnumber x \<and> \<not> b\<rparr>"
  "(if b then x\<lparr>l_neg_pcompression := False\<rparr> else x) = x\<lparr>l_neg_pcompression := l_neg_pcompression x \<and> \<not> b\<rparr>"
  "(if b then x\<lparr>l_neg_accompression := False\<rparr> else x) = x\<lparr>l_neg_accompression := l_neg_accompression x \<and> \<not> b\<rparr>"
  "(if b then x\<lparr>l_neg_callback := False\<rparr> else x) = x\<lparr>l_neg_callback := l_neg_callback x \<and> \<not> b\<rparr>"
  "(if b then x\<lparr>l_neg_mpmrru := False\<rparr> else x) = x\<lparr>l_neg_mpmrru := l_neg_mpmrru x \<and> \<not> b\<rparr>"
  "(if b then x\<lparr>l_neg_mpshortseq := False\<rparr> else x) = x\<lparr>l_neg_mpshortseq := l_neg_mpshortseq x \<and> \<not> b\<rparr>"
  "(if b then x\<lparr>l_neg_mpdiscr := False\<rparr> else x) = x\<lparr>l_neg_mpdiscr := l_neg_mpdiscr x \<and> \<not> b\<rparr>"
  "(if b then x\<lparr>l_neg_chap := False, l_neg_upap := False\<rparr> else x)
     = x\<lparr>l_neg_chap := l_neg_chap x \<and> \<not> b, l_neg_upap := l_neg_upap x \<and> \<not> b\<rparr>"
  by simp_all

text \<open>What the clearing of options leaves alone.\<close>

definition same_values :: "lcp_options \<Rightarrow> lcp_options \<Rightarrow> bool" where
  "same_values a b \<longleftrightarrow> l_mru a = l_mru b \<and> l_asyncmap a = l_asyncmap b
     \<and> l_chap_mdtype a = l_chap_mdtype b \<and> l_lqr_period a = l_lqr_period b
     \<and> l_magicnumber a = l_magicnumber b \<and> l_cbopt a = l_cbopt b \<and> l_mp_mrru a = l_mp_mrru b
     \<and> l_mp_class a = l_mp_class b \<and> l_mp_addr a = l_mp_addr b \<and> l_mp_alen a = l_mp_alen b"

lemma same_values_trans: "same_values a b \<Longrightarrow> same_values b c \<Longrightarrow> same_values a c"
  by (simp add: same_values_def)

lemma reject_with_same:
  "list_all (\<lambda>(f, neg, e, clear). \<forall>t. same_values (clear t) t) ts \<Longrightarrow> same_values (reject_with bs ts tr) tr"
proof (induction bs ts tr rule: reject_with.induct)
  case (1 b bs f neg e clear ts tr)
  then have "same_values (reject_with bs ts (if b then clear tr else tr)) (if b then clear tr else tr)"
    "same_values (if b then clear tr else tr) tr"
    by (simp_all add: same_values_def)
  then show ?case by (auto intro: same_values_trans)
qed (simp_all add: same_values_def)

lemma same_values_reject: "same_values (reject_with bs (rej_table go) go) go"
  by (rule reject_with_same) (simp add: rej_table_def lcp_rejci_steps_def same_values_def)

lemma lcp_addci_pieces:
  "lcp_addci go = concat (map (\<lambda>(f, neg, e, clear). if neg then e else []) (rej_table go))"
  by (simp add: lcp_addci_def rej_table_def lcp_rejci_steps_def addci_defs)

lemma length_12: "length bs = 12 \<longleftrightarrow> (\<exists>a b c d e f g h i j k l. bs = [a, b, c, d, e, f, g, h, i, j, k, l])"
  by (auto simp: numeral_eq_Suc length_Suc_conv)

lemma length_rej_table: "length (rej_table go) = 12"
  by (simp add: rej_table_def lcp_rejci_steps_def)

text \<open>The flags after the clearing: an option is still requested if it was and is not taken.\<close>

lemma reject_with_negs:
  assumes "list_all2 (\<lambda>b (f, neg, e, clear). b \<longrightarrow> neg) bs (rej_table go)"
  shows "map (\<lambda>(f, neg, e, clear). neg) (rej_table (reject_with bs (rej_table go) go))
       = map2 (\<lambda>b (f, neg, e, clear). neg \<and> \<not> b) bs (rej_table go)"
proof -
  have "length bs = 12"
    using assms length_rej_table by (metis list_all2_lengthD)
  then obtain a b c d e f g h i j k l where "bs = [a, b, c, d, e, f, g, h, i, j, k, l]"
    by (auto simp: length_12)
  then show ?thesis
    using assms
    by (simp add: rej_table_def lcp_rejci_steps_def if_clear) blast
qed

lemma reject_with_callback:
  assumes "list_all2 (\<lambda>b (f, neg, e, clear). b \<longrightarrow> neg) bs (rej_table go)"
  shows "l_neg_callback (reject_with bs (rej_table go) go) \<longrightarrow> l_neg_callback go"
proof -
  have "map (\<lambda>(f, neg, e, clear). neg) (rej_table (reject_with bs (rej_table go) go)) ! 8
      = map2 (\<lambda>b (f, neg, e, clear). neg \<and> \<not> b) bs (rej_table go) ! 8"
    by (simp only: reject_with_negs [OF assms])
  moreover have "length bs = 12" using list_all2_lengthD [OF assms] by (simp add: length_rej_table)
  ultimately show ?thesis
    by (simp add: length_rej_table) (simp add: rej_table_def lcp_rejci_steps_def)
qed

lemma rej_table_values:
  "same_values a b \<Longrightarrow> map (\<lambda>(f, neg, e, clear). e) (rej_table a) = map (\<lambda>(f, neg, e, clear). e) (rej_table b)"
  by (simp add: rej_table_def lcp_rejci_steps_def same_values_def)

theorem lcp_rejci_shuffle:
  assumes ok: "lcp_ok go" and w: "room 0 (p, len)" and r: "lcp_rejci_try go (p, len) = Ok tr"
  shows "lcp_addci go \<in> shuffles (take (nat len) p) (lcp_addci tr) \<and> same_values tr go \<and> lcp_ok tr"
proof -
  obtain p' where s: "seqp (lcp_rejci_steps go) (go, p, len) = Ok (tr, p', 0)"
    using r by (auto simp: lcp_rejci_try_def bindo_Ok_iff split: if_splits)
  from seqp_rejects [OF rej_table_rejects [OF ok] w, of go] obtain bs where
    bs: "list_all2 (\<lambda>b (f, neg, e, clear). b \<longrightarrow> neg) bs (rej_table go)"
    and tr: "tr = reject_with bs (rej_table go) go"
    and t: "take (nat len) p = taken bs (map (\<lambda>(f, neg, e, clear). e) (rej_table go))"
    by (auto simp: rej_table_fst s)
  have same: "same_values tr go" by (simp add: tr same_values_reject)
  have len: "length bs = length (rej_table go)" using bs by (rule list_all2_lengthD)
  note m = map_entry_eq [OF rej_table_values [OF same] _ len bs]
  have "lcp_addci tr = taken (map Not bs) (map (\<lambda>(f, neg, e, clear). if neg then e else []) (rej_table go))"
    "take (nat len) p = taken bs (map (\<lambda>(f, neg, e, clear). if neg then e else []) (rej_table go))"
    using m reject_with_negs [OF bs] by (simp_all add: lcp_addci_pieces tr t)
  moreover have "l_neg_callback tr \<longrightarrow> l_neg_callback go"
    using reject_with_callback [OF bs] by (simp add: tr)
  then have "lcp_ok tr" using ok same by (simp add: lcp_ok_def same_values_def)
  ultimately show ?thesis
    using same len by (simp add: lcp_addci_pieces [of go] taken_shuffles)
qed

lemma lcp_rejci_defined:
  assumes "lcp_ok go" "room 0 (p, len)"
  shows "lcp_rejci_try go (p, len) \<noteq> Undef"
  using seqp_rejects [OF rej_table_rejects [OF assms(1)] assms(2), of go]
  by (cases "seqp (lcp_rejci_steps go) (go, p, len)")
    (auto simp: lcp_rejci_try_def rej_table_fst split: if_splits)

interpretation lcpr: ci_reject lcp_ok lcp_cilen lcp_addci lcp_ackci lcp_rejci_try 0
  by unfold_locales (use lcp_rejci_shuffle lcp_rejci_defined in auto)

section \<open>A Nak\<close>

text \<open>
  \<open>asks_less tr go\<close>: \<open>tr\<close> requests no option that \<open>go\<close> does not request, and maps at least the
  characters \<open>go\<close> maps.
\<close>

definition asks_less :: "lcp_options \<Rightarrow> lcp_options \<Rightarrow> bool" where
  "asks_less tr go \<longleftrightarrow>
     (l_neg_mru tr \<longrightarrow> l_neg_mru go) \<and> (l_neg_asyncmap tr \<longrightarrow> l_neg_asyncmap go)
     \<and> (l_neg_upap tr \<longrightarrow> l_neg_upap go) \<and> (l_neg_chap tr \<longrightarrow> l_neg_chap go)
     \<and> (l_neg_magicnumber tr \<longrightarrow> l_neg_magicnumber go)
     \<and> (l_neg_pcompression tr \<longrightarrow> l_neg_pcompression go)
     \<and> (l_neg_accompression tr \<longrightarrow> l_neg_accompression go) \<and> (l_neg_lqr tr \<longrightarrow> l_neg_lqr go)
     \<and> (l_neg_mpshortseq tr \<longrightarrow> l_neg_mpshortseq go) \<and> (l_neg_mpdiscr tr \<longrightarrow> l_neg_mpdiscr go)
     \<and> (l_neg_mpmrru tr \<longrightarrow> l_neg_mpmrru go) \<and> (l_neg_callback tr \<longrightarrow> l_neg_callback go)
     \<and> l_asyncmap go AND NOT (l_asyncmap tr) = 0"

lemma asks_less_refl: "asks_less go go"
  by (simp add: asks_less_def)

text \<open>
  The callback options of \<open>go\<close> come from the configured ones: only the type can differ.
\<close>

definition cb_ok :: "callback_opts \<Rightarrow> lcp_options \<Rightarrow> bool" where
  "cb_ok wcb go \<longleftrightarrow>
     0 \<le> cb_mlen wcb \<and> cb_mlen wcb \<le> int (length (cb_message wcb)) \<and> cb_mlen wcb \<le> 252
     \<and> (cb_type wcb = CB_AUTH \<longrightarrow> cb_mlen wcb = 0)
     \<and> cb_mlen (l_cbopt go) = cb_mlen wcb \<and> cb_message (l_cbopt go) = cb_message wcb
     \<and> (l_neg_callback go \<longrightarrow> 0 \<le> cb_type (l_cbopt go) \<and> cb_type (l_cbopt go) < 256
          \<and> (cb_type (l_cbopt go) = CB_AUTH \<longrightarrow> cb_mlen wcb = 0))"

text \<open>What holds all the time between \<open>try\<close>, \<open>*go\<close> and the options at the start.\<close>

definition nak_inv :: "lcp_options \<Rightarrow> lcp_options \<Rightarrow> nak_state \<Rightarrow> bool" where
  "nak_inv go wo st \<longleftrightarrow>
     (n_go st = go \<or> l_neg_chap go \<and> n_go st = go\<lparr>l_neg_chap := False\<rparr>)
     \<and> asks_less (n_try st) go
     \<and> (l_mru (n_try st) \<le> l_mru go \<or> l_mru (n_try st) \<le> l_mru wo \<or> l_mru (n_try st) < DEFMRU)
     \<and> l_mp_addr (n_try st) = l_mp_addr go \<and> l_mp_alen (n_try st) = l_mp_alen go
     \<and> cb_ok (l_cbopt wo) (n_try st)"

lemma nak_inv_ok: "nak_inv go wo st \<Longrightarrow> lcp_ok go \<Longrightarrow> lcp_ok (n_try st)"
  by (auto simp: nak_inv_def lcp_ok_def cb_ok_def)

definition nak_run :: "lcp_options \<Rightarrow> lcp_options \<Rightarrow> nak_state \<Rightarrow> bool" where
  "nak_run go wo st \<longleftrightarrow> within (n_p st, n_len st) \<and> nak_inv go wo st"

lemma holds_nak_ci:
  assumes "2 \<le> l" "l < 256"
    and rest: "\<And>st c0 c1 q r. nak_inv go wo st \<Longrightarrow> neg (n_go st) \<Longrightarrow> n_p st = q @ r \<Longrightarrow>
        int (length q) = l - 2 \<Longrightarrow> within (r, n_len st) \<Longrightarrow>
        (case rest st of NakUndef \<Rightarrow> False | NakBad s' \<Rightarrow> nak_inv go wo s' | NakOk s' \<Rightarrow> nak_run go wo s')"
  shows "holdsn (nak_run go wo) (nak_inv go wo) (nak_ci l opt neg rest)"
  unfolding holdsn_def
proof (intro allI impI)
  fix st assume run: "nak_run go wo st"
  then have w: "within (n_p st, n_len st)" and inv: "nak_inv go wo st" by (simp_all add: nak_run_def)
  obtain here where h: "ci_here l opt (n_p st, n_len st) = Ok here"
    using ci_here_defined [OF assms(1) w] by blast
  show "case nak_ci l opt neg rest st of NakUndef \<Rightarrow> False | NakBad s' \<Rightarrow> nak_inv go wo s' | NakOk s' \<Rightarrow> nak_run go wo s'"
  proof (cases "neg (n_go st) \<and> here")
    case True
    then have le: "l \<le> n_len st" using ci_here_iff [OF w assms(1,2)] h by auto
    let ?q = "take (nat (l - 2)) (drop 2 (n_p st))" and ?r = "drop (nat l) (n_p st)"
    have split: "drop 2 (n_p st) = ?q @ ?r"
      using assms(1) by (metis append_take_drop_id drop_drop diff_add_cancel nat_add_distrib nat_numeral
          diff_ge_0_iff_ge zero_le_numeral)
    have "int (length ?q) = l - 2" "within (?r, n_len st - l)"
      using w le assms(1) within_drop [OF w, of "nat l"] by (auto simp: within_def)
    moreover have "nak_inv go wo (st\<lparr>n_len := n_len st - l, n_p := drop 2 (n_p st)\<rparr>)"
      using inv by (simp add: nak_inv_def)
    ultimately show ?thesis
      using rest [of "st\<lparr>n_len := n_len st - l, n_p := drop 2 (n_p st)\<rparr>" ?q ?r] True h split
      by (simp add: nak_ci_def)
  next
    case False
    with h run show ?thesis by (auto simp: nak_ci_def)
  qed
qed

lemma nak_inv_frame [simp]:
  "nak_inv go wo (st\<lparr>n_p := p\<rparr>) = nak_inv go wo st"
  "nak_inv go wo (st\<lparr>n_len := len\<rparr>) = nak_inv go wo st"
  "nak_inv go wo (st\<lparr>n_no := no\<rparr>) = nak_inv go wo st"
  "nak_inv go wo (st\<lparr>n_p := p, n_no := no\<rparr>) = nak_inv go wo st"
  "nak_inv go wo (st\<lparr>n_len := len, n_p := p\<rparr>) = nak_inv go wo st"
  "nak_inv go wo (st\<lparr>n_len := len, n_no := no\<rparr>) = nak_inv go wo st"
  "nak_inv go wo (st\<lparr>n_p := p, n_try := t\<rparr>) = nak_inv go wo (st\<lparr>n_try := t\<rparr>)"
  "nak_inv go wo (st\<lparr>n_p := p, n_go := t\<rparr>) = nak_inv go wo (st\<lparr>n_go := t\<rparr>)"
  by (simp_all add: nak_inv_def)

definition code_keeps :: "lcp_options \<Rightarrow> lcp_options \<Rightarrow> (nak_state \<Rightarrow> nak_state) \<Rightarrow> bool" where
  "code_keeps go wo code \<longleftrightarrow> (\<forall>st. nak_inv go wo st \<longrightarrow>
     nak_inv go wo (code st) \<and> n_p (code st) = n_p st \<and> n_len (code st) = n_len st)"

lemma holds_void:
  "code_keeps go wo code \<Longrightarrow> holdsn (nak_run go wo) (nak_inv go wo) (NAKCIVOID opt neg seen code)"
  unfolding NAKCIVOID_def
  by (rule holds_nak_ci) (auto simp: CILEN_VOID_def code_keeps_def nak_run_def)

lemma holds_short:
  assumes "\<And>x. code_keeps go wo (code x)"
  shows "holdsn (nak_run go wo) (nak_inv go wo) (NAKCISHORT opt neg seen code)"
  unfolding NAKCISHORT_def
proof (rule holds_nak_ci)
  fix st q r assume *: "nak_inv go wo st" "n_p st = q @ r" "int (length q) = CILEN_SHORT - 2" "within (r, n_len st)"
  then obtain x where "getshort (q @ r) = Ok (x, r)"
    using getshort_append [of q r] by (auto simp: CILEN_SHORT_def)
  then show "case readn st (getshort (n_p st)) (\<lambda>(cishort, p). NakOk (code cishort (st\<lparr>n_p := p, n_no := seen (n_no st)\<rparr>)))
      of NakUndef \<Rightarrow> False | NakBad s' \<Rightarrow> nak_inv go wo s' | NakOk s' \<Rightarrow> nak_run go wo s'"
    using * assms [of x] by (simp add: code_keeps_def nak_run_def)
qed (simp_all add: CILEN_SHORT_def)

lemma holds_long:
  assumes "\<And>x. code_keeps go wo (code x)"
  shows "holdsn (nak_run go wo) (nak_inv go wo) (NAKCILONG opt neg seen code)"
  unfolding NAKCILONG_def
proof (rule holds_nak_ci)
  fix st q r assume *: "nak_inv go wo st" "n_p st = q @ r" "int (length q) = CILEN_LONG - 2" "within (r, n_len st)"
  then obtain x where "getlong (q @ r) = Ok (x, r)"
    using getlong_append [of q r] by (auto simp: CILEN_LONG_def)
  then show "case readn st (getlong (n_p st)) (\<lambda>(cilong, p). NakOk (code cilong (st\<lparr>n_p := p, n_no := seen (n_no st)\<rparr>)))
      of NakUndef \<Rightarrow> False | NakBad s' \<Rightarrow> nak_inv go wo s' | NakOk s' \<Rightarrow> nak_run go wo s'"
    using * assms [of x] by (simp add: code_keeps_def nak_run_def)
qed (simp_all add: CILEN_LONG_def)

lemma holds_lqr:
  assumes "\<And>x y. code_keeps go wo (code x y)"
  shows "holdsn (nak_run go wo) (nak_inv go wo) (NAKCILQR opt neg seen code)"
  unfolding NAKCILQR_def
proof (rule holds_nak_ci)
  fix st q r assume *: "nak_inv go wo st" "n_p st = q @ r" "int (length q) = CILEN_LQR - 2" "within (r, n_len st)"
  then have q: "q = take 2 q @ drop 2 q" "length (take 2 q) = 2" "length (drop 2 q) = 4"
    by (simp_all add: CILEN_LQR_def)
  obtain x where x: "getshort (q @ r) = Ok (x, drop 2 q @ r)"
    using getshort_append [OF q(2), of "drop 2 q @ r"] by (metis append.assoc append_take_drop_id)
  obtain y where "getlong (drop 2 q @ r) = Ok (y, r)"
    using getlong_append [OF q(3), of r] by auto
  then show "case readn st (getshort (n_p st)) (\<lambda>(cishort, p). readn st (getlong p) (\<lambda>(cilong, p).
        NakOk (code cishort cilong (st\<lparr>n_p := p, n_no := seen (n_no st)\<rparr>))))
      of NakUndef \<Rightarrow> False | NakBad s' \<Rightarrow> nak_inv go wo s' | NakOk s' \<Rightarrow> nak_run go wo s'"
    using * x assms [of x y] by (simp add: code_keeps_def nak_run_def)
qed (simp_all add: CILEN_LQR_def)

lemma skip_chars_eq: "skip_chars n p = (if n \<le> length p then Ok (drop n p) else Undef)"
proof (induction n arbitrary: p)
  case (Suc n)
  then show ?case by (cases p) simp_all
qed simp

lemma holds_discri:
  assumes "code_keeps go wo code" "unat alen \<le> 252"
  shows "holdsn (nak_run go wo) (nak_inv go wo) (NAKCIMPDISCRI opt neg seen code alen)"
  unfolding NAKCIMPDISCRI_def
proof (rule holds_nak_ci)
  have u: "uint alen \<le> 252"
    using assms(2) by (simp only: unat_eq_nat_uint nat_le_iff of_nat_numeral)
  then show "2 \<le> uint alen + 3" "uint alen + 3 < 256" by simp_all
  fix st and q r :: "u8 list"
  assume *: "nak_inv go wo st" "n_p st = q @ r" "int (length q) = uint alen + 3 - 2" "within (r, n_len st)"
  have "int (length q) = int (Suc (unat alen))" using *(3) by simp
  then have "length q = Suc (unat alen)" by (simp only: of_nat_eq_iff)
  then obtain c w where q: "q = c # w" "length w = unat alen" by (cases q) auto
  then show "case readn st (getchar (n_p st)) (\<lambda>(cichar, p).
        readn st (skip_chars (unat alen) p) (\<lambda>p. NakOk (code (st\<lparr>n_p := p, n_no := seen (n_no st)\<rparr>))))
      of NakUndef \<Rightarrow> False | NakBad s' \<Rightarrow> nak_inv go wo s' | NakOk s' \<Rightarrow> nak_run go wo s'"
    using * assms(1) by (simp add: skip_chars_eq code_keeps_def nak_run_def)
qed

lemma extra_code_keeps:
  "code_keeps go wo (\<lambda>st. if x < DEFMRU then st\<lparr>n_try := (n_try st)\<lparr>l_mru := x\<rparr>\<rparr> else st)"
  by (auto simp: code_keeps_def nak_inv_def asks_less_def lcp_ok_def cb_ok_def)

lemma holds_extra: "holdsn (nak_run go wo) (nak_inv go wo) lcp_nak_extra"
  unfolding holdsn_def
proof
  fix st
  show "nak_run go wo st \<longrightarrow> (case lcp_nak_extra st of NakUndef \<Rightarrow> False | NakBad s' \<Rightarrow> nak_inv go wo s'
     | NakOk s' \<Rightarrow> nak_run go wo s')"
  proof (induction st rule: lcp_nak_extra.induct)
    case (1 st)
    show ?case
    proof
      assume run: "nak_run go wo st"
      show "case lcp_nak_extra st of NakUndef \<Rightarrow> False | NakBad s' \<Rightarrow> nak_inv go wo s' | NakOk s' \<Rightarrow> nak_run go wo s'"
      proof (cases "n_len st > CILEN_VOID")
        case True
        then obtain citype c1 p where p: "n_p st = citype # c1 # p"
          using run by (cases "n_p st" rule: remdups_adj.cases)
            (auto simp: nak_run_def within_def CILEN_VOID_def)
        define cilen where "cilen = uint c1"
        define len where "len = n_len st - cilen"
        have inv: "nak_inv go wo st" and w: "within (n_p st, n_len st)" using run by (simp_all add: nak_run_def)
        note simps = lcp_nak_extra.simps [of st] p Let_def
        show ?thesis
        proof (cases "cilen < CILEN_VOID \<or> len < 0 \<or> nak_extra_bad citype cilen (n_go st) (n_no st)")
          case True
          with inv \<open>n_len st > CILEN_VOID\<close> show ?thesis
            by (auto simp: simps cilen_def len_def)
        next
          case False
          define st' where "st' = st\<lparr>n_len := len, n_p := drop (nat (cilen - 2)) p\<rparr>"
          have "within (drop (nat cilen) (n_p st), len)"
            using False within_drop [OF w, of "nat cilen"] by (simp add: len_def CILEN_VOID_def)
          moreover have "drop (nat cilen) (n_p st) = drop (nat (cilen - 2)) p"
          proof -
            have "nat cilen = Suc (Suc (nat (cilen - 2)))" using False unfolding CILEN_VOID_def by arith
            then show ?thesis by (simp add: p)
          qed
          ultimately have run': "nak_run go wo st'"
            using inv by (simp add: nak_run_def st'_def)
          show ?thesis
          proof (cases "citype = CI_MRU")
            case True
            with False have "cilen = 4" by (simp add: nak_extra_bad_def CILEN_SHORT_def)
            then have "2 \<le> length p" using False w by (simp add: p within_def len_def)
            then obtain x where x: "getshort p = Ok (x, drop 2 p)"
              using getshort_append [of "take 2 p" "drop 2 p"] by auto
            define st2 where "st2 = (if x < DEFMRU then st'\<lparr>n_try := (n_try st')\<lparr>l_mru := x\<rparr>\<rparr> else st')"
            have "nak_run go wo st2"
              using run' extra_code_keeps [of go wo x] by (simp add: nak_run_def st2_def code_keeps_def)
            have "nak_run go wo st2 \<longrightarrow> (case lcp_nak_extra st2 of NakUndef \<Rightarrow> False
                | NakBad s' \<Rightarrow> nak_inv go wo s' | NakOk s' \<Rightarrow> nak_run go wo s')"
              unfolding st2_def
              by (rule 1(1) [of citype _ c1 p cilen len st' x])
                (use True False p \<open>n_len st > CILEN_VOID\<close> in \<open>simp_all add: cilen_def len_def st'_def\<close>)
            moreover have "lcp_nak_extra st = lcp_nak_extra st2"
              using True False x \<open>n_len st > CILEN_VOID\<close>
              by (simp add: simps cilen_def len_def st'_def st2_def)
            ultimately show ?thesis using \<open>nak_run go wo st2\<close> by (simp only: simp_thms)
          next
            case no_mru: False
            with 1(2) [of citype _ c1 p] False p run' \<open>n_len st > CILEN_VOID\<close> show ?thesis
              by (simp add: simps cilen_def len_def st'_def)
          qed
        qed
      next
        case False
        with run show ?thesis by (simp add: lcp_nak_extra.simps)
      qed
    qed
  qed
qed

text \<open>The cases of \<open>nak_auth\<close> and \<open>nak_callback\<close>, for an option of \<open>cilen\<close> bytes that is there.\<close>

lemma within_ci:
  assumes "within (c0 # c1 # p, len)" "2 \<le> uint c1" "uint c1 \<le> len"
  shows "uint c1 - 2 \<le> int (length p)" "within (drop (nat (uint c1 - 2)) p, len - uint c1)"
proof -
  show "uint c1 - 2 \<le> int (length p)" using assms by (simp add: within_def)
  have "nat (uint c1) = Suc (Suc (nat (uint c1 - 2)))" using assms(2) by arith
  then show "within (drop (nat (uint c1 - 2)) p, len - uint c1)"
    using within_drop [OF assms(1), of "nat (uint c1)"] assms by simp
qed

lemma nak_auth_keeps:
  assumes "nak_inv go wo st"
  shows "nak_inv go wo (st\<lparr>n_try := (n_try st)\<lparr>l_neg_chap := False\<rparr>\<rparr>)"
    "nak_inv go wo (st\<lparr>n_try := (n_try st)\<lparr>l_neg_upap := False\<rparr>\<rparr>)"
    "l_neg_chap (n_go st) \<Longrightarrow> nak_inv go wo (st\<lparr>n_go := (n_go st)\<lparr>l_neg_chap := False\<rparr>\<rparr>)"
proof -
  show "nak_inv go wo (st\<lparr>n_try := (n_try st)\<lparr>l_neg_chap := False\<rparr>\<rparr>)"
    "nak_inv go wo (st\<lparr>n_try := (n_try st)\<lparr>l_neg_upap := False\<rparr>\<rparr>)"
    using assms by (simp_all add: nak_inv_def asks_less_def cb_ok_def)
  show "nak_inv go wo (st\<lparr>n_go := (n_go st)\<lparr>l_neg_chap := False\<rparr>\<rparr>)" if "l_neg_chap (n_go st)"
    using assms that unfolding nak_inv_def by (elim conjE disjE) simp_all
qed

lemma auth_proto_keeps:
  assumes inv: "nak_inv go wo st" and clen: "CILEN_SHORT \<le> clen"
    and win: "within (drop (nat (clen - CILEN_SHORT)) p, n_len st)" "clen - CILEN_SHORT \<le> int (length p)"
  shows "case nak_auth_proto clen cishort p st of NakUndef \<Rightarrow> False | NakBad s' \<Rightarrow> nak_inv go wo s'
      | NakOk s' \<Rightarrow> nak_run go wo s'"
proof (cases "cishort = PPP_CHAP \<and> clen = CILEN_CHAP")
  case True
  then obtain c q where p: "p = c # q" using win(2) by (cases p) (simp_all add: CILEN_CHAP_def CILEN_SHORT_def)
  moreover have "within (q, n_len st)" using win(1) True p by (simp add: CILEN_CHAP_def CILEN_SHORT_def)
  moreover have "cishort \<noteq> PPP_PAP" using True by (simp add: PPP_PAP_def PPP_CHAP_def)
  ultimately show ?thesis
    using True inv nak_auth_keeps [OF inv]
    by (auto simp: nak_auth_proto_def nak_run_def)
next
  case False
  show ?thesis
    using False inv nak_auth_keeps [OF inv] win
    by (auto simp: nak_auth_proto_def nak_run_def)
qed

lemma holds_auth: "holdsn (nak_run go wo) (nak_inv go wo) nak_auth"
  unfolding holdsn_def
proof (intro allI impI)
  fix st assume run: "nak_run go wo st"
  then have inv: "nak_inv go wo st" and w: "within (n_p st, n_len st)" by (simp_all add: nak_run_def)
  show "case nak_auth st of NakUndef \<Rightarrow> False | NakBad s' \<Rightarrow> nak_inv go wo s' | NakOk s' \<Rightarrow> nak_run go wo s'"
  proof (cases "(l_neg_chap (n_go st) \<or> l_neg_upap (n_go st)) \<and> n_len st \<ge> CILEN_SHORT")
    case True
    then obtain c0 c1 p where p: "n_p st = c0 # c1 # p"
      using w by (cases "n_p st" rule: remdups_adj.cases) (auto simp: within_def CILEN_SHORT_def)
    show ?thesis
    proof (cases "c0 = CI_AUTHTYPE \<and> uint c1 \<ge> CILEN_SHORT \<and> uint c1 \<le> n_len st")
      case here: True
      have le: "2 \<le> uint c1" using here by (simp add: CILEN_SHORT_def)
      note ci = within_ci [OF w [unfolded p] le]
      then obtain x where x: "getshort p = Ok (x, drop 2 p)"
        using getshort_append [of "take 2 p" "drop 2 p"] here by (auto simp: CILEN_SHORT_def)
      define st1 where "st1 = st\<lparr>n_len := n_len st - uint c1,
          n_no := (n_no st)\<lparr>l_neg_chap := l_neg_chap (n_go st), l_neg_upap := l_neg_upap (n_go st)\<rparr>\<rparr>"
      have "drop (nat (uint c1 - CILEN_SHORT)) (drop 2 p) = drop (nat (uint c1 - 2)) p"
      proof -
        have "nat (uint c1 - 2) = nat (uint c1 - CILEN_SHORT) + 2" using here unfolding CILEN_SHORT_def by arith
        then show ?thesis by simp
      qed
      with ci here have "within (drop (nat (uint c1 - CILEN_SHORT)) (drop 2 p), n_len st1)"
        "uint c1 - CILEN_SHORT \<le> int (length (drop 2 p))" "nak_inv go wo st1"
        using inv by (simp_all add: st1_def CILEN_SHORT_def)
      then have "case nak_auth_proto (uint c1) x (drop 2 p) st1 of NakUndef \<Rightarrow> False
          | NakBad s' \<Rightarrow> nak_inv go wo s' | NakOk s' \<Rightarrow> nak_run go wo s'"
        using here by (intro auth_proto_keeps) simp_all
      moreover have "nak_auth st = nak_auth_proto (uint c1) x (drop 2 p) st1"
        using True here by (simp add: nak_auth_def p x Let_def st1_def)
      ultimately show ?thesis by simp
    next
      case False
      with True run p show ?thesis by (auto simp: nak_auth_def)
    qed
  next
    case False
    with run show ?thesis by (auto simp: nak_auth_def)
  qed
qed

lemma callback_try_keeps:
  assumes "nak_inv go wo st" "l_neg_callback go" "0 \<le> ty" "ty < 256"
  shows "nak_inv go wo (st\<lparr>n_try := nak_callback_try (l_cbopt wo) ty (n_try st)\<rparr>)"
proof (cases "nak_callback_neg (l_cbopt wo) ty")
  case True
  have auth: "ty = CB_AUTH \<Longrightarrow> cb_mlen (l_cbopt wo) = 0"
    using True assms(1) by (auto simp: nak_callback_neg_def nak_inv_def cb_ok_def)
  show ?thesis
    using True assms auth
    by (simp add: nak_callback_try_def nak_inv_def asks_less_def cb_ok_def Let_def)
next
  case False
  then show ?thesis
    using assms by (simp add: nak_callback_try_def nak_inv_def asks_less_def cb_ok_def)
qed

lemma nak_inv_callback: "nak_inv go wo st \<Longrightarrow> l_neg_callback (n_go st) = l_neg_callback go"
  by (auto simp: nak_inv_def)

lemma holds_callback: "holdsn (nak_run go wo) (nak_inv go wo) (nak_callback (l_cbopt wo))"
  unfolding holdsn_def
proof (intro allI impI)
  fix st assume run: "nak_run go wo st"
  then have inv: "nak_inv go wo st" and w: "within (n_p st, n_len st)" by (simp_all add: nak_run_def)
  show "case nak_callback (l_cbopt wo) st of NakUndef \<Rightarrow> False | NakBad s' \<Rightarrow> nak_inv go wo s'
      | NakOk s' \<Rightarrow> nak_run go wo s'"
  proof (cases "l_neg_callback (n_go st) \<and> n_len st \<ge> CILEN_CB")
    case True
    then obtain c0 c1 p where p: "n_p st = c0 # c1 # p"
      using w by (cases "n_p st" rule: remdups_adj.cases) (auto simp: within_def CILEN_CB_def)
    show ?thesis
    proof (cases "c0 = CI_CALLBACK \<and> uint c1 \<ge> CILEN_CB \<and> uint c1 \<le> n_len st")
      case here: True
      have le: "2 \<le> uint c1" using here by (simp add: CILEN_CB_def)
      note ci = within_ci [OF w [unfolded p] le]
      then obtain ty q where q: "p = ty # q" using here by (cases p) (auto simp: CILEN_CB_def)
      have k: "nat (uint c1 - 2) = Suc (nat (uint c1 - CILEN_CB))" using here unfolding CILEN_CB_def by arith
      have "nat (uint c1 - CILEN_CB) \<le> length q" using ci(1) here q by (simp add: CILEN_CB_def)
      then have "skip_chars (nat (uint c1 - CILEN_CB)) q = Ok (drop (nat (uint c1 - 2)) p)"
        by (simp add: skip_chars_eq k q)
      moreover have "nak_inv go wo (st\<lparr>n_try := nak_callback_try (l_cbopt wo) (uint ty) (n_try st)\<rparr>)"
        using callback_try_keeps [OF inv] nak_inv_callback [OF inv] True uint_lt2p [of ty] by simp
      then have "nak_inv go wo (st\<lparr>n_len := a, n_p := b, n_no := c,
          n_try := nak_callback_try (l_cbopt wo) (uint ty) (n_try st)\<rparr>)" for a b c
        by (simp add: nak_inv_def)
      ultimately show ?thesis
        using True here ci by (simp add: nak_callback_def p q nak_run_def Let_def)
    next
      case False
      with True run p show ?thesis by (auto simp: nak_callback_def)
    qed
  next
    case False
    with run show ?thesis by (auto simp: nak_callback_def)
  qed
qed

lemma nak_codes_keep:
  "code_keeps go wo (\<lambda>st. if x \<le> l_mru wo \<or> x < DEFMRU then st\<lparr>n_try := (n_try st)\<lparr>l_mru := x\<rparr>\<rparr> else st)"
  "code_keeps go wo (\<lambda>st. st\<lparr>n_try := (n_try st)\<lparr>l_asyncmap := l_asyncmap (n_go st) OR y\<rparr>\<rparr>)"
  "code_keeps go wo (\<lambda>st. if x \<noteq> PPP_LQR then st\<lparr>n_try := (n_try st)\<lparr>l_neg_lqr := False\<rparr>\<rparr>
                          else st\<lparr>n_try := (n_try st)\<lparr>l_lqr_period := y\<rparr>\<rparr>)"
  "code_keeps go wo (\<lambda>st. st\<lparr>n_try := (n_try st)\<lparr>l_neg_pcompression := False\<rparr>\<rparr>)"
  "code_keeps go wo (\<lambda>st. st\<lparr>n_try := (n_try st)\<lparr>l_neg_accompression := False\<rparr>\<rparr>)"
  "code_keeps go wo (\<lambda>st. st\<lparr>n_try := (n_try st)\<lparr>l_mp_mrru := x\<rparr>\<rparr>)"
  "code_keeps go wo (\<lambda>st. st\<lparr>n_try := (n_try st)\<lparr>l_neg_mpshortseq := False\<rparr>\<rparr>)"
  "code_keeps go wo (\<lambda>st. st\<lparr>n_try := (n_try st)\<lparr>l_neg_mpdiscr := False\<rparr>\<rparr>)"
proof -
  have async: "l_asyncmap go AND NOT (l_asyncmap (n_go st) OR y) = 0" if "nak_inv go wo st" for st
  proof -
    have "l_asyncmap (n_go st) = l_asyncmap go" using that by (auto simp: nak_inv_def)
    moreover have "a AND NOT (a OR b) = 0" for a b :: u32
      by (rule bit_eqI) (simp add: bit_simps)
    ultimately show ?thesis by simp
  qed
  show "code_keeps go wo (\<lambda>st. st\<lparr>n_try := (n_try st)\<lparr>l_asyncmap := l_asyncmap (n_go st) OR y\<rparr>\<rparr>)"
    unfolding code_keeps_def
  proof (intro allI impI)
    fix st assume inv: "nak_inv go wo st"
    show "nak_inv go wo (st\<lparr>n_try := (n_try st)\<lparr>l_asyncmap := l_asyncmap (n_go st) OR y\<rparr>\<rparr>)
        \<and> n_p (st\<lparr>n_try := (n_try st)\<lparr>l_asyncmap := l_asyncmap (n_go st) OR y\<rparr>\<rparr>) = n_p st
        \<and> n_len (st\<lparr>n_try := (n_try st)\<lparr>l_asyncmap := l_asyncmap (n_go st) OR y\<rparr>\<rparr>) = n_len st"
      using inv async [OF inv] by (simp add: nak_inv_def asks_less_def cb_ok_def)
  qed
qed (simp_all add: code_keeps_def nak_inv_def asks_less_def cb_ok_def)

lemma nak_magic_keeps:
  "code_keeps go wo (\<lambda>st. st\<lparr>n_try := (n_try st)\<lparr>l_magicnumber := mg\<rparr>, n_looped_back := True,
     n_drawn := Suc (n_drawn st)\<rparr>)"
  by (simp add: code_keeps_def nak_inv_def asks_less_def cb_ok_def)

lemma holds_end: "holdsn (nak_run go wo) (nak_inv go wo) nak_end"
  by (simp add: holdsn_def nak_end_def nak_run_def)

theorem lcp_nakci_holds:
  assumes "within (p, len)" "cb_ok (l_cbopt wo) go" "unat (l_mp_alen go) \<le> 252"
  shows "case lcp_nakci_parse go wo mg (p, len) of
      NakUndef \<Rightarrow> False | NakBad st \<Rightarrow> nak_inv go wo st | NakOk st \<Rightarrow> nak_run go wo st"
proof -
  have "list_all (holdsn (nak_run go wo) (nak_inv go wo))
      (lcp_nakci_steps wo mg (l_mp_alen go) @ [lcp_nak_extra, nak_end])"
    using assms(3)
    by (simp add: lcp_nakci_steps_def holds_void holds_short holds_long holds_lqr holds_discri
        holds_auth holds_callback holds_extra holds_end nak_codes_keep nak_magic_keeps)
  then have "holdsn (nak_run go wo) (nak_inv go wo)
      (seqn (lcp_nakci_steps wo mg (l_mp_alen go) @ [lcp_nak_extra, nak_end]))"
    by (rule holdsn_seqn)
  moreover have "nak_run go wo \<lparr>n_p = p, n_len = len, n_go = go, n_no = zero_lcp_options, n_try = go,
      n_looped_back = False, n_drawn = 0\<rparr>"
    using assms by (simp add: nak_run_def nak_inv_def asks_less_refl)
  ultimately show ?thesis
    by (simp add: holdsn_def lcp_nakci_parse_def)
qed

lemma lcp_nakci_ok:
  assumes "within (p, len)" "cb_ok (l_cbopt wo) go" "lcp_ok go"
  shows "lcp_nakci_parse go wo mg (p, len) = NakOk st \<Longrightarrow>
      asks_less (n_try st) go \<and> lcp_ok (n_try st) \<and> cb_ok (l_cbopt wo) (n_try st)"
proof -
  have "unat (l_mp_alen go) \<le> 252" using assms(3) by (simp add: lcp_ok_def)
  show "asks_less (n_try st) go \<and> lcp_ok (n_try st) \<and> cb_ok (l_cbopt wo) (n_try st)"
    if "lcp_nakci_parse go wo mg (p, len) = NakOk st"
  proof -
    have inv: "nak_inv go wo st"
      using lcp_nakci_holds [OF assms(1,2) \<open>unat (l_mp_alen go) \<le> 252\<close>, of mg] that
      by (simp add: nak_run_def)
    show ?thesis using nak_inv_ok [OF inv assms(3)] inv by (simp add: nak_inv_def)
  qed
qed

end
