(* ===== verification/Lcp_Requests.thy ===== *)
theory Lcp_Requests
  imports Lcp_Options Ci_Request
begin

text \<open>
  The peer's Configure-Request: \<open>lcp_reqci\<close>. The input buffer is the list of bytes from \<open>inp\<close>
  to its end, of which the first \<open>*lenp\<close> are the packet; \<open>next\<close> and \<open>rejp\<close> are offsets into it.
  \<open>lcp_req_\<dots>\<close> are the cases of the \<open>switch\<close>: they give \<open>orc\<close>, the bytes put at \<open>nakp\<close>, and the new
  \<open>*ho\<close>. Their argument \<open>p\<close> points behind the type and length bytes of the option.

  \<open>BCOPY\<close> is \<open>memcpy\<close>; the source and target of the copy of a rejected option can overlap, which
  is taken here to copy all the same. \<open>Undef\<close> is an access outside one of the buffers.
\<close>

type_synonym lcp_verdict = "u8 \<times> u8 list \<times> lcp_options"

section \<open>The options one by one\<close>

definition lcp_req_mru :: "lcp_options \<Rightarrow> lcp_options \<Rightarrow> int \<Rightarrow> u8 list \<Rightarrow> lcp_verdict outcome" where
  "lcp_req_mru ao ho clen p =
     (if \<not> l_neg_mru ao \<or> clen \<noteq> CILEN_SHORT then Ok (CONFREJ, [], ho)
      else bindo (getshort p) (\<lambda>(cishort, p).
        if cishort < MINMRU
        then Ok (CONFNAK, [CI_MRU, word_of_int CILEN_SHORT] @ putshort MINMRU, ho)
        else Ok (CONFACK, [], ho\<lparr>l_neg_mru := True, l_mru := cishort\<rparr>)))"

definition lcp_req_asyncmap :: "lcp_options \<Rightarrow> lcp_options \<Rightarrow> int \<Rightarrow> u8 list \<Rightarrow> lcp_verdict outcome" where
  "lcp_req_asyncmap ao ho clen p =
     (if \<not> l_neg_asyncmap ao \<or> clen \<noteq> CILEN_LONG then Ok (CONFREJ, [], ho)
      else bindo (getlong p) (\<lambda>(cilong, p).
        if l_asyncmap ao AND NOT cilong \<noteq> 0
        then Ok (CONFNAK, [CI_ASYNCMAP, word_of_int CILEN_LONG] @ putlong (l_asyncmap ao OR cilong), ho)
        else Ok (CONFACK, [], ho\<lparr>l_neg_asyncmap := True, l_asyncmap := cilong\<rparr>)))"

definition nak_chap :: "lcp_options \<Rightarrow> u8 list" where
  "nak_chap ao = [CI_AUTHTYPE, word_of_int CILEN_CHAP] @ putshort PPP_CHAP @ [l_chap_mdtype ao]"

definition nak_pap :: "u8 list" where
  "nak_pap = [CI_AUTHTYPE, word_of_int CILEN_SHORT] @ putshort PPP_PAP"

text \<open>Without \<open>USE_MSCHAP\<close>, the default of the build.\<close>

definition lcp_req_auth :: "lcp_options \<Rightarrow> lcp_options \<Rightarrow> int \<Rightarrow> u8 list \<Rightarrow> lcp_verdict outcome" where
  "lcp_req_auth ao ho clen p =
     (if clen < CILEN_SHORT \<or> \<not> (l_neg_upap ao \<or> l_neg_chap ao) then Ok (CONFREJ, [], ho)
      else bindo (getshort p) (\<lambda>(cishort, p).
        if cishort = PPP_PAP
        then if l_neg_chap ho \<or> clen \<noteq> CILEN_SHORT then Ok (CONFREJ, [], ho)
             else if \<not> l_neg_upap ao then Ok (CONFNAK, nak_chap ao, ho)
             else Ok (CONFACK, [], ho\<lparr>l_neg_upap := True\<rparr>)
        else if cishort = PPP_CHAP
        then if l_neg_upap ho \<or> clen \<noteq> CILEN_CHAP then Ok (CONFREJ, [], ho)
             else if \<not> l_neg_chap ao then Ok (CONFNAK, nak_pap, ho)
             else bindo (getchar p) (\<lambda>(cichar, p).
               if cichar \<noteq> l_chap_mdtype ao then Ok (CONFNAK, nak_chap ao, ho)
               else Ok (CONFACK, [], ho\<lparr>l_chap_mdtype := cichar, l_neg_chap := True\<rparr>))
        else Ok (CONFNAK, if l_neg_chap ao then nak_chap ao else nak_pap, ho)))"

definition lcp_req_quality :: "lcp_options \<Rightarrow> lcp_options \<Rightarrow> int \<Rightarrow> u8 list \<Rightarrow> lcp_verdict outcome" where
  "lcp_req_quality ao ho clen p =
     (if \<not> l_neg_lqr ao \<or> clen \<noteq> CILEN_LQR then Ok (CONFREJ, [], ho)
      else bindo (getshort p) (\<lambda>(cishort, p). bindo (getlong p) (\<lambda>(cilong, p).
        if cishort \<noteq> PPP_LQR
        then Ok (CONFNAK, [CI_QUALITY, word_of_int CILEN_LQR] @ putshort PPP_LQR @ putlong (l_lqr_period ao), ho)
        else Ok (CONFACK, [], ho))))"

text \<open>\<open>mg\<close> is the value \<open>magic()\<close> returns, which is called only when the option is naked.\<close>

definition lcp_req_magic :: "lcp_options \<Rightarrow> lcp_options \<Rightarrow> u32 \<Rightarrow> lcp_options \<Rightarrow> int \<Rightarrow> u8 list \<Rightarrow> lcp_verdict outcome" where
  "lcp_req_magic ao go mg ho clen p =
     (if \<not> (l_neg_magicnumber ao \<or> l_neg_magicnumber go) \<or> clen \<noteq> CILEN_LONG then Ok (CONFREJ, [], ho)
      else bindo (getlong p) (\<lambda>(cilong, p).
        if l_neg_magicnumber go \<and> cilong = l_magicnumber go
        then Ok (CONFNAK, [CI_MAGICNUMBER, word_of_int CILEN_LONG] @ putlong mg, ho)
        else Ok (CONFACK, [], ho\<lparr>l_neg_magicnumber := True, l_magicnumber := cilong\<rparr>)))"

definition lcp_req_pcomp :: "lcp_options \<Rightarrow> lcp_options \<Rightarrow> int \<Rightarrow> lcp_verdict outcome" where
  "lcp_req_pcomp ao ho clen =
     (if \<not> l_neg_pcompression ao \<or> clen \<noteq> CILEN_VOID then Ok (CONFREJ, [], ho)
      else Ok (CONFACK, [], ho\<lparr>l_neg_pcompression := True\<rparr>))"

definition lcp_req_accomp :: "lcp_options \<Rightarrow> lcp_options \<Rightarrow> int \<Rightarrow> lcp_verdict outcome" where
  "lcp_req_accomp ao ho clen =
     (if \<not> l_neg_accompression ao \<or> clen \<noteq> CILEN_VOID then Ok (CONFREJ, [], ho)
      else Ok (CONFACK, [], ho\<lparr>l_neg_accompression := True\<rparr>))"

text \<open>The address goes through \<open>mpaddr[20]\<close> into \<open>ho->mp_addr[20]\<close>.\<close>

definition lcp_req_mpdiscr :: "lcp_options \<Rightarrow> lcp_options \<Rightarrow> int \<Rightarrow> u8 list \<Rightarrow> lcp_verdict outcome" where
  "lcp_req_mpdiscr ao ho clen p =
     (if \<not> l_neg_mpdiscr ao \<or> clen < 3 then Ok (CONFREJ, [], ho)
      else bindo (getchar p) (\<lambda>(mpclass, p).
        let n = nat (clen - 3)
        in if length p < n \<or> 20 < n then Undef
           else Ok (CONFACK, [], ho\<lparr>l_neg_mpdiscr := True, l_mp_class := mpclass,
                  l_mp_addr := take n p @ drop n (l_mp_addr ho), l_mp_alen := word_of_int (clen - 3)\<rparr>)))"

definition lcp_req_mpmrru :: "lcp_options \<Rightarrow> lcp_options \<Rightarrow> int \<Rightarrow> u8 list \<Rightarrow> lcp_verdict outcome" where
  "lcp_req_mpmrru ao ho clen p =
     (if \<not> l_neg_mpmrru ao \<or> clen \<noteq> CILEN_SHORT then Ok (CONFREJ, [], ho)
      else bindo (getshort p) (\<lambda>(mpmrru, p).
        Ok (CONFACK, [], ho\<lparr>l_neg_mpmrru := True, l_mp_mrru := mpmrru\<rparr>)))"

definition lcp_req_mpshortseq :: "lcp_options \<Rightarrow> lcp_options \<Rightarrow> int \<Rightarrow> lcp_verdict outcome" where
  "lcp_req_mpshortseq ao ho clen =
     (if \<not> l_neg_mpshortseq ao \<or> clen \<noteq> CILEN_VOID then Ok (CONFREJ, [], ho)
      else Ok (CONFREJ, [], ho\<lparr>l_neg_mpshortseq := False\<rparr>))"

definition lcp_req_ci :: "lcp_options \<Rightarrow> lcp_options \<Rightarrow> u32 \<Rightarrow> lcp_options \<Rightarrow> u8 \<Rightarrow> int \<Rightarrow> u8 list \<Rightarrow> lcp_verdict outcome" where
  "lcp_req_ci ao go mg ho citype clen p =
     (if citype = CI_MRU then lcp_req_mru ao ho clen p
      else if citype = CI_ASYNCMAP then lcp_req_asyncmap ao ho clen p
      else if citype = CI_AUTHTYPE then lcp_req_auth ao ho clen p
      else if citype = CI_QUALITY then lcp_req_quality ao ho clen p
      else if citype = CI_MAGICNUMBER then lcp_req_magic ao go mg ho clen p
      else if citype = CI_PCOMPRESSION then lcp_req_pcomp ao ho clen
      else if citype = CI_ACCOMPRESSION then lcp_req_accomp ao ho clen
      else if citype = CI_MPDISCRIMINATOR then lcp_req_mpdiscr ao ho clen p
      else if citype = CI_MPMRRU then lcp_req_mpmrru ao ho clen p
      else if citype = CI_MPSHORTSEQ then lcp_req_mpshortseq ao ho clen
      else Ok (CONFREJ, [], ho))"

section \<open>The loop over the options\<close>

text \<open>The locals of \<open>lcp_reqci\<close>; \<open>r_nak\<close> is \<open>nak_buffer\<close> up to \<open>nakp\<close>.\<close>

record lcp_req =
  r_buf :: "u8 list"
  r_next :: nat
  r_rejp :: nat
  r_nak :: "u8 list"
  r_l :: int
  r_rc :: u8
  r_ho :: lcp_options
  r_drawn :: nat

definition req_reject :: "nat \<Rightarrow> nat \<Rightarrow> lcp_req \<Rightarrow> lcp_req outcome" where
  "req_reject cip n st =
     (if length (r_buf st) < cip + n \<or> length (r_buf st) < r_rejp st + n then Undef
      else Ok (st\<lparr>r_rc := CONFREJ, r_buf := copy_within cip (r_rejp st) n (r_buf st),
                  r_rejp := r_rejp st + n\<rparr>))"

text \<open>The part behind \<open>endswitch\<close>.\<close>

definition lcp_req_answer :: "bool \<Rightarrow> u8 \<Rightarrow> u8 \<Rightarrow> nat \<Rightarrow> nat \<Rightarrow> lcp_req \<Rightarrow> lcp_req outcome" where
  "lcp_req_answer reject_if_disagree citype orc cip clen st =
     (if orc = CONFACK \<and> r_rc st \<noteq> CONFACK then Ok st
      else if orc = CONFNAK
      then if reject_if_disagree \<and> citype \<noteq> CI_MAGICNUMBER then req_reject cip clen st
           else if r_rc st = CONFREJ then Ok st
           else Ok (st\<lparr>r_rc := CONFNAK\<rparr>)
      else if orc = CONFREJ then req_reject cip clen st
      else Ok st)"

text \<open>
  One turn of the loop. \<open>cilen\<close> is an \<open>u_char\<close>: for a bad option it is the rest of the packet
  modulo 256. \<open>nak_buffer\<close> has \<open>PPP_MRU\<close> bytes. \<open>mg\<close> gives the values \<open>magic()\<close> returns.
\<close>

definition lcp_req_step :: "lcp_options \<Rightarrow> lcp_options \<Rightarrow> (nat \<Rightarrow> u32) \<Rightarrow> bool \<Rightarrow> lcp_req \<Rightarrow> lcp_req outcome" where
  "lcp_req_step ao go mg reject_if_disagree st =
     (let cip = r_next st; l = r_l st
      in case (if l < 2 then Ok None
               else case drop cip (r_buf st) of
                   citype # c1 # p \<Rightarrow> Ok (if uint c1 < 2 \<or> uint c1 > l then None else Some (citype, c1, p))
                 | _ \<Rightarrow> Undef) of
           Undef \<Rightarrow> Undef
         | Bad \<Rightarrow> Bad
         | Ok None \<Rightarrow>
             lcp_req_answer reject_if_disagree 0 CONFREJ cip (unat (word_of_int l :: u8)) (st\<lparr>r_l := 0\<rparr>)
         | Ok (Some (citype, c1, p)) \<Rightarrow>
             bindo (lcp_req_ci ao go (mg (r_drawn st)) (r_ho st) citype (uint c1) p) (\<lambda>(orc, nak, ho).
               if PPP_MRU < int (length (r_nak st @ nak)) then Undef
               else lcp_req_answer reject_if_disagree citype orc cip (unat c1)
                      (st\<lparr>r_l := l - uint c1, r_next := cip + unat c1, r_nak := r_nak st @ nak, r_ho := ho,
                          r_drawn := r_drawn st + (if citype = CI_MAGICNUMBER \<and> orc = CONFNAK then 1 else 0)\<rparr>)))"

lemma req_answer_l: "lcp_req_answer rid citype orc cip n st = Ok st' \<Longrightarrow> r_l st' = r_l st"
  by (auto simp: lcp_req_answer_def req_reject_def split: if_splits)

lemma lcp_req_step_l:
  "r_l st \<noteq> 0 \<Longrightarrow> lcp_req_step ao go mg rid st = Ok st' \<Longrightarrow> nat \<bar>r_l st'\<bar> < nat \<bar>r_l st\<bar>"
  by (auto simp: lcp_req_step_def Let_def bindo_Ok_iff dest!: req_answer_l
      split: if_splits list.splits)

function lcp_req_loop :: "lcp_options \<Rightarrow> lcp_options \<Rightarrow> (nat \<Rightarrow> u32) \<Rightarrow> bool \<Rightarrow> lcp_req \<Rightarrow> lcp_req outcome" where
  "lcp_req_loop ao go mg rid st =
     (if r_l st = 0 then Ok st
      else bindo (lcp_req_step ao go mg rid st) (lcp_req_loop ao go mg rid))"
  by pat_completeness auto
termination
  by (relation "measure (\<lambda>(ao, go, mg, rid, st). nat \<bar>r_l st\<bar>)") (auto dest: lcp_req_step_l)

declare lcp_req_loop.simps [simp del]

section \<open>The answer\<close>

text \<open>The code, the bytes then at \<open>inp\<close>, \<open>*lenp\<close>, the new \<open>*ho\<close> and the calls of \<open>magic()\<close>.\<close>

definition lcp_req_result :: "lcp_req \<Rightarrow> (u8 \<times> u8 list \<times> int \<times> lcp_options \<times> nat) outcome" where
  "lcp_req_result st =
     (if r_rc st = CONFACK then Ok (CONFACK, r_buf st, int (r_next st), r_ho st, r_drawn st)
      else if r_rc st = CONFNAK
      then if length (r_buf st) < length (r_nak st) then Undef
           else Ok (CONFNAK, r_nak st @ drop (length (r_nak st)) (r_buf st), int (length (r_nak st)),
                    r_ho st, r_drawn st)
      else Ok (r_rc st, r_buf st, int (r_rejp st), r_ho st, r_drawn st))"

definition lcp_reqci :: "lcp_options \<Rightarrow> lcp_options \<Rightarrow> (nat \<Rightarrow> u32) \<Rightarrow> u8 list \<Rightarrow> int \<Rightarrow> bool
    \<Rightarrow> (u8 \<times> u8 list \<times> int \<times> lcp_options \<times> nat) outcome" where
  "lcp_reqci ao go mg inp len reject_if_disagree =
     bindo (lcp_req_loop ao go mg reject_if_disagree
              \<lparr>r_buf = inp, r_next = 0, r_rejp = 0, r_nak = [], r_l = len, r_rc = CONFACK,
               r_ho = zero_lcp_options, r_drawn = 0\<rparr>)
       lcp_req_result"

section \<open>What the cases of the switch grant\<close>

text \<open>
  The options \<open>ho\<close> that the peer may be granted, given what we allow (\<open>ao\<close>) and what we have
  requested ourselves (\<open>go\<close>).
\<close>

definition lcp_granted :: "lcp_options \<Rightarrow> lcp_options \<Rightarrow> lcp_options \<Rightarrow> bool" where
  "lcp_granted ao go ho \<longleftrightarrow>
     (l_neg_mru ho \<longrightarrow> l_neg_mru ao \<and> MINMRU \<le> l_mru ho)
     \<and> (l_neg_asyncmap ho \<longrightarrow> l_neg_asyncmap ao \<and> l_asyncmap ao AND NOT (l_asyncmap ho) = 0)
     \<and> (l_neg_upap ho \<longrightarrow> l_neg_upap ao)
     \<and> (l_neg_chap ho \<longrightarrow> l_neg_chap ao \<and> l_chap_mdtype ho = l_chap_mdtype ao)
     \<and> \<not> (l_neg_upap ho \<and> l_neg_chap ho)
     \<and> (l_neg_magicnumber ho \<longrightarrow> l_neg_magicnumber go \<longrightarrow> l_magicnumber ho \<noteq> l_magicnumber go)
     \<and> (l_neg_pcompression ho \<longrightarrow> l_neg_pcompression ao)
     \<and> (l_neg_accompression ho \<longrightarrow> l_neg_accompression ao)
     \<and> (l_neg_mpdiscr ho \<longrightarrow> l_neg_mpdiscr ao) \<and> unat (l_mp_alen ho) \<le> 20
     \<and> length (l_mp_addr ho) = 20
     \<and> (l_neg_mpmrru ho \<longrightarrow> l_neg_mpmrru ao)
     \<and> \<not> l_neg_mpshortseq ho \<and> \<not> l_neg_lqr ho \<and> \<not> l_neg_callback ho"

lemma granted_zero: "lcp_granted ao go zero_lcp_options"
  by (simp add: lcp_granted_def zero_lcp_options_def)

text \<open>What every case promises about its result.\<close>

definition verdict_ok :: "lcp_options \<Rightarrow> lcp_options \<Rightarrow> u8 \<Rightarrow> int \<Rightarrow> lcp_verdict \<Rightarrow> bool" where
  "verdict_ok ao go citype clen = (\<lambda>(orc, nak, ho).
     lcp_granted ao go ho
     \<and> (if orc = CONFNAK then is_ci nak \<and> hd nak = citype \<and> 4 * int (length nak) \<le> 5 * clen
        else orc \<in> {CONFACK, CONFREJ} \<and> nak = []))"

lemma grant:
  assumes "lcp_granted ao go ho"
  shows "l_neg_mru ao \<Longrightarrow> MINMRU \<le> x \<Longrightarrow> lcp_granted ao go (ho\<lparr>l_neg_mru := True, l_mru := x\<rparr>)"
    "l_neg_asyncmap ao \<Longrightarrow> l_asyncmap ao AND NOT y = 0 \<Longrightarrow>
       lcp_granted ao go (ho\<lparr>l_neg_asyncmap := True, l_asyncmap := y\<rparr>)"
    "l_neg_upap ao \<Longrightarrow> \<not> l_neg_chap ho \<Longrightarrow> lcp_granted ao go (ho\<lparr>l_neg_upap := True\<rparr>)"
    "l_neg_chap ao \<Longrightarrow> \<not> l_neg_upap ho \<Longrightarrow> m = l_chap_mdtype ao \<Longrightarrow>
       lcp_granted ao go (ho\<lparr>l_chap_mdtype := m, l_neg_chap := True\<rparr>)"
    "\<not> (l_neg_magicnumber go \<and> y = l_magicnumber go) \<Longrightarrow>
       lcp_granted ao go (ho\<lparr>l_neg_magicnumber := True, l_magicnumber := y\<rparr>)"
    "l_neg_pcompression ao \<Longrightarrow> lcp_granted ao go (ho\<lparr>l_neg_pcompression := True\<rparr>)"
    "l_neg_accompression ao \<Longrightarrow> lcp_granted ao go (ho\<lparr>l_neg_accompression := True\<rparr>)"
    "l_neg_mpmrru ao \<Longrightarrow> lcp_granted ao go (ho\<lparr>l_neg_mpmrru := True, l_mp_mrru := x\<rparr>)"
    "lcp_granted ao go (ho\<lparr>l_neg_mpshortseq := False\<rparr>)"
    "l_neg_mpdiscr ao \<Longrightarrow> unat n \<le> 20 \<Longrightarrow> length a = 20 \<Longrightarrow>
       lcp_granted ao go (ho\<lparr>l_neg_mpdiscr := True, l_mp_class := c, l_mp_addr := a, l_mp_alen := n\<rparr>)"
  using assms by (simp_all add: lcp_granted_def)

lemma grant_length: "lcp_granted ao go ho \<Longrightarrow> length (l_mp_addr ho) = 20"
  by (simp add: lcp_granted_def)

lemmas req_defs = verdict_ok_def is_ci_def cilen_defs putshort_def putlong_def code_defs

lemma req_mru_ok:
  "lcp_granted ao go ho \<Longrightarrow> lcp_req_mru ao ho clen p = Ok v \<Longrightarrow> verdict_ok ao go CI_MRU clen v"
  by (auto simp: lcp_req_mru_def bindo_Ok_iff req_defs grant not_less split: if_splits)

lemma req_asyncmap_ok:
  "lcp_granted ao go ho \<Longrightarrow> lcp_req_asyncmap ao ho clen p = Ok v \<Longrightarrow> verdict_ok ao go CI_ASYNCMAP clen v"
  by (auto simp: lcp_req_asyncmap_def bindo_Ok_iff req_defs grant split: if_splits)

lemma req_auth_ok:
  "lcp_granted ao go ho \<Longrightarrow> lcp_req_auth ao ho clen p = Ok v \<Longrightarrow> verdict_ok ao go CI_AUTHTYPE clen v"
  by (auto simp: lcp_req_auth_def bindo_Ok_iff req_defs grant nak_chap_def nak_pap_def split: if_splits)

lemma req_quality_ok:
  "lcp_granted ao go ho \<Longrightarrow> lcp_req_quality ao ho clen p = Ok v \<Longrightarrow> verdict_ok ao go CI_QUALITY clen v"
  by (auto simp: lcp_req_quality_def bindo_Ok_iff req_defs split: if_splits)

lemma req_magic_ok:
  "lcp_granted ao go ho \<Longrightarrow> lcp_req_magic ao go mg ho clen p = Ok v \<Longrightarrow> verdict_ok ao go CI_MAGICNUMBER clen v"
  by (auto simp: lcp_req_magic_def bindo_Ok_iff req_defs grant split: if_splits)

lemma req_comp_ok:
  "lcp_granted ao go ho \<Longrightarrow> lcp_req_pcomp ao ho clen = Ok v \<Longrightarrow> verdict_ok ao go CI_PCOMPRESSION clen v"
  "lcp_granted ao go ho \<Longrightarrow> lcp_req_accomp ao ho clen = Ok v \<Longrightarrow> verdict_ok ao go CI_ACCOMPRESSION clen v"
  by (auto simp: lcp_req_pcomp_def lcp_req_accomp_def req_defs grant split: if_splits)

lemma req_mp_ok:
  "lcp_granted ao go ho \<Longrightarrow> lcp_req_mpmrru ao ho clen p = Ok v \<Longrightarrow> verdict_ok ao go CI_MPMRRU clen v"
  "lcp_granted ao go ho \<Longrightarrow> lcp_req_mpshortseq ao ho clen = Ok v \<Longrightarrow> verdict_ok ao go CI_MPSHORTSEQ clen v"
  by (auto simp: lcp_req_mpmrru_def lcp_req_mpshortseq_def bindo_Ok_iff req_defs grant split: if_splits)

lemma unat_byte_le: "0 \<le> n \<Longrightarrow> n \<le> 20 \<Longrightarrow> unat (word_of_int n :: u8) \<le> 20"
  by (simp only: unat_eq_nat_uint nat_le_iff of_nat_numeral uint_word_of_int) simp

lemma req_mpdiscr_ok:
  assumes "lcp_granted ao go ho" "lcp_req_mpdiscr ao ho clen p = Ok v"
  shows "verdict_ok ao go CI_MPDISCRIMINATOR clen v"
proof (cases "\<not> l_neg_mpdiscr ao \<or> clen < 3")
  case True
  with assms show ?thesis by (auto simp: lcp_req_mpdiscr_def req_defs)
next
  case False
  then obtain c q where q: "nat (clen - 3) \<le> length q" "nat (clen - 3) \<le> 20"
    and v: "v = (CONFACK, [], ho\<lparr>l_neg_mpdiscr := True, l_mp_class := c,
        l_mp_addr := take (nat (clen - 3)) q @ drop (nat (clen - 3)) (l_mp_addr ho),
        l_mp_alen := word_of_int (clen - 3)\<rparr>)"
    using assms(2) by (auto simp: lcp_req_mpdiscr_def bindo_Ok_iff Let_def not_less split: if_splits)
  have "unat (word_of_int (clen - 3) :: u8) \<le> 20"
    using q False by (intro unat_byte_le) auto
  then have "lcp_granted ao go (ho\<lparr>l_neg_mpdiscr := True, l_mp_class := c,
        l_mp_addr := take (nat (clen - 3)) q @ drop (nat (clen - 3)) (l_mp_addr ho),
        l_mp_alen := word_of_int (clen - 3)\<rparr>)"
    using False q grant_length [OF assms(1)] by (intro grant(10) assms(1)) auto
  then show ?thesis by (simp only: v verdict_ok_def prod.case) (simp add: code_defs)
qed

lemma req_ci_ok:
  assumes "lcp_granted ao go ho" "lcp_req_ci ao go mg ho citype clen p = Ok v"
  shows "verdict_ok ao go citype clen v"
proof -
  have other: "verdict_ok ao go c clen (CONFREJ, [], ho)" for c
    using assms(1) by (simp add: verdict_ok_def code_defs)
  note rules = assms(1) req_mru_ok req_asyncmap_ok req_auth_ok req_quality_ok req_magic_ok req_comp_ok
    req_mp_ok req_mpdiscr_ok other
  show ?thesis
    using assms(2) unfolding lcp_req_ci_def
    by (simp split: if_splits) (blast intro: rules)+
qed

section \<open>The loop\<close>

lemma lcp_req_loop_inv:
  assumes step: "\<And>st st'. I st \<Longrightarrow> r_l st \<noteq> 0 \<Longrightarrow> lcp_req_step ao go mg rid st = Ok st' \<Longrightarrow> I st'"
  shows "I st \<Longrightarrow> lcp_req_loop ao go mg rid st = Ok st' \<Longrightarrow> I st' \<and> r_l st' = 0"
proof (induction "nat \<bar>r_l st\<bar>" arbitrary: st rule: less_induct)
  case less
  show ?case
  proof (cases "r_l st = 0")
    case True
    with less.prems show ?thesis by (simp add: lcp_req_loop.simps)
  next
    case False
    with less.prems(2) obtain s1 where s1: "lcp_req_step ao go mg rid st = Ok s1"
      and r: "lcp_req_loop ao go mg rid s1 = Ok st'"
      by (auto simp: lcp_req_loop.simps [of _ _ _ _ st] bindo_Ok_iff)
    show ?thesis
      using less.hyps [OF lcp_req_step_l [OF False s1] step [OF less.prems(1) False s1] r] .
  qed
qed

text \<open>The two ways through one turn.\<close>

lemma lcp_req_step_cases:
  assumes "lcp_req_step ao go mg rid st = Ok st'"
  obtains (bad) "lcp_req_answer rid 0 CONFREJ (r_next st) (unat (word_of_int (r_l st) :: u8)) (st\<lparr>r_l := 0\<rparr>) = Ok st'"
  | (good) citype c1 p orc nak ho where
      "drop (r_next st) (r_buf st) = citype # c1 # p" "2 \<le> uint c1" "uint c1 \<le> r_l st"
      "lcp_req_ci ao go (mg (r_drawn st)) (r_ho st) citype (uint c1) p = Ok (orc, nak, ho)"
      "int (length (r_nak st @ nak)) \<le> PPP_MRU"
      "lcp_req_answer rid citype orc (r_next st) (unat c1)
         (st\<lparr>r_l := r_l st - uint c1, r_next := r_next st + unat c1, r_nak := r_nak st @ nak, r_ho := ho,
            r_drawn := r_drawn st + (if citype = CI_MAGICNUMBER \<and> orc = CONFNAK then 1 else 0)\<rparr>) = Ok st'"
proof (cases "r_l st < 2")
  case True
  with assms bad show ?thesis by (simp add: lcp_req_step_def Let_def)
next
  case False
  with assms obtain citype c1 p where d: "drop (r_next st) (r_buf st) = citype # c1 # p"
    by (auto simp: lcp_req_step_def Let_def split: list.splits)
  show ?thesis
  proof (cases "uint c1 < 2 \<or> uint c1 > r_l st")
    case True
    with assms bad False d show ?thesis by (simp add: lcp_req_step_def Let_def)
  next
    case good': False
    then show ?thesis
      using assms False d
      by (auto simp: lcp_req_step_def Let_def bindo_Ok_iff intro!: good split: if_splits)
  qed
qed

text \<open>What the answer to one option changes.\<close>

lemma req_answer_cases:
  assumes "lcp_req_answer rid citype orc cip n st = Ok st'" "orc \<in> {CONFACK, CONFNAK, CONFREJ}"
  obtains (skip) "st' = st" "orc \<noteq> CONFREJ" "orc = CONFACK \<or> r_rc st = CONFREJ"
  | (nak) "st' = st\<lparr>r_rc := CONFNAK\<rparr>" "orc = CONFNAK" "r_rc st \<noteq> CONFREJ" "rid \<longrightarrow> citype = CI_MAGICNUMBER"
  | (reject) "st' = st\<lparr>r_rc := CONFREJ, r_buf := copy_within cip (r_rejp st) n (r_buf st), r_rejp := r_rejp st + n\<rparr>"
      "cip + n \<le> length (r_buf st)" "r_rejp st + n \<le> length (r_buf st)" "orc \<noteq> CONFACK"
  using assms
  by (auto simp: lcp_req_answer_def req_reject_def code_defs not_less split: if_splits)

text \<open>The peer is granted only what we allow, whatever the code of the answer.\<close>

lemma req_answer_frame:
  assumes "lcp_req_answer rid citype orc cip n st = Ok st'"
  shows "r_ho st' = r_ho st" "r_nak st' = r_nak st" "r_next st' = r_next st"
    "length (r_buf st') = length (r_buf st)" "r_drawn st' = r_drawn st"
  using assms
  by (auto simp: lcp_req_answer_def req_reject_def copy_within_def split: if_splits)

lemma lcp_req_step_granted:
  assumes "lcp_req_step ao go mg rid st = Ok st'" "lcp_granted ao go (r_ho st)"
  shows "lcp_granted ao go (r_ho st')"
  using assms(1)
proof (cases rule: lcp_req_step_cases)
  case bad
  then show ?thesis using req_answer_frame(1) assms(2) by fastforce
next
  case (good citype c1 p orc nak ho)
  have "lcp_granted ao go ho"
    using req_ci_ok [OF assms(2) good(4)] by (simp add: verdict_ok_def)
  then show ?thesis using req_answer_frame(1) [OF good(6)] by simp
qed

lemma lcp_reqci_granted:
  assumes "lcp_reqci ao go mg inp len rid = Ok (code, out, len', ho, d)"
  shows "lcp_granted ao go ho"
proof -
  obtain st where st: "lcp_req_loop ao go mg rid \<lparr>r_buf = inp, r_next = 0, r_rejp = 0, r_nak = [],
      r_l = len, r_rc = CONFACK, r_ho = zero_lcp_options, r_drawn = 0\<rparr> = Ok st"
    and r: "lcp_req_result st = Ok (code, out, len', ho, d)"
    using assms by (auto simp: lcp_reqci_def bindo_Ok_iff)
  have "lcp_granted ao go (r_ho st)"
    using lcp_req_loop_inv [where I = "\<lambda>st. lcp_granted ao go (r_ho st)", OF lcp_req_step_granted _ st]
    by (simp add: granted_zero)
  then show ?thesis using r by (auto simp: lcp_req_result_def split: if_splits)
qed

text \<open>
  The shape of the answer. \<open>opts\<close> are the options seen so far, \<open>rej\<close> the rejected ones among them,
  \<open>naks\<close> the ones in \<open>nak_buffer\<close>.
\<close>

definition req_shape :: "u8 list \<Rightarrow> int \<Rightarrow> bool \<Rightarrow> lcp_req \<Rightarrow> u8 list list \<Rightarrow> u8 list list \<Rightarrow> u8 list list \<Rightarrow> bool" where
  "req_shape inp len rid st opts rej naks \<longleftrightarrow>
     list_all is_ci opts \<and> list_all is_ci naks \<and> subseq rej opts
     \<and> take (length (concat opts)) inp = concat opts \<and> r_next st = length (concat opts)
     \<and> int (length (concat opts)) + r_l st = len \<and> 0 \<le> r_l st
     \<and> length (r_buf st) = length inp
     \<and> drop (length (concat opts)) (r_buf st) = drop (length (concat opts)) inp
     \<and> take (length (concat rej)) (r_buf st) = concat rej \<and> r_rejp st = length (concat rej)
     \<and> length (concat rej) \<le> length (concat opts)
     \<and> r_nak st = concat naks
     \<and> (r_rc st = CONFACK \<longrightarrow> rej = [] \<and> r_buf st = inp)
     \<and> (r_rc st = CONFNAK \<longrightarrow> rej = [] \<and> naks \<noteq> [])
     \<and> (r_rc st \<noteq> CONFREJ \<longrightarrow> rid \<longrightarrow> list_all (\<lambda>c. hd c = CI_MAGICNUMBER) naks)
     \<and> r_rc st \<in> {CONFACK, CONFNAK, CONFREJ}"

text \<open>\<open>bad\<close> is the rest of the packet behind the first malformed option.\<close>

definition reject_tail :: "u8 list \<Rightarrow> u8 list" where
  "reject_tail bad = take (length bad mod 256) bad"

definition req_shape_bad :: "u8 list \<Rightarrow> int \<Rightarrow> lcp_req \<Rightarrow> u8 list list \<Rightarrow> u8 list list \<Rightarrow> u8 list \<Rightarrow> bool" where
  "req_shape_bad inp len st opts rej bad \<longleftrightarrow>
     list_all is_ci opts \<and> subseq rej opts \<and> bad \<noteq> []
     \<and> take (nat len) inp = concat opts @ bad
     \<and> take (r_rejp st) (r_buf st) = concat rej @ reject_tail bad
     \<and> r_rejp st = length (concat rej @ reject_tail bad)
     \<and> r_l st = 0 \<and> r_rc st = CONFREJ"

lemma req_shape_bad_step:
  assumes sh: "req_shape inp len rid st opts rej naks" and l: "r_l st \<noteq> 0" and w: "within (inp, len)"
    and a: "lcp_req_answer rid 0 CONFREJ (r_next st) (unat (word_of_int (r_l st) :: u8)) (st\<lparr>r_l := 0\<rparr>) = Ok st'"
  shows "\<exists>bad. req_shape_bad inp len st' opts rej bad"
proof -
  define bad where "bad = take (nat (r_l st)) (drop (r_next st) inp)"
  define n where "n = unat (word_of_int (r_l st) :: u8)"
  have pos: "int (r_next st) + r_l st = len" "0 \<le> r_l st" "len \<le> int (length inp)"
    using sh w by (simp_all add: req_shape_def within_def)
  have lbad: "length bad = nat (r_l st)" using pos by (auto simp: bad_def)
  have "n = nat (r_l st) mod 256"
    using pos(2) by (simp add: n_def unat_eq_nat_uint uint_word_of_int nat_mod_distrib)
  then have n: "n = length bad mod 256" by (simp add: lbad)
  then have "n \<le> length bad" by simp
  have nl: "nat len = r_next st + nat (r_l st)" using pos by arith
  have "take (r_next st) inp = concat opts" using sh by (simp add: req_shape_def)
  then have "take (nat len) inp = concat opts @ bad"
    unfolding nl take_add bad_def by (simp only:)
  moreover have st': "st' = st\<lparr>r_l := 0, r_rc := CONFREJ,
      r_buf := copy_within (r_next st) (r_rejp st) n (r_buf st), r_rejp := r_rejp st + n\<rparr>"
    "r_next st + n \<le> length (r_buf st)" "r_rejp st + n \<le> length (r_buf st)"
    using a by (auto simp: lcp_req_answer_def req_reject_def code_defs n_def split: if_splits)
  moreover have "take n (drop (r_next st) (r_buf st)) = reject_tail bad"
    using sh \<open>n \<le> length bad\<close> lbad by (simp add: req_shape_def reject_tail_def bad_def n min_def)
  moreover have "length (reject_tail bad) = n" using n by (simp add: reject_tail_def)
  moreover have "bad \<noteq> []" using lbad l pos(2) by auto
  ultimately have "req_shape_bad inp len st' opts rej bad"
    using sh by (simp add: req_shape_bad_def req_shape_def copy_within_parts)
  then show ?thesis ..
qed

lemma req_shape_good_step:
  assumes sh: "req_shape inp len rid st opts rej naks" and w: "within (inp, len)"
    and d: "drop (r_next st) (r_buf st) = citype # c1 # p" "2 \<le> uint c1" "uint c1 \<le> r_l st"
    and v: "orc \<in> {CONFACK, CONFNAK, CONFREJ}" "if orc = CONFNAK then is_ci nak \<and> hd nak = citype else nak = []"
    and a: "lcp_req_answer rid citype orc (r_next st) (unat c1)
         (st\<lparr>r_l := r_l st - uint c1, r_next := r_next st + unat c1, r_nak := r_nak st @ nak, r_ho := ho,
            r_drawn := k\<rparr>) = Ok st'"
  shows "\<exists>opts rej naks. req_shape inp len rid st' opts rej naks"
proof -
  define o1 where "o1 = take (unat c1) (drop (r_next st) inp)"
  define naks' where "naks' = (if orc = CONFNAK then naks @ [nak] else naks)"
  have pos: "int (r_next st) + r_l st = len" "len \<le> int (length inp)"
    "drop (r_next st) (r_buf st) = drop (r_next st) inp" "length (r_buf st) = length inp"
    "r_rejp st \<le> r_next st"
    using sh w by (auto simp: req_shape_def within_def)
  have u: "int (unat c1) = uint c1" by simp
  have le: "r_next st + unat c1 \<le> length inp" using pos d(3) u by linarith
  then have lo: "length o1 = unat c1" by (simp add: o1_def)
  have "2 \<le> unat c1" using d(2) u by linarith
  then have "o1 ! 1 = c1" using d(1) pos(3) by (simp add: o1_def)
  then have ci: "is_ci o1" using \<open>2 \<le> unat c1\<close> lo by (simp add: is_ci_def)
  have nx: "take (r_next st + unat c1) inp = concat (opts @ [o1])" "r_next st + unat c1 = length (concat (opts @ [o1]))"
    using sh lo unfolding take_add o1_def by (simp_all add: req_shape_def)
  have naks: "r_nak st @ nak = concat naks'" "list_all is_ci naks'"
    using sh v(2) by (auto simp: naks'_def req_shape_def split: if_splits)
  have dr: "drop (r_next st + unat c1) (r_buf st) = drop (r_next st + unat c1) inp"
    using pos(3) by (metis add.commute drop_drop)
  define st1 where "st1 = st\<lparr>r_l := r_l st - uint c1, r_next := r_next st + unat c1,
      r_nak := r_nak st @ nak, r_ho := ho, r_drawn := k\<rparr>"
  note sdef = req_shape_def st1_def
  from a [folded st1_def] v(1) show ?thesis
  proof (cases rule: req_answer_cases)
    case skip
    have "subseq rej (opts @ [o1])" using sh by (auto simp: req_shape_def)
    then have "req_shape inp len rid st1 (opts @ [o1]) rej naks'"
      using sh nx naks dr ci d(3) u pos skip(2,3)
      by (auto simp: sdef naks'_def code_defs)
    then show ?thesis using skip(1) by blast
  next
    case nak
    have "subseq rej (opts @ [o1])" using sh by (auto simp: req_shape_def)
    moreover have "rid \<longrightarrow> list_all (\<lambda>c. hd c = CI_MAGICNUMBER) naks'"
      using sh nak v(2) by (auto simp: naks'_def sdef)
    moreover have "rej = []" "naks' \<noteq> []"
      using sh nak by (auto simp: sdef naks'_def)
    ultimately have "req_shape inp len rid st' (opts @ [o1]) rej naks'"
      using sh nx naks dr ci d(3) u pos nak
      by (auto simp: sdef code_defs)
    then show ?thesis by blast
  next
    case reject
    have "take (unat c1) (drop (r_next st) (r_buf st)) = o1" by (simp add: o1_def pos(3))
    moreover have "subseq (rej @ [o1]) (opts @ [o1])" using sh by (simp add: req_shape_def)
    ultimately have "req_shape inp len rid st' (opts @ [o1]) (rej @ [o1]) naks'"
      using sh nx naks dr ci d(3) u pos reject lo
      by (auto simp: sdef code_defs copy_within_parts)
    then show ?thesis by blast
  qed
qed

definition req_inv :: "u8 list \<Rightarrow> int \<Rightarrow> bool \<Rightarrow> lcp_options \<Rightarrow> lcp_options \<Rightarrow> lcp_req \<Rightarrow> bool" where
  "req_inv inp len rid ao go st \<longleftrightarrow>
     lcp_granted ao go (r_ho st)
     \<and> ((\<exists>opts rej naks. req_shape inp len rid st opts rej naks) \<or> (\<exists>opts rej bad. req_shape_bad inp len st opts rej bad))"

lemma req_inv_step:
  assumes "within (inp, len)" "req_inv inp len rid ao go st" "r_l st \<noteq> 0" "lcp_req_step ao go mg rid st = Ok st'"
  shows "req_inv inp len rid ao go st'"
proof -
  have g: "lcp_granted ao go (r_ho st)" using assms(2) by (simp add: req_inv_def)
  have g': "lcp_granted ao go (r_ho st')" using lcp_req_step_granted [OF assms(4) g] .
  obtain opts rej naks where sh: "req_shape inp len rid st opts rej naks"
    using assms(2,3) by (auto simp: req_inv_def req_shape_bad_def)
  from assms(4) show ?thesis
  proof (cases rule: lcp_req_step_cases)
    case bad
    then show ?thesis using req_shape_bad_step [OF sh assms(3,1)] g' by (auto simp: req_inv_def)
  next
    case (good citype c1 p orc nak ho)
    have "orc \<in> {CONFACK, CONFNAK, CONFREJ}" "if orc = CONFNAK then is_ci nak \<and> hd nak = citype else nak = []"
      using req_ci_ok [OF g good(4)] by (auto simp: verdict_ok_def split: if_splits)
    then show ?thesis
      using req_shape_good_step [OF sh assms(1) good(1-3) _ _ good(6)] g' by (auto simp: req_inv_def)
  qed
qed

definition req_start :: "u8 list \<Rightarrow> int \<Rightarrow> lcp_req" where
  "req_start inp len = \<lparr>r_buf = inp, r_next = 0, r_rejp = 0, r_nak = [], r_l = len, r_rc = CONFACK,
     r_ho = zero_lcp_options, r_drawn = 0\<rparr>"

lemma req_inv_start: "within (inp, len) \<Longrightarrow> req_inv inp len rid ao go (req_start inp len)"
  unfolding req_inv_def
  by (intro conjI disjI1 exI [of _ "[]"]) (simp_all add: req_start_def granted_zero req_shape_def within_def code_defs)

lemma lcp_reqci_shape:
  assumes w: "within (inp, len)" and r: "lcp_reqci ao go mg inp len rid = Ok (code, out, len', ho, d)"
  shows "(\<exists>opts. code = CONFACK \<and> out = inp \<and> len' = len \<and> list_all is_ci opts \<and> take (nat len) inp = concat opts)
    \<or> (\<exists>naks. code = CONFNAK \<and> take (nat len') out = concat naks \<and> naks \<noteq> [] \<and> list_all is_ci naks
         \<and> (rid \<longrightarrow> list_all (\<lambda>c. hd c = CI_MAGICNUMBER) naks))
    \<or> (\<exists>opts rej bad. code = CONFREJ \<and> take (nat len) inp = concat opts @ bad \<and> list_all is_ci opts
         \<and> subseq rej opts \<and> take (nat len') out = concat rej @ reject_tail bad)"
proof -
  obtain st where st: "lcp_req_loop ao go mg rid (req_start inp len) = Ok st"
    and res: "lcp_req_result st = Ok (code, out, len', ho, d)"
    using r by (auto simp: lcp_reqci_def bindo_Ok_iff req_start_def)
  have "req_inv inp len rid ao go st \<and> r_l st = 0"
    using lcp_req_loop_inv [where I = "req_inv inp len rid ao go", OF req_inv_step [OF w] req_inv_start [OF w] st] .
  then consider (shape) opts rej naks where "req_shape inp len rid st opts rej naks" "r_l st = 0"
    | (bad) opts rej bad where "req_shape_bad inp len st opts rej bad"
    by (auto simp: req_inv_def)
  then show ?thesis
  proof cases
    case bad
    then have b: "take (nat len) inp = concat opts @ bad" "list_all is_ci opts" "subseq rej opts"
      "take (r_rejp st) (r_buf st) = concat rej @ reject_tail bad" "r_rc st = CONFREJ"
      unfolding req_shape_bad_def by blast+
    have "code = CONFREJ" "out = r_buf st" "len' = int (r_rejp st)"
      using res b(5) by (simp_all add: lcp_req_result_def code_defs)
    then show ?thesis using b by auto
  next
    case (shape opts rej naks)
    then have all: "take (nat len) inp = concat opts" by (auto simp: req_shape_def)
    consider "r_rc st = CONFACK" | "r_rc st = CONFNAK" | "r_rc st = CONFREJ"
      using shape by (auto simp: req_shape_def)
    then show ?thesis
    proof cases
      case 1
      then have "r_buf st = inp" "list_all is_ci opts" "int (r_next st) = len"
        using shape by (simp_all add: req_shape_def)
      then show ?thesis using 1 res all by (intro disjI1 exI [of _ opts]) (auto simp: lcp_req_result_def)
    next
      case 2
      then have n: "r_nak st = concat naks" "naks \<noteq> []" "list_all is_ci naks"
        "rid \<longrightarrow> list_all (\<lambda>c. hd c = CI_MAGICNUMBER) naks"
        using shape by (simp_all add: req_shape_def code_defs)
      have "code = CONFNAK" "take (nat len') out = concat naks"
        using 2 res n(1) by (auto simp: lcp_req_result_def code_defs split: if_splits)
      then show ?thesis using n by blast
    next
      case 3
      then have "code = CONFREJ \<and> take (nat len') out = concat rej"
        using shape res by (auto simp: lcp_req_result_def req_shape_def code_defs)
      then show ?thesis
        using all shape(1) by (intro disjI2 exI [of _ opts] exI [of _ rej] exI [of _ "[]"])
          (auto simp: req_shape_def reject_tail_def)
    qed
  qed
qed

section \<open>Memory safety\<close>

lemma req_ci_defined:
  assumes "clen - 2 \<le> int (length p)" "\<not> l_neg_mpdiscr ao"
  shows "\<exists>v. lcp_req_ci ao go mg ho citype clen p = Ok v"
proof -
  obtain x where s: "CILEN_SHORT \<le> clen \<longrightarrow> getshort p = Ok (x, drop 2 p)"
    using assms(1) getshort_drop [of p] by (cases "CILEN_SHORT \<le> clen") (auto simp: CILEN_SHORT_def)
  obtain y where l: "clen = CILEN_LONG \<longrightarrow> getlong p = Ok (y, drop 4 p)"
    using assms(1) getlong_drop [of p] by (cases "clen = CILEN_LONG") (auto simp: CILEN_LONG_def)
  have "clen = CILEN_CHAP \<Longrightarrow> 3 \<le> length p" using assms(1) by (simp add: CILEN_CHAP_def)
  then obtain c where c: "clen = CILEN_CHAP \<longrightarrow> getchar (drop 2 p) = Ok (c, drop 3 p)"
    by (cases "clen = CILEN_CHAP") (auto simp: numeral_eq_Suc Suc_le_length_iff)
  obtain z where q: "clen = CILEN_LQR \<longrightarrow> getlong (drop 2 p) = Ok (z, drop 4 (drop 2 p))"
  proof (cases "clen = CILEN_LQR")
    case True
    then have "4 \<le> length (drop 2 p)" using assms(1) by (simp add: CILEN_LQR_def)
    then show ?thesis using getlong_drop that by blast
  qed (use that in blast)
  have le: "CILEN_SHORT \<le> CILEN_LQR" by (simp add: cilen_defs)
  have "\<exists>v. lcp_req_mru ao ho clen p = Ok v" using s by (simp add: lcp_req_mru_def)
  moreover have "\<exists>v. lcp_req_asyncmap ao ho clen p = Ok v" using l by (simp add: lcp_req_asyncmap_def)
  moreover have "\<exists>v. lcp_req_auth ao ho clen p = Ok v" using s c by (simp add: lcp_req_auth_def)
  moreover have "\<exists>v. lcp_req_quality ao ho clen p = Ok v" using s q le by (simp add: lcp_req_quality_def)
  moreover have "\<exists>v. lcp_req_magic ao go mg ho clen p = Ok v" using l by (simp add: lcp_req_magic_def)
  moreover have "\<exists>v. lcp_req_mpmrru ao ho clen p = Ok v" using s by (simp add: lcp_req_mpmrru_def)
  moreover have "\<exists>v. lcp_req_pcomp ao ho clen = Ok v" by (simp add: lcp_req_pcomp_def)
  moreover have "\<exists>v. lcp_req_accomp ao ho clen = Ok v" by (simp add: lcp_req_accomp_def)
  moreover have "\<exists>v. lcp_req_mpdiscr ao ho clen p = Ok v" using assms(2) by (simp add: lcp_req_mpdiscr_def)
  moreover have "\<exists>v. lcp_req_mpshortseq ao ho clen = Ok v" by (simp add: lcp_req_mpshortseq_def)
  ultimately show ?thesis
    by (simp only: lcp_req_ci_def split: if_split) blast
qed

text \<open>The bytes in \<open>nak_buffer\<close> against the bytes read.\<close>

definition req_safe :: "u8 list \<Rightarrow> int \<Rightarrow> bool \<Rightarrow> lcp_options \<Rightarrow> lcp_options \<Rightarrow> lcp_req \<Rightarrow> bool" where
  "req_safe inp len rid ao go st \<longleftrightarrow>
     req_inv inp len rid ao go st \<and> 4 * length (r_nak st) \<le> 5 * r_next st
     \<and> int (r_next st) + r_l st \<le> len \<and> length (r_buf st) = length inp"

lemma req_answer_defined:
  assumes "orc \<in> {CONFACK, CONFNAK, CONFREJ}" "cip + n \<le> length (r_buf st)" "r_rejp st + n \<le> length (r_buf st)"
  shows "\<exists>st'. lcp_req_answer rid citype orc cip n st = Ok st'"
  using assms by (auto simp: lcp_req_answer_def req_reject_def code_defs)

lemma nak_bound: "4 * a \<le> 5 * b \<Longrightarrow> int b \<le> len \<Longrightarrow> 5 * len \<le> 4 * m \<Longrightarrow> int a \<le> m"
  for a b :: nat
  by linarith

lemma req_safe_step:
  assumes safe: "req_safe inp len rid ao go st" and l: "r_l st \<noteq> 0" and w: "within (inp, len)"
    and ao: "\<not> l_neg_mpdiscr ao" and len: "5 * len \<le> 4 * PPP_MRU"
  shows "\<exists>st'. lcp_req_step ao go mg rid st = Ok st' \<and> req_safe inp len rid ao go st'"
proof -
  obtain opts rej naks where sh: "req_shape inp len rid st opts rej naks"
    using safe l by (auto simp: req_safe_def req_inv_def req_shape_bad_def)
  have g: "lcp_granted ao go (r_ho st)" using safe by (simp add: req_safe_def req_inv_def)
  have pos: "0 \<le> r_l st" "int (r_next st) + r_l st = len" "length (r_buf st) = length inp"
    "r_rejp st \<le> r_next st" "len \<le> int (length inp)" "4 * length (r_nak st) \<le> 5 * r_next st"
    using sh w safe by (simp_all add: req_shape_def within_def req_safe_def)
  show ?thesis
  proof (cases "r_l st < 2 \<or> (\<exists>citype c1 p. drop (r_next st) (r_buf st) = citype # c1 # p
      \<and> (uint c1 < 2 \<or> uint c1 > r_l st))")
    case True
    then have step: "lcp_req_step ao go mg rid st = lcp_req_answer rid 0 CONFREJ (r_next st)
        (unat (word_of_int (r_l st) :: u8)) (st\<lparr>r_l := 0\<rparr>)"
      by (auto simp: lcp_req_step_def Let_def)
    have "uint (word_of_int (r_l st) :: u8) \<le> r_l st"
      using pos(1) by (simp add: uint_word_of_int zmod_le_nonneg_dividend)
    then have "int (unat (word_of_int (r_l st) :: u8)) \<le> r_l st" by simp
    then have "r_next st + unat (word_of_int (r_l st) :: u8) \<le> length (r_buf st)"
      using pos by linarith
    then obtain st' where a: "lcp_req_answer rid 0 CONFREJ (r_next st) (unat (word_of_int (r_l st) :: u8)) (st\<lparr>r_l := 0\<rparr>) = Ok st'"
      using pos req_answer_defined [of CONFREJ "r_next st" "unat (word_of_int (r_l st) :: u8)" "st\<lparr>r_l := 0\<rparr>" rid 0]
      by auto
    then have "lcp_req_step ao go mg rid st = Ok st'" by (simp add: step)
    moreover from this have "req_inv inp len rid ao go st'"
      using req_inv_step [OF w _ l] safe by (simp add: req_safe_def)
    ultimately show ?thesis
      using req_answer_frame [OF a] req_answer_l [OF a] pos by (simp add: req_safe_def)
  next
    case False
    have "\<not> r_l st < 2" using False by blast
    then have "2 \<le> int (length inp) - int (r_next st)" using pos by linarith
    then have "2 \<le> length (drop (r_next st) (r_buf st))" using pos by simp
    then obtain citype c1 p where d: "drop (r_next st) (r_buf st) = citype # c1 # p"
      by (cases "drop (r_next st) (r_buf st)" rule: remdups_adj.cases) auto
    then have c1: "2 \<le> uint c1" "uint c1 \<le> r_l st" using False by auto
    have u: "int (unat c1) = uint c1" by simp
    have "int (length (drop (r_next st) (r_buf st))) = int (length inp) - int (r_next st)"
      using pos by (simp add: of_nat_diff)
    then have "uint c1 - 2 \<le> int (length p)" using d c1(2) pos by simp
    then obtain orc nak ho where v: "lcp_req_ci ao go (mg (r_drawn st)) (r_ho st) citype (uint c1) p = Ok (orc, nak, ho)"
      using req_ci_defined [OF _ ao] by (metis prod_cases3)
    then have ok: "verdict_ok ao go citype (uint c1) (orc, nak, ho)" by (rule req_ci_ok [OF g])
    then have orc: "orc \<in> {CONFACK, CONFNAK, CONFREJ}" by (auto simp: verdict_ok_def split: if_splits)
    have "4 * int (length nak) \<le> 5 * uint c1"
      using ok c1 by (auto simp: verdict_ok_def split: if_splits)
    then have "int (4 * length nak) \<le> int (5 * unat c1)" by simp
    then have "4 * length nak \<le> 5 * unat c1" by (simp only: of_nat_le_iff)
    then have nk: "4 * length (r_nak st @ nak) \<le> 5 * (r_next st + unat c1)" using add_mono [OF pos(6)] by (simp only: length_append distrib_left)
    have "int (r_next st + unat c1) \<le> len" using pos(2) c1 u by linarith
    from nak_bound [OF nk this len] have fits: "\<not> PPP_MRU < int (length (r_nak st @ nak))" by simp
    define st1 where "st1 = st\<lparr>r_l := r_l st - uint c1, r_next := r_next st + unat c1, r_nak := r_nak st @ nak,
        r_ho := ho, r_drawn := r_drawn st + (if citype = CI_MAGICNUMBER \<and> orc = CONFNAK then 1 else 0)\<rparr>"
    have step: "lcp_req_step ao go mg rid st = lcp_req_answer rid citype orc (r_next st) (unat c1) st1"
      using False d c1 v fits by (simp add: lcp_req_step_def Let_def st1_def)
    have "r_next st + unat c1 \<le> length inp" using pos c1 u by linarith
    then obtain st' where a: "lcp_req_answer rid citype orc (r_next st) (unat c1) st1 = Ok st'"
      using req_answer_defined [OF orc, of "r_next st" "unat c1" st1 rid citype] pos by (auto simp: st1_def)
    then have "lcp_req_step ao go mg rid st = Ok st'" by (simp add: step)
    moreover from this have "req_inv inp len rid ao go st'"
      using req_inv_step [OF w _ l] safe by (simp add: req_safe_def)
    ultimately show ?thesis
      using req_answer_frame [OF a] req_answer_l [OF a] pos nk u by (simp add: req_safe_def st1_def)
  qed
qed

lemma lcp_reqci_defined:
  assumes w: "within (inp, len)" and ao: "\<not> l_neg_mpdiscr ao"
    and len: "5 * len \<le> 4 * PPP_MRU" "5 * len \<le> 4 * int (length inp)"
  shows "\<exists>r. lcp_reqci ao go mg inp len rid = Ok r"
proof -
  have run: "req_safe inp len rid ao go st \<Longrightarrow> \<exists>st'. lcp_req_loop ao go mg rid st = Ok st' \<and> req_safe inp len rid ao go st' \<and> r_l st' = 0" for st
  proof (induction "nat \<bar>r_l st\<bar>" arbitrary: st rule: less_induct)
    case less
    show ?case
    proof (cases "r_l st = 0")
      case True
      with less.prems show ?thesis by (simp add: lcp_req_loop.simps)
    next
      case False
      obtain s1 where s1: "lcp_req_step ao go mg rid st = Ok s1" "req_safe inp len rid ao go s1"
        using req_safe_step [OF less.prems False w ao len(1)] by blast
      then show ?thesis
        using less.hyps [OF lcp_req_step_l [OF False s1(1)] s1(2)] False
        by (simp add: lcp_req_loop.simps [of _ _ _ _ st])
    qed
  qed
  have "req_safe inp len rid ao go (req_start inp len)"
    using req_inv_start [OF w] by (simp add: req_safe_def) (simp add: req_start_def)
  from run [OF this] obtain st where st: "lcp_req_loop ao go mg rid (req_start inp len) = Ok st"
    "req_safe inp len rid ao go st" "r_l st = 0" by blast
  have "4 * int (length (r_nak st)) \<le> 5 * int (r_next st)" using st(2) by (simp add: req_safe_def)
  moreover have "int (r_next st) \<le> len" using st(2,3) by (simp add: req_safe_def)
  ultimately have "int (length (r_nak st)) \<le> int (length inp)" using len(2) by linarith
  then have "length (r_nak st) \<le> length (r_buf st)" using st(2) by (simp add: req_safe_def)
  then have "\<exists>r. lcp_req_result st = Ok r" by (simp add: lcp_req_result_def)
  then show ?thesis using st(1) by (simp add: lcp_reqci_def req_start_def)
qed

end
