(* ===== verification/Upap.thy ===== *)
theory Upap
  imports Fsm_Timers
begin

text \<open>
  The Password Authentication Protocol of upap.c: a client that repeats its Authenticate-Request until
  it is answered, and a server that waits for one and has the name and password checked.

  \<open>upap_state\<close> is the C struct. \<open>'w upap_sys\<close> adds the two timers as the number of their entries on the
  callout list, the packets given to \<open>output_ppp\<close>, the mark \<open>u_ub\<close> for an access outside a buffer, and
  the rest of the program, \<open>u_world\<close>. What upap.c calls in auth.c is the argument \<open>hk\<close>: these functions
  can come back to \<open>upap_lowerdown\<close>, so they map the whole state.
\<close>

section \<open>State\<close>

datatype upap_client =
  UPAPCS_INITIAL | UPAPCS_CLOSED | UPAPCS_PENDING | UPAPCS_AUTHREQ | UPAPCS_OPEN | UPAPCS_BADAUTH

datatype upap_server =
  UPAPSS_INITIAL | UPAPSS_CLOSED | UPAPSS_PENDING | UPAPSS_LISTEN | UPAPSS_OPEN | UPAPSS_BADAUTH

text \<open>The server states are compared as the numbers they are in C.\<close>

fun server_number :: "upap_server \<Rightarrow> nat" where
  "server_number UPAPSS_INITIAL = 0"
| "server_number UPAPSS_CLOSED = 1"
| "server_number UPAPSS_PENDING = 2"
| "server_number UPAPSS_LISTEN = 3"
| "server_number UPAPSS_OPEN = 4"
| "server_number UPAPSS_BADAUTH = 5"

instantiation upap_server :: linorder
begin

definition less_eq_upap_server :: "upap_server \<Rightarrow> upap_server \<Rightarrow> bool" where
  "less_eq_upap_server a b \<longleftrightarrow> server_number a \<le> server_number b"

definition less_upap_server :: "upap_server \<Rightarrow> upap_server \<Rightarrow> bool" where
  "less_upap_server a b \<longleftrightarrow> server_number a < server_number b"

instance
proof
  fix a b :: upap_server
  show "a \<le> b \<Longrightarrow> b \<le> a \<Longrightarrow> a = b"
    by (cases a; cases b) (simp_all add: less_eq_upap_server_def)
qed (auto simp: less_eq_upap_server_def less_upap_server_def)

end

definition UPAP_AUTHREQ :: u8 where "UPAP_AUTHREQ = 1"
definition UPAP_AUTHACK :: u8 where "UPAP_AUTHACK = 2"
definition UPAP_AUTHNAK :: u8 where "UPAP_AUTHNAK = 3"

lemmas upap_code_defs = UPAP_AUTHREQ_def UPAP_AUTHACK_def UPAP_AUTHNAK_def

definition UPAP_HEADERLEN :: int where "UPAP_HEADERLEN = 4"
definition UPAP_DEFTIMEOUT :: int where "UPAP_DEFTIMEOUT = 3"
definition UPAP_DEFREQTIME :: int where "UPAP_DEFREQTIME = 30"
definition PPP_PAP_proto :: u16 where "PPP_PAP_proto = 0xc023"

record upap_state =
  us_unit :: int
  us_user :: "u8 list"
  us_ruser :: "u8 list"
  us_userlen :: int
  us_ruserlen :: int
  us_passwd :: "u8 list"
  us_rpasswd :: "u8 list"
  us_passwdlen :: int
  us_rpasswdlen :: int
  us_clientstate :: upap_client
  us_serverstate :: upap_server
  us_id :: u8
  us_timeouttime :: int
  us_transmits :: int
  us_maxtransmits :: int
  us_reqtimeout :: int

record 'w upap_sys = upap_state +
  u_retrans :: nat
  u_reqtimers :: nat
  u_sent :: "u8 list list"
  u_ub :: bool
  u_world :: 'w

text \<open>Reasons of a failure, as auth.c passes them to the script.\<close>

datatype auth_error = AUTH_ERR_TIME | AUTH_ERR_PROT | AUTH_ERR_USER

record 'w upap_hooks =
  auth_withpeer_fail :: "auth_error \<Rightarrow> 'w upap_sys \<Rightarrow> 'w upap_sys"
  auth_withpeer_success :: "'w upap_sys \<Rightarrow> 'w upap_sys"
  auth_peer_fail :: "auth_error \<Rightarrow> 'w upap_sys \<Rightarrow> 'w upap_sys"
  auth_peer_success :: "'w upap_sys \<Rightarrow> 'w upap_sys"
  check_passwd :: "u8 list \<Rightarrow> u8 list \<Rightarrow> 'w upap_sys \<Rightarrow> u8 \<times> u8 list \<times> 'w upap_sys"
  set_userip :: "u8 list \<Rightarrow> int \<Rightarrow> 'w upap_sys \<Rightarrow> 'w upap_sys"

section \<open>Sending\<close>

text \<open>\<open>MAKEHEADER\<close> and the bytes behind it, which have to fit into \<open>outpacket_buf\<close>.\<close>

definition upap_output :: "u8 list \<Rightarrow> 'w upap_sys \<Rightarrow> 'w upap_sys" where
  "upap_output bytes u =
     u\<lparr>u_sent := u_sent u @ [[0xff, 0x03] @ putshort PPP_PAP_proto @ bytes],
       u_ub := u_ub u \<or> PPP_HDRLEN + int (length bytes) > PPP_MRU + PPP_HDRLEN\<rparr>"

definition upap_sauthreq :: "'w upap_sys \<Rightarrow> 'w upap_sys" where
  "upap_sauthreq u =
     (let outlen = UPAP_HEADERLEN + 2 + us_userlen u + us_passwdlen u;
          u = u\<lparr>us_id := us_id u + 1\<rparr>;
          u = upap_output ([UPAP_AUTHREQ, us_id u] @ putshort (word_of_int outlen)
                @ [word_of_int (us_userlen u)] @ take (nat (us_userlen u)) (us_user u)
                @ [word_of_int (us_passwdlen u)] @ take (nat (us_passwdlen u)) (us_passwd u)) u
      in u\<lparr>u_retrans := Suc (u_retrans u), us_transmits := us_transmits u + 1,
           us_clientstate := UPAPCS_AUTHREQ\<rparr>)"

definition upap_sresp :: "u8 \<Rightarrow> u8 \<Rightarrow> u8 list \<Rightarrow> 'w upap_sys \<Rightarrow> 'w upap_sys" where
  "upap_sresp code pid msg u =
     upap_output ([code, pid] @ putshort (word_of_int (UPAP_HEADERLEN + 1 + int (length msg)))
       @ [word_of_int (int (length msg))] @ msg) u"

section \<open>Requests from the other parts of the daemon\<close>

definition upap_init :: "int \<Rightarrow> 'w upap_sys \<Rightarrow> 'w upap_sys" where
  "upap_init unit u =
     u\<lparr>us_unit := unit, us_ruser := (us_ruser u)[0 := 0], us_ruserlen := 0,
       us_rpasswd := (us_rpasswd u)[0 := 0], us_rpasswdlen := 0, us_user := [], us_userlen := 0,
       us_passwd := [], us_passwdlen := 0, us_clientstate := UPAPCS_INITIAL,
       us_serverstate := UPAPSS_INITIAL, us_id := 0, us_timeouttime := UPAP_DEFTIMEOUT,
       us_maxtransmits := 10, us_reqtimeout := UPAP_DEFREQTIME\<rparr>"

definition upap_authwithpeer :: "u8 list \<Rightarrow> u8 list \<Rightarrow> 'w upap_sys \<Rightarrow> 'w upap_sys" where
  "upap_authwithpeer user password u =
     (let u = u\<lparr>us_user := user, us_userlen := int (length user), us_passwd := password,
                us_passwdlen := int (length password), us_transmits := 0\<rparr>
      in if us_clientstate u \<in> {UPAPCS_INITIAL, UPAPCS_PENDING} then u\<lparr>us_clientstate := UPAPCS_PENDING\<rparr>
         else upap_sauthreq u)"

text \<open>\<open>TIMEOUT(upap_reqtimeout, u, \<dots>)\<close> and its cancellation, both only with a time limit.\<close>

definition start_reqtimer :: "'w upap_sys \<Rightarrow> 'w upap_sys" where
  "start_reqtimer u = (if us_reqtimeout u > 0 then u\<lparr>u_reqtimers := Suc (u_reqtimers u)\<rparr> else u)"

definition stop_reqtimer :: "'w upap_sys \<Rightarrow> 'w upap_sys" where
  "stop_reqtimer u = (if us_reqtimeout u > 0 then u\<lparr>u_reqtimers := u_reqtimers u - 1\<rparr> else u)"

definition upap_authpeer :: "'w upap_sys \<Rightarrow> 'w upap_sys" where
  "upap_authpeer u =
     (if us_serverstate u \<in> {UPAPSS_INITIAL, UPAPSS_PENDING} then u\<lparr>us_serverstate := UPAPSS_PENDING\<rparr>
      else start_reqtimer (u\<lparr>us_serverstate := UPAPSS_LISTEN\<rparr>))"

definition upap_lowerup :: "'w upap_sys \<Rightarrow> 'w upap_sys" where
  "upap_lowerup u =
     (let u = (if us_clientstate u = UPAPCS_INITIAL then u\<lparr>us_clientstate := UPAPCS_CLOSED\<rparr>
               else if us_clientstate u = UPAPCS_PENDING then upap_sauthreq u else u)
      in if us_serverstate u = UPAPSS_INITIAL then u\<lparr>us_serverstate := UPAPSS_CLOSED\<rparr>
         else if us_serverstate u = UPAPSS_PENDING
         then start_reqtimer (u\<lparr>us_serverstate := UPAPSS_LISTEN\<rparr>) else u)"

definition upap_lowerdown :: "'w upap_sys \<Rightarrow> 'w upap_sys" where
  "upap_lowerdown u =
     (let u = (if us_clientstate u = UPAPCS_AUTHREQ then u\<lparr>u_retrans := u_retrans u - 1\<rparr> else u);
          u = (if us_serverstate u = UPAPSS_LISTEN \<and> us_reqtimeout u > 0
               then u\<lparr>u_reqtimers := u_reqtimers u - 1\<rparr> else u)
      in u\<lparr>us_clientstate := UPAPCS_INITIAL, us_serverstate := UPAPSS_INITIAL\<rparr>)"

definition upap_protrej :: "'w upap_hooks \<Rightarrow> 'w upap_sys \<Rightarrow> 'w upap_sys" where
  "upap_protrej hk u =
     (let u = (if us_clientstate u = UPAPCS_AUTHREQ then auth_withpeer_fail hk AUTH_ERR_PROT u else u);
          u = (if us_serverstate u = UPAPSS_LISTEN then auth_peer_fail hk AUTH_ERR_PROT u else u)
      in upap_lowerdown u)"

section \<open>Timers\<close>

text \<open>The callout list has taken the entry off when it calls these.\<close>

definition upap_timeout :: "'w upap_hooks \<Rightarrow> 'w upap_sys \<Rightarrow> 'w upap_sys" where
  "upap_timeout hk u =
     (if us_clientstate u \<noteq> UPAPCS_AUTHREQ then u
      else if us_transmits u \<ge> us_maxtransmits u
      then auth_withpeer_fail hk AUTH_ERR_TIME (u\<lparr>us_clientstate := UPAPCS_BADAUTH\<rparr>)
      else upap_sauthreq u)"

definition upap_reqtimeout :: "'w upap_hooks \<Rightarrow> 'w upap_sys \<Rightarrow> 'w upap_sys" where
  "upap_reqtimeout hk u =
     (if us_serverstate u \<noteq> UPAPSS_LISTEN then u
      else (auth_peer_fail hk AUTH_ERR_TIME u)\<lparr>us_serverstate := UPAPSS_BADAUTH\<rparr>)"

section \<open>Packets\<close>

text \<open>\<open>strncpy(dst, src, n)\<close> into a C array: up to a NUL, then zeros.\<close>

definition strncpy_into :: "u8 list \<Rightarrow> u8 list \<Rightarrow> nat \<Rightarrow> u8 list" where
  "strncpy_into dst src n =
     (let s = takeWhile (\<lambda>c. c \<noteq> 0) (take n src) in s @ replicate (n - length s) 0 @ drop n dst)"

text \<open>
  The parsing of \<open>upap_rauthreq\<close>: \<open>Bad\<close> is the early return of a short packet, \<open>Undef\<close> a read outside
  the buffer. Both lengths are cut to 64.
\<close>

definition parse_authreq :: "u8 list \<Rightarrow> int \<Rightarrow> (u8 list \<times> u8 list) outcome" where
  "parse_authreq inp len =
     (if szt len < 1 then Bad
      else bindo (getchar inp) (\<lambda>(ruserlen, inp).
        let len = len - (1 + uint ruserlen + 1)
        in if len < 0 then Bad
           else if length inp < unat ruserlen then Undef
           else bindo (getchar (drop (unat ruserlen) inp)) (\<lambda>(rpasswdlen, rpasswd).
             if len < uint rpasswdlen then Bad
             else if length rpasswd < unat rpasswdlen then Undef
             else Ok (take (min 64 (unat ruserlen)) inp, take (min 64 (unat rpasswdlen)) rpasswd))))"

text \<open>What follows the parsing.\<close>

definition upap_checkauth :: "'w upap_hooks \<Rightarrow> u8 \<Rightarrow> u8 list \<Rightarrow> u8 list \<Rightarrow> 'w upap_sys \<Rightarrow> 'w upap_sys" where
  "upap_checkauth hk pid ruser rpasswd u =
     (let u = u\<lparr>us_ruser := strncpy_into (us_ruser u) ruser (length ruser),
                us_rpasswd := strncpy_into (us_rpasswd u) rpasswd (length rpasswd),
                us_rpasswdlen := int (length rpasswd), us_ruserlen := int (length ruser)\<rparr>;
          (retcode, msg, u) = check_passwd hk ruser rpasswd u;
          u = upap_sresp retcode pid msg u;
          u = (if retcode = UPAP_AUTHACK
               then auth_peer_success hk
                      ((set_userip hk ruser (int (length ruser)) u)\<lparr>us_serverstate := UPAPSS_OPEN\<rparr>)
               else auth_peer_fail hk AUTH_ERR_USER (u\<lparr>us_serverstate := UPAPSS_BADAUTH\<rparr>))
      in stop_reqtimer u)"

definition upap_rauthreq :: "'w upap_hooks \<Rightarrow> u8 list \<Rightarrow> u8 \<Rightarrow> int \<Rightarrow> 'w upap_sys \<Rightarrow> 'w upap_sys" where
  "upap_rauthreq hk inp pid len u =
     (if us_serverstate u < UPAPSS_LISTEN then u
      else if us_serverstate u = UPAPSS_OPEN then upap_sresp UPAP_AUTHACK pid [] u
      else if us_serverstate u = UPAPSS_BADAUTH then upap_sresp UPAP_AUTHNAK pid [] u
      else case parse_authreq inp len of
             Undef \<Rightarrow> u\<lparr>u_ub := True\<rparr>
           | Bad \<Rightarrow> u
           | Ok (ruser, rpasswd) \<Rightarrow> upap_checkauth hk pid ruser rpasswd u)"

text \<open>
  The message of an Ack or Nak, which is only logged. \<open>PRINTMSG\<close> writes a NUL behind it.
\<close>

definition parse_message :: "u8 list \<Rightarrow> int \<Rightarrow> unit outcome" where
  "parse_message inp len =
     (if szt len < 1 then Bad
      else bindo (getchar inp) (\<lambda>(msglen, inp).
        if len - 1 < uint msglen then Bad else if length inp < unat msglen + 1 then Undef else Ok ()))"

definition upap_rauthack :: "'w upap_hooks \<Rightarrow> u8 list \<Rightarrow> int \<Rightarrow> 'w upap_sys \<Rightarrow> 'w upap_sys" where
  "upap_rauthack hk inp len u =
     (if us_clientstate u \<noteq> UPAPCS_AUTHREQ then u
      else case parse_message inp len of
             Undef \<Rightarrow> u\<lparr>u_ub := True\<rparr>
           | Bad \<Rightarrow> u
           | Ok _ \<Rightarrow> auth_withpeer_success hk (u\<lparr>us_clientstate := UPAPCS_OPEN\<rparr>))"

definition upap_rauthnak :: "'w upap_hooks \<Rightarrow> u8 list \<Rightarrow> int \<Rightarrow> 'w upap_sys \<Rightarrow> 'w upap_sys" where
  "upap_rauthnak hk inp len u =
     (if us_clientstate u \<noteq> UPAPCS_AUTHREQ then u
      else case parse_message inp len of
             Undef \<Rightarrow> u\<lparr>u_ub := True\<rparr>
           | Bad \<Rightarrow> u
           | Ok _ \<Rightarrow> auth_withpeer_fail hk AUTH_ERR_USER (u\<lparr>us_clientstate := UPAPCS_BADAUTH\<rparr>))"

definition upap_input :: "'w upap_hooks \<Rightarrow> u8 list \<Rightarrow> int \<Rightarrow> 'w upap_sys \<Rightarrow> 'w upap_sys" where
  "upap_input hk inpacket l u =
     (if szt l < UPAP_HEADERLEN then u
      else case inpacket of
        code # pid # hi # lo # inp \<Rightarrow>
          let len = uint (join16 hi lo)
          in if len < UPAP_HEADERLEN then u
             else if len > l then u
             else
               let len = len - UPAP_HEADERLEN
               in if code = UPAP_AUTHREQ then upap_rauthreq hk inp pid len u
                  else if code = UPAP_AUTHACK then upap_rauthack hk inp len u
                  else if code = UPAP_AUTHNAK then upap_rauthnak hk inp len u
                  else u
      | _ \<Rightarrow> u\<lparr>u_ub := True\<rparr>)"

section \<open>The protocol as a whole\<close>

datatype upap_event =
    UpapAuthWithPeer "u8 list" "u8 list" | UpapAuthPeer | UpapLowerUp | UpapLowerDown | UpapProtRej
  | UpapTimeout | UpapReqTimeout | UpapInput "u8 list" int

fun upap_step :: "'w upap_hooks \<Rightarrow> upap_event \<Rightarrow> 'w upap_sys \<Rightarrow> 'w upap_sys" where
  "upap_step hk (UpapAuthWithPeer n p) u = upap_authwithpeer n p u"
| "upap_step hk UpapAuthPeer u = upap_authpeer u"
| "upap_step hk UpapLowerUp u = upap_lowerup u"
| "upap_step hk UpapLowerDown u = upap_lowerdown u"
| "upap_step hk UpapProtRej u = upap_protrej hk u"
| "upap_step hk UpapTimeout u = (if u_retrans u = 0 then u else upap_timeout hk (u\<lparr>u_retrans := u_retrans u - 1\<rparr>))"
| "upap_step hk UpapReqTimeout u =
     (if u_reqtimers u = 0 then u else upap_reqtimeout hk (u\<lparr>u_reqtimers := u_reqtimers u - 1\<rparr>))"
| "upap_step hk (UpapInput pkt l) u = upap_input hk pkt l u"

text \<open>The states the daemon can reach from a fresh unit.\<close>

inductive upap_reaches :: "'w upap_hooks \<Rightarrow> 'w upap_sys \<Rightarrow> 'w upap_sys \<Rightarrow> bool" for hk u0 where
  start: "upap_reaches hk u0 u0"
| step: "upap_reaches hk u0 u \<Longrightarrow> upap_reaches hk u0 (upap_step hk e u)"

end
