(* ===== verification/Upap_Safety.thy ===== *)
theory Upap_Safety
  imports Upap
begin

text \<open>
  What upap.c guarantees. The contract \<open>upap_client\<close> says what the functions of auth.c may do to the
  protocol when it calls them: leave its state alone, or take it down by \<open>upap_lowerdown\<close>.
\<close>

definition client_armed :: "'w upap_sys \<Rightarrow> bool" where
  "client_armed u \<longleftrightarrow> (us_clientstate u = UPAPCS_AUTHREQ \<longrightarrow> 0 < u_retrans u)"

definition server_armed :: "'w upap_sys \<Rightarrow> bool" where
  "server_armed u \<longleftrightarrow> (us_serverstate u = UPAPSS_LISTEN \<and> 0 < us_reqtimeout u \<longrightarrow> 0 < u_reqtimers u)"

definition upap_armed :: "'w upap_sys \<Rightarrow> bool" where
  "upap_armed u \<longleftrightarrow> client_armed u \<and> server_armed u"

text \<open>A function that leaves the protocol alone or takes it down.\<close>

definition upap_leaves :: "('w upap_sys \<Rightarrow> 'w upap_sys) \<Rightarrow> bool" where
  "upap_leaves g \<longleftrightarrow> (\<forall>u.
     (us_serverstate (g u) = us_serverstate u \<or> us_serverstate (g u) = UPAPSS_INITIAL)
     \<and> (us_clientstate (g u) = us_clientstate u \<and> u_retrans (g u) = u_retrans u
        \<or> us_clientstate (g u) = UPAPCS_INITIAL))"

lemma leaves_client: "upap_leaves g \<Longrightarrow> client_armed u \<Longrightarrow> client_armed (g u)"
  by (metis client_armed_def upap_leaves_def upap_client.distinct(5))

lemma leaves_server:
  "upap_leaves g \<Longrightarrow> us_serverstate (g u) = us_serverstate u \<or> us_serverstate (g u) = UPAPSS_INITIAL"
  by (simp add: upap_leaves_def)

lemma lowerdown_leaves: "upap_leaves upap_lowerdown"
  by (simp add: upap_leaves_def upap_lowerdown_def Let_def)

text \<open>The frame of the operations that send.\<close>

lemma upap_output_frame [simp]:
  "us_clientstate (upap_output b u) = us_clientstate u" "us_serverstate (upap_output b u) = us_serverstate u"
  "u_retrans (upap_output b u) = u_retrans u" "u_reqtimers (upap_output b u) = u_reqtimers u"
  "us_reqtimeout (upap_output b u) = us_reqtimeout u" "us_transmits (upap_output b u) = us_transmits u"
  "us_maxtransmits (upap_output b u) = us_maxtransmits u"
  by (simp_all add: upap_output_def)

lemma upap_sresp_frame [simp]:
  "us_clientstate (upap_sresp c i m u) = us_clientstate u" "us_serverstate (upap_sresp c i m u) = us_serverstate u"
  "u_retrans (upap_sresp c i m u) = u_retrans u" "u_reqtimers (upap_sresp c i m u) = u_reqtimers u"
  "us_reqtimeout (upap_sresp c i m u) = us_reqtimeout u"
  by (simp_all add: upap_sresp_def)

lemma upap_sauthreq_frame [simp]:
  "us_clientstate (upap_sauthreq u) = UPAPCS_AUTHREQ" "us_serverstate (upap_sauthreq u) = us_serverstate u"
  "u_retrans (upap_sauthreq u) = Suc (u_retrans u)" "u_reqtimers (upap_sauthreq u) = u_reqtimers u"
  "us_reqtimeout (upap_sauthreq u) = us_reqtimeout u" "us_transmits (upap_sauthreq u) = us_transmits u + 1"
  "us_maxtransmits (upap_sauthreq u) = us_maxtransmits u"
  by (simp_all add: upap_sauthreq_def Let_def)

lemma reqtimer_frame [simp]:
  "us_clientstate (start_reqtimer u) = us_clientstate u" "us_serverstate (start_reqtimer u) = us_serverstate u"
  "u_retrans (start_reqtimer u) = u_retrans u" "us_reqtimeout (start_reqtimer u) = us_reqtimeout u"
  "us_clientstate (stop_reqtimer u) = us_clientstate u" "us_serverstate (stop_reqtimer u) = us_serverstate u"
  "u_retrans (stop_reqtimer u) = u_retrans u" "us_reqtimeout (stop_reqtimer u) = us_reqtimeout u"
  by (simp_all add: start_reqtimer_def stop_reqtimer_def)

lemma start_armed: "0 < us_reqtimeout u \<Longrightarrow> 0 < u_reqtimers (start_reqtimer u)"
  by (simp add: start_reqtimer_def)

lemmas armed_defs = upap_armed_def client_armed_def server_armed_def

lemma listen_order: "s < UPAPSS_LISTEN \<Longrightarrow> s \<noteq> UPAPSS_LISTEN"
  by auto

text \<open>The name and password of a request as \<open>upap_rauthreq\<close> records them.\<close>

definition upap_record :: "u8 list \<Rightarrow> u8 list \<Rightarrow> 'w upap_sys \<Rightarrow> 'w upap_sys" where
  "upap_record n p u = u\<lparr>us_ruser := strncpy_into (us_ruser u) n (length n),
      us_rpasswd := strncpy_into (us_rpasswd u) p (length p), us_rpasswdlen := int (length p), us_ruserlen := int (length n)\<rparr>"

text \<open>A packet that opens the server: a request whose name and password \<open>check_passwd\<close> accepts.\<close>

definition upap_proof :: "'w upap_hooks \<Rightarrow> u8 list \<Rightarrow> int \<Rightarrow> 'w upap_sys \<Rightarrow> bool" where
  "upap_proof hk pkt l u \<longleftrightarrow> (\<exists>pid hi lo inp n p.
     pkt = UPAP_AUTHREQ # pid # hi # lo # inp \<and> uint (join16 hi lo) \<le> l
     \<and> parse_authreq inp (uint (join16 hi lo) - UPAP_HEADERLEN) = Ok (n, p)
     \<and> fst (check_passwd hk n p (upap_record n p u)) = UPAP_AUTHACK)"

locale upap_client =
  fixes hk :: "'w upap_hooks"
  assumes withpeer_fail_leaves: "upap_leaves (auth_withpeer_fail hk r)"
    and withpeer_success_leaves: "upap_leaves (auth_withpeer_success hk)"
    and peer_fail_leaves: "upap_leaves (auth_peer_fail hk r)"
    and peer_success_leaves: "upap_leaves (auth_peer_success hk)"
    and check_leaves: "upap_leaves (\<lambda>u. snd (snd (check_passwd hk n p u)))"
    and userip_leaves: "upap_leaves (set_userip hk n k)"
    and withpeer_keeps_server: "server_armed u \<Longrightarrow> server_armed (auth_withpeer_fail hk r u)"
      "server_armed u \<Longrightarrow> server_armed (auth_withpeer_success hk u)"
begin

lemma protrej_armed: "upap_armed (upap_protrej hk u)"
  by (simp add: upap_protrej_def upap_lowerdown_def armed_defs Let_def)

lemma timeout_armed:
  assumes "upap_armed u"
  shows "upap_armed (upap_timeout hk (u\<lparr>u_retrans := k\<rparr>))"
proof (cases "us_clientstate u = UPAPCS_AUTHREQ")
  case True
  have s: "server_armed (u\<lparr>u_retrans := k, us_clientstate := UPAPCS_BADAUTH\<rparr>)"
    using assms by (simp add: armed_defs)
  have c: "client_armed (u\<lparr>u_retrans := k, us_clientstate := UPAPCS_BADAUTH\<rparr>)"
    by (simp add: client_armed_def)
  show ?thesis
    using True assms withpeer_keeps_server(1) [OF s] leaves_client [OF withpeer_fail_leaves c]
    by (auto simp: upap_timeout_def upap_armed_def) (simp_all add: armed_defs)
qed (use assms in \<open>simp add: upap_timeout_def armed_defs\<close>)

lemma reqtimeout_armed:
  assumes "upap_armed u"
  shows "upap_armed (upap_reqtimeout hk (u\<lparr>u_reqtimers := k\<rparr>))"
proof -
  have "client_armed (u\<lparr>u_reqtimers := k\<rparr>)" using assms by (simp add: armed_defs)
  from leaves_client [OF peer_fail_leaves this] assms show ?thesis
    by (simp add: upap_reqtimeout_def armed_defs)
qed

lemma checkauth_armed:
  assumes "client_armed u" "us_serverstate u = UPAPSS_LISTEN"
  shows "upap_armed (upap_checkauth hk pid n p u)"
proof -
  define u1 where "u1 = upap_record n p u"
  obtain code msg u2 where c: "check_passwd hk n p u1 = (code, msg, u2)" by (metis prod_cases3)
  have a1: "client_armed u1" using assms by (simp add: u1_def upap_record_def client_armed_def)
  have a2: "client_armed (upap_sresp code pid msg u2)"
    using leaves_client [OF check_leaves a1, of n p] c by (simp add: client_armed_def)
  have stop: "upap_armed (stop_reqtimer t)" if "client_armed t" "us_serverstate t \<noteq> UPAPSS_LISTEN" for t :: "'w upap_sys"
    using that by (simp add: armed_defs)
  have st: "client_armed (t\<lparr>us_serverstate := x\<rparr>) = client_armed t" for t :: "'w upap_sys" and x
    by (simp add: client_armed_def)
  have srv: "us_serverstate (g (t\<lparr>us_serverstate := x\<rparr>)) \<noteq> UPAPSS_LISTEN"
    if "upap_leaves g" "x \<noteq> UPAPSS_LISTEN" for g and t :: "'w upap_sys" and x
    using leaves_server [OF that(1), of "t\<lparr>us_serverstate := x\<rparr>"] that(2) by auto
  have "upap_armed (stop_reqtimer (auth_peer_success hk
      ((set_userip hk n (int (length n)) (upap_sresp code pid msg u2))\<lparr>us_serverstate := UPAPSS_OPEN\<rparr>)))"
    by (intro stop srv peer_success_leaves leaves_client [OF peer_success_leaves])
      (simp_all add: st leaves_client [OF userip_leaves a2])
  moreover have "upap_armed (stop_reqtimer (auth_peer_fail hk AUTH_ERR_USER
      ((upap_sresp code pid msg u2)\<lparr>us_serverstate := UPAPSS_BADAUTH\<rparr>)))"
    by (intro stop srv peer_fail_leaves leaves_client [OF peer_fail_leaves]) (simp_all add: st a2)
  ultimately show ?thesis
    by (cases "code = UPAP_AUTHACK") (simp_all add: upap_checkauth_def Let_def c flip: u1_def upap_record_def)
qed

lemma input_armed:
  assumes "upap_armed u"
  shows "upap_armed (upap_input hk pkt l u)"
proof -
  have ub: "upap_armed (u\<lparr>u_ub := b\<rparr>)" for b using assms by (simp add: armed_defs)
  have resp: "upap_armed (upap_sresp c i m u)" for c i m using assms by (simp add: armed_defs)
  have c: "client_armed u" "server_armed u" using assms by (simp_all add: upap_armed_def)
  have req: "upap_armed (upap_rauthreq hk inp pid len u)" for inp pid len
    using assms ub resp checkauth_armed [OF c(1)]
    by (cases "us_serverstate u"; cases "parse_authreq inp len")
      (auto simp: upap_rauthreq_def less_upap_server_def)
  have st: "client_armed (u\<lparr>us_clientstate := UPAPCS_OPEN\<rparr>)" "server_armed (u\<lparr>us_clientstate := UPAPCS_OPEN\<rparr>)"
    "client_armed (u\<lparr>us_clientstate := UPAPCS_BADAUTH\<rparr>)" "server_armed (u\<lparr>us_clientstate := UPAPCS_BADAUTH\<rparr>)"
    using c by (simp_all add: client_armed_def server_armed_def)
  have ack: "upap_armed (upap_rauthack hk inp len u)" for inp len
    using assms ub withpeer_keeps_server(2) [OF st(2)] leaves_client [OF withpeer_success_leaves st(1)]
    by (auto simp: upap_rauthack_def upap_armed_def split: outcome.split)
  have nak: "upap_armed (upap_rauthnak hk inp len u)" for inp len
    using assms ub withpeer_keeps_server(1) [OF st(4)] leaves_client [OF withpeer_fail_leaves st(3)]
    by (auto simp: upap_rauthnak_def upap_armed_def split: outcome.split)
  show ?thesis
    using assms ub req ack nak by (simp add: upap_input_def Let_def split: list.split)
qed

lemma step_armed: "upap_armed u \<Longrightarrow> upap_armed (upap_step hk e u)"
proof (cases e)
  case (UpapAuthWithPeer n p)
  assume "upap_armed u"
  then show ?thesis by (simp add: UpapAuthWithPeer upap_authwithpeer_def Let_def armed_defs)
next
  case UpapAuthPeer
  assume "upap_armed u"
  then show ?thesis by (simp add: UpapAuthPeer upap_authpeer_def armed_defs start_armed)
next
  case UpapLowerUp
  assume "upap_armed u"
  then show ?thesis by (simp add: UpapLowerUp upap_lowerup_def Let_def armed_defs start_armed)
next
  case UpapLowerDown
  then show ?thesis by (simp add: upap_lowerdown_def Let_def armed_defs)
qed (simp_all add: protrej_armed timeout_armed reqtimeout_armed input_armed)

theorem reaches_armed: "upap_reaches hk u0 u \<Longrightarrow> upap_armed u0 \<Longrightarrow> upap_armed u"
  by (induction rule: upap_reaches.induct) (simp_all add: step_armed)

text \<open>A client whose peer keeps silent.\<close>

lemma silent_step:
  assumes "us_clientstate u = UPAPCS_AUTHREQ" "us_transmits u < us_maxtransmits u" "u_retrans u = 1"
  shows "upap_step hk UpapTimeout u = upap_sauthreq (u\<lparr>u_retrans := 0\<rparr>)"
  using assms by (simp add: upap_timeout_def)

text \<open>The server opens only when \<open>check_passwd\<close> has said so.\<close>

lemma checkauth_opens:
  assumes "us_serverstate (upap_checkauth hk pid n p u) = UPAPSS_OPEN"
  shows "fst (check_passwd hk n p (upap_record n p u)) = UPAP_AUTHACK"
proof -
  define u1 where "u1 = upap_record n p u"
  obtain code msg u2 where c: "check_passwd hk n p u1 = (code, msg, u2)" by (metis prod_cases3)
  have "us_serverstate (auth_peer_fail hk r (t\<lparr>us_serverstate := UPAPSS_BADAUTH\<rparr>)) \<noteq> UPAPSS_OPEN" for t r
    using leaves_server [OF peer_fail_leaves, of r "t\<lparr>us_serverstate := UPAPSS_BADAUTH\<rparr>"] by auto
  then have "code = UPAP_AUTHACK"
    using assms by (simp add: upap_checkauth_def Let_def c flip: u1_def upap_record_def split: if_splits)
  then show ?thesis using c by (simp add: u1_def)
qed

lemma not_open:
  "us_serverstate u \<noteq> UPAPSS_OPEN \<Longrightarrow> upap_leaves g \<Longrightarrow> us_serverstate (g u) \<noteq> UPAPSS_OPEN"
  using leaves_server [of g u] by auto

lemma rauthreq_opens:
  assumes "us_serverstate u \<noteq> UPAPSS_OPEN" "us_serverstate (upap_rauthreq hk inp pid len u) = UPAPSS_OPEN"
  shows "\<exists>n p. parse_authreq inp len = Ok (n, p) \<and> fst (check_passwd hk n p (upap_record n p u)) = UPAP_AUTHACK"
proof (cases "parse_authreq inp len")
  case (Ok x)
  obtain n p where x: "x = (n, p)" by (cases x)
  have "us_serverstate (upap_checkauth hk pid n p u) = UPAPSS_OPEN"
    using assms by (simp add: upap_rauthreq_def Ok x split: if_splits)
  then show ?thesis using checkauth_opens Ok x by blast
qed (use assms in \<open>auto simp: upap_rauthreq_def split: if_splits\<close>)

lemma input_opens:
  assumes "us_serverstate u \<noteq> UPAPSS_OPEN" "us_serverstate (upap_input hk pkt l u) = UPAPSS_OPEN"
  shows "upap_proof hk pkt l u"
proof -
  obtain code pid hi lo inp where pkt: "pkt = code # pid # hi # lo # inp"
    using assms by (auto simp: upap_input_def split: if_splits list.splits)
  have a: "us_serverstate (upap_rauthack hk q n u) \<noteq> UPAPSS_OPEN" for q n
    using assms(1) not_open [OF _ withpeer_success_leaves, of "u\<lparr>us_clientstate := UPAPCS_OPEN\<rparr>"]
    by (simp add: upap_rauthack_def split: outcome.split)
  have n: "us_serverstate (upap_rauthnak hk q n u) \<noteq> UPAPSS_OPEN" for q n
    using assms(1) not_open [OF _ withpeer_fail_leaves, of "u\<lparr>us_clientstate := UPAPCS_BADAUTH\<rparr>"]
    by (simp add: upap_rauthnak_def split: outcome.split)
  have "upap_input hk pkt l u = u
      \<or> code = UPAP_AUTHREQ \<and> uint (join16 hi lo) \<le> l
        \<and> upap_input hk pkt l u = upap_rauthreq hk inp pid (uint (join16 hi lo) - UPAP_HEADERLEN) u
      \<or> upap_input hk pkt l u = upap_rauthack hk inp (uint (join16 hi lo) - UPAP_HEADERLEN) u
      \<or> upap_input hk pkt l u = upap_rauthnak hk inp (uint (join16 hi lo) - UPAP_HEADERLEN) u"
    by (simp add: upap_input_def pkt Let_def)
  then have "code = UPAP_AUTHREQ \<and> uint (join16 hi lo) \<le> l
      \<and> us_serverstate (upap_rauthreq hk inp pid (uint (join16 hi lo) - UPAP_HEADERLEN) u) = UPAPSS_OPEN"
    using assms a n by (elim disjE) simp_all
  then have c: "code = UPAP_AUTHREQ" "uint (join16 hi lo) \<le> l"
    and o: "us_serverstate (upap_rauthreq hk inp pid (uint (join16 hi lo) - UPAP_HEADERLEN) u) = UPAPSS_OPEN"
    by simp_all
  obtain m p where "parse_authreq inp (uint (join16 hi lo) - UPAP_HEADERLEN) = Ok (m, p)"
    "fst (check_passwd hk m p (upap_record m p u)) = UPAP_AUTHACK"
    using rauthreq_opens [OF assms(1) o] by (elim exE conjE)
  then show ?thesis
    unfolding upap_proof_def using pkt c by (intro exI conjI) simp_all
qed

lemma step_opens:
  assumes "us_serverstate u \<noteq> UPAPSS_OPEN" "us_serverstate (upap_step hk e u) = UPAPSS_OPEN"
  shows "\<exists>pkt l. e = UpapInput pkt l \<and> upap_proof hk pkt l u"
proof (cases e)
  case (UpapInput pkt l)
  then show ?thesis using assms input_opens by simp
next
  case UpapTimeout
  have "us_serverstate (upap_timeout hk v) \<noteq> UPAPSS_OPEN" if "us_serverstate v \<noteq> UPAPSS_OPEN" for v
    using that not_open [OF _ withpeer_fail_leaves, of "v\<lparr>us_clientstate := UPAPCS_BADAUTH\<rparr>"]
    by (simp add: upap_timeout_def)
  then show ?thesis using assms UpapTimeout by (simp split: if_splits)
next
  case UpapReqTimeout
  then show ?thesis using assms by (auto simp: upap_reqtimeout_def split: if_splits)
qed (use assms in \<open>auto simp: upap_authwithpeer_def upap_authpeer_def upap_lowerup_def upap_lowerdown_def
      upap_protrej_def Let_def split: if_splits\<close>)

end

section \<open>Round trip of an Authenticate-Request\<close>

definition authreq_body :: "u8 list \<Rightarrow> u8 list \<Rightarrow> u8 list" where
  "authreq_body user password =
     [word_of_int (int (length user))] @ user @ [word_of_int (int (length password))] @ password"

lemma length_byte: "length xs < 256 \<Longrightarrow> unat (word_of_int (int (length xs)) :: u8) = length xs"
  by (simp add: unat_of_nat)

lemma parse_authreq_body:
  assumes "length user < 256" "length password < 256"
  shows "parse_authreq (authreq_body user password) (int (length (authreq_body user password)))
    = Ok (take 64 user, take 64 password)"
proof -
  have u: "unat (word_of_int (int (length user)) :: u8) = length user"
    "unat (word_of_int (int (length password)) :: u8) = length password"
    using length_byte [OF assms(1)] length_byte [OF assms(2)] .
  then have i: "uint (word_of_int (int (length user)) :: u8) = int (length user)"
    "uint (word_of_int (int (length password)) :: u8) = int (length password)"
    by (metis of_nat_unat)+
  show ?thesis
    using u i assms by (simp add: parse_authreq_def authreq_body_def Let_def min_def)
qed

end
