(* ===== verification/Chap.thy ===== *)
theory Chap
  imports Upap_Safety
begin

text \<open>
  The Challenge-Handshake Authentication Protocol of chap.c, as it is built by default: without
  MS-CHAP and RADIUS. The server sends a random challenge; the client answers with the digest of the
  identifier, the secret and the challenge; the server compares it with its own.

  As in \<open>Upap\<close>, \<open>chap_state\<close> is the C struct, \<open>'w chap_sys\<close> adds the entries of the three timers on the
  callout list, the packets sent, the mark for accesses outside a buffer, and the rest of the program.
  \<open>chap_hooks\<close> holds what chap.c calls outside: auth.c, the digest of md5.c (\<open>md5\<close>), and the values of
  the two expressions of \<open>drand48\<close> at the \<open>n\<close>-th draw.
\<close>

section \<open>State\<close>

definition MD5_SIGNATURE_SIZE :: nat where "MD5_SIGNATURE_SIZE = 16"
definition CHAP_CHALLENGE :: u8 where "CHAP_CHALLENGE = 1"
definition CHAP_RESPONSE :: u8 where "CHAP_RESPONSE = 2"
definition CHAP_SUCCESS :: u8 where "CHAP_SUCCESS = 3"
definition CHAP_FAILURE :: u8 where "CHAP_FAILURE = 4"
definition CHAP_MD5 :: u8 where "CHAP_MD5 = 5"
definition MIN_CHALLENGE_LENGTH :: nat where "MIN_CHALLENGE_LENGTH = 32"
definition MAX_CHALLENGE_LENGTH :: nat where "MAX_CHALLENGE_LENGTH = 64"
definition CHAP_HEADERLEN :: int where "CHAP_HEADERLEN = 4"
definition CHAP_DEFTIMEOUT :: int where "CHAP_DEFTIMEOUT = 3"
definition CHAP_DEFTRANSMITS :: int where "CHAP_DEFTRANSMITS = 10"
definition PPP_CHAP_proto :: u16 where "PPP_CHAP_proto = 0xc223"

lemmas chap_code_defs = CHAP_CHALLENGE_def CHAP_RESPONSE_def CHAP_SUCCESS_def CHAP_FAILURE_def

datatype chap_client =
  CHAPCS_INITIAL | CHAPCS_CLOSED | CHAPCS_PENDING | CHAPCS_LISTEN | CHAPCS_RESPONSE | CHAPCS_OPEN

datatype chap_server =
  CHAPSS_INITIAL | CHAPSS_CLOSED | CHAPSS_PENDING | CHAPSS_INITIAL_CHAL | CHAPSS_OPEN
| CHAPSS_RECHALLENGE | CHAPSS_BADAUTH

record chap_state =
  ch_unit :: int
  ch_clientstate :: chap_client
  ch_serverstate :: chap_server
  ch_challenge :: "u8 list"
  ch_chal_len :: nat
  ch_chal_id :: u8
  ch_chal_type :: u8
  ch_id :: u8
  ch_chal_name :: "u8 list"
  ch_chal_interval :: int
  ch_timeouttime :: int
  ch_max_transmits :: int
  ch_chal_transmits :: int
  ch_resp_transmits :: int
  ch_response :: "u8 list"
  ch_resp_length :: nat
  ch_resp_id :: u8
  ch_resp_type :: u8
  ch_resp_name :: "u8 list"

record 'w chap_sys = chap_state +
  ch_chal_timers :: nat
  ch_resp_timers :: nat
  ch_rechal_timers :: nat
  ch_sent :: "u8 list list"
  ch_ub :: bool
  ch_draws :: nat
  ch_world :: 'w

text \<open>What challenges and digests are made of, and the calls into auth.c.\<close>

record chap_env =
  md5 :: "u8 list \<Rightarrow> u8 list"
  draw_length :: "nat \<Rightarrow> nat"
  draw_byte :: "nat \<Rightarrow> u8"
  ch_hostname :: "u8 list"

record 'w chap_hooks = chap_env +
  ch_withpeer_fail :: "auth_error \<Rightarrow> 'w chap_sys \<Rightarrow> 'w chap_sys"
  ch_withpeer_success :: "'w chap_sys \<Rightarrow> 'w chap_sys"
  ch_peer_fail :: "auth_error \<Rightarrow> 'w chap_sys \<Rightarrow> 'w chap_sys"
  ch_peer_success :: "'w chap_sys \<Rightarrow> 'w chap_sys"
  get_secret :: "u8 list \<Rightarrow> u8 list \<Rightarrow> bool \<Rightarrow> 'w chap_sys \<Rightarrow> u8 list option \<times> 'w chap_sys"
  ch_set_userip :: "u8 list \<Rightarrow> int \<Rightarrow> 'w chap_sys \<Rightarrow> 'w chap_sys"

section \<open>Sending\<close>

definition chap_output :: "u8 list \<Rightarrow> 'w chap_sys \<Rightarrow> 'w chap_sys" where
  "chap_output bytes c =
     c\<lparr>ch_sent := ch_sent c @ [[0xff, 0x03] @ putshort PPP_CHAP_proto @ bytes],
       ch_ub := ch_ub c \<or> PPP_HDRLEN + int (length bytes) > PPP_MRU + PPP_HDRLEN\<rparr>"

text \<open>The layout shared by challenges and responses: identifier, value with its length, name.\<close>

definition chap_value :: "u8 \<Rightarrow> u8 \<Rightarrow> u8 list \<Rightarrow> u8 list \<Rightarrow> u8 list" where
  "chap_value code pid val name =
     [code, pid] @ putshort (word_of_int (CHAP_HEADERLEN + 1 + int (length val) + int (length name)))
     @ [word_of_int (int (length val))] @ val @ name"

definition ChapSendChallenge :: "'w chap_sys \<Rightarrow> 'w chap_sys" where
  "ChapSendChallenge c =
     (let c = chap_output (chap_value CHAP_CHALLENGE (ch_chal_id c) (take (ch_chal_len c) (ch_challenge c))
                (ch_chal_name c)) c
      in c\<lparr>ch_chal_timers := Suc (ch_chal_timers c), ch_chal_transmits := ch_chal_transmits c + 1\<rparr>)"

definition ChapSendResponse :: "'w chap_sys \<Rightarrow> 'w chap_sys" where
  "ChapSendResponse c =
     (let c = chap_output (chap_value CHAP_RESPONSE (ch_resp_id c) (take (ch_resp_length c) (ch_response c))
                (ch_resp_name c)) c
      in c\<lparr>ch_clientstate := CHAPCS_RESPONSE, ch_resp_timers := Suc (ch_resp_timers c),
           ch_resp_transmits := ch_resp_transmits c + 1\<rparr>)"

text \<open>The message is formatted into \<open>msg[256]\<close>.\<close>

definition status_message :: "'e chap_env_scheme \<Rightarrow> u8 \<Rightarrow> u8 list" where
  "status_message hk code =
     (if code = CHAP_SUCCESS then map of_char ''Welcome to '' @ ch_hostname hk @ map of_char ''.''
      else map of_char ''I don't like you.  Go 'way.'')"

definition ChapSendStatus :: "'e chap_env_scheme \<Rightarrow> u8 \<Rightarrow> 'w chap_sys \<Rightarrow> 'w chap_sys" where
  "ChapSendStatus hk code c =
     (let msg = status_message hk code
      in chap_output ([code, ch_chal_id c] @ putshort (word_of_int (CHAP_HEADERLEN + int (length msg))) @ msg)
           (c\<lparr>ch_ub := ch_ub c \<or> 256 \<le> length msg\<rparr>))"

definition ChapGenChallenge :: "'e chap_env_scheme \<Rightarrow> 'w chap_sys \<Rightarrow> 'w chap_sys" where
  "ChapGenChallenge hk c =
     (let n = draw_length hk (ch_draws c);
          bytes = map (draw_byte hk) [Suc (ch_draws c)..<Suc (ch_draws c) + n]
      in c\<lparr>ch_chal_len := n, ch_id := ch_id c + 1, ch_chal_id := ch_id c + 1, ch_chal_transmits := 0,
           ch_challenge := bytes @ drop n (ch_challenge c), ch_draws := Suc (ch_draws c) + n,
           ch_ub := ch_ub c \<or> MAX_CHALLENGE_LENGTH < n\<rparr>)"

section \<open>Requests from the other parts of the daemon\<close>

definition ChapInit :: "int \<Rightarrow> 'w chap_sys \<Rightarrow> 'w chap_sys" where
  "ChapInit unit c =
     c\<lparr>ch_unit := unit, ch_clientstate := CHAPCS_INITIAL, ch_serverstate := CHAPSS_INITIAL,
       ch_challenge := replicate MAX_CHALLENGE_LENGTH 0, ch_chal_len := 0, ch_chal_id := 0,
       ch_chal_type := 0, ch_id := 0, ch_chal_name := [], ch_chal_interval := 0,
       ch_timeouttime := CHAP_DEFTIMEOUT, ch_max_transmits := CHAP_DEFTRANSMITS,
       ch_chal_transmits := 0, ch_resp_transmits := 0, ch_response := replicate 64 0,
       ch_resp_length := 0, ch_resp_id := 0, ch_resp_type := 0, ch_resp_name := []\<rparr>"

definition ChapAuthWithPeer :: "u8 list \<Rightarrow> u8 \<Rightarrow> 'w chap_sys \<Rightarrow> 'w chap_sys" where
  "ChapAuthWithPeer our_name digest c =
     (let c = c\<lparr>ch_resp_name := our_name, ch_resp_type := digest\<rparr>
      in if ch_clientstate c \<in> {CHAPCS_INITIAL, CHAPCS_PENDING} then c\<lparr>ch_clientstate := CHAPCS_PENDING\<rparr>
         else c\<lparr>ch_clientstate := CHAPCS_LISTEN\<rparr>)"

definition ChapAuthPeer :: "'e chap_env_scheme \<Rightarrow> u8 list \<Rightarrow> u8 \<Rightarrow> 'w chap_sys \<Rightarrow> 'w chap_sys" where
  "ChapAuthPeer hk our_name digest c =
     (let c = c\<lparr>ch_chal_name := our_name, ch_chal_type := digest\<rparr>
      in if ch_serverstate c \<in> {CHAPSS_INITIAL, CHAPSS_PENDING} then c\<lparr>ch_serverstate := CHAPSS_PENDING\<rparr>
         else (ChapSendChallenge (ChapGenChallenge hk c))\<lparr>ch_serverstate := CHAPSS_INITIAL_CHAL\<rparr>)"

definition ChapLowerUp :: "'e chap_env_scheme \<Rightarrow> 'w chap_sys \<Rightarrow> 'w chap_sys" where
  "ChapLowerUp hk c =
     (let c = (if ch_clientstate c = CHAPCS_INITIAL then c\<lparr>ch_clientstate := CHAPCS_CLOSED\<rparr>
               else if ch_clientstate c = CHAPCS_PENDING then c\<lparr>ch_clientstate := CHAPCS_LISTEN\<rparr> else c)
      in if ch_serverstate c = CHAPSS_INITIAL then c\<lparr>ch_serverstate := CHAPSS_CLOSED\<rparr>
         else if ch_serverstate c = CHAPSS_PENDING
         then (ChapSendChallenge (ChapGenChallenge hk c))\<lparr>ch_serverstate := CHAPSS_INITIAL_CHAL\<rparr>
         else c)"

definition ChapLowerDown :: "'w chap_sys \<Rightarrow> 'w chap_sys" where
  "ChapLowerDown c =
     (let c = (if ch_serverstate c \<in> {CHAPSS_INITIAL_CHAL, CHAPSS_RECHALLENGE}
               then c\<lparr>ch_chal_timers := ch_chal_timers c - 1\<rparr>
               else if ch_serverstate c = CHAPSS_OPEN \<and> ch_chal_interval c \<noteq> 0
               then c\<lparr>ch_rechal_timers := ch_rechal_timers c - 1\<rparr> else c);
          c = (if ch_clientstate c = CHAPCS_RESPONSE then c\<lparr>ch_resp_timers := ch_resp_timers c - 1\<rparr> else c)
      in c\<lparr>ch_clientstate := CHAPCS_INITIAL, ch_serverstate := CHAPSS_INITIAL\<rparr>)"

definition ChapProtocolReject :: "'w chap_hooks \<Rightarrow> 'w chap_sys \<Rightarrow> 'w chap_sys" where
  "ChapProtocolReject hk c =
     (let c = (if ch_serverstate c \<notin> {CHAPSS_INITIAL, CHAPSS_CLOSED} then ch_peer_fail hk AUTH_ERR_PROT c else c);
          c = (if ch_clientstate c \<notin> {CHAPCS_INITIAL, CHAPCS_CLOSED} then ch_withpeer_fail hk AUTH_ERR_PROT c else c)
      in ChapLowerDown c)"

section \<open>Timers\<close>

definition ChapChallengeTimeout :: "'w chap_hooks \<Rightarrow> 'w chap_sys \<Rightarrow> 'w chap_sys" where
  "ChapChallengeTimeout hk c =
     (if ch_serverstate c \<notin> {CHAPSS_INITIAL_CHAL, CHAPSS_RECHALLENGE} then c
      else if ch_chal_transmits c \<ge> ch_max_transmits c
      then ch_peer_fail hk AUTH_ERR_TIME (c\<lparr>ch_serverstate := CHAPSS_BADAUTH\<rparr>)
      else ChapSendChallenge c)"

definition ChapResponseTimeout :: "'w chap_sys \<Rightarrow> 'w chap_sys" where
  "ChapResponseTimeout c = (if ch_clientstate c \<noteq> CHAPCS_RESPONSE then c else ChapSendResponse c)"

definition ChapRechallenge :: "'w chap_hooks \<Rightarrow> 'w chap_sys \<Rightarrow> 'w chap_sys" where
  "ChapRechallenge hk c =
     (if ch_serverstate c \<noteq> CHAPSS_OPEN then c
      else (ChapSendChallenge (ChapGenChallenge hk c))\<lparr>ch_serverstate := CHAPSS_RECHALLENGE\<rparr>)"

section \<open>Packets\<close>

text \<open>
  The value and the name of a challenge or response. The name is copied into \<open>rhostname[256]\<close> and is
  a C string from then on.
\<close>

definition parse_value :: "u8 list \<Rightarrow> int \<Rightarrow> (u8 list \<times> u8 list) outcome" where
  "parse_value inp len =
     (if len < 2 then Bad
      else bindo (getchar inp) (\<lambda>(n, inp).
        let len = len - (1 + uint n)
        in if len < 0 then Bad
           else let k = (if len \<ge> 256 then 255 else nat len)
                in if length inp < unat n + k then Undef
                   else Ok (take (unat n) inp, takeWhile (\<lambda>c. c \<noteq> 0) (take k (drop (unat n) inp)))))"

text \<open>The digest that both sides compute.\<close>

definition chap_digest :: "'e chap_env_scheme \<Rightarrow> u8 \<Rightarrow> u8 list \<Rightarrow> u8 list \<Rightarrow> u8 list" where
  "chap_digest hk pid secret challenge = md5 hk ([pid] @ secret @ challenge)"

definition ChapReceiveChallenge :: "'w chap_hooks \<Rightarrow> u8 list \<Rightarrow> u8 \<Rightarrow> int \<Rightarrow> 'w chap_sys \<Rightarrow> 'w chap_sys" where
  "ChapReceiveChallenge hk inp pid len c =
     (if ch_clientstate c \<in> {CHAPCS_CLOSED, CHAPCS_PENDING} then c
      else case parse_value inp len of
             Undef \<Rightarrow> c\<lparr>ch_ub := True\<rparr>
           | Bad \<Rightarrow> c
           | Ok (rchallenge, rhostname) \<Rightarrow>
               let (found, c) = get_secret hk (ch_resp_name c) rhostname False c;
                   secret = (case found of None \<Rightarrow> [] | Some s \<Rightarrow> s);
                   c = (if ch_clientstate c = CHAPCS_RESPONSE then c\<lparr>ch_resp_timers := ch_resp_timers c - 1\<rparr> else c);
                   c = c\<lparr>ch_resp_id := pid, ch_resp_transmits := 0\<rparr>
               in if ch_resp_type c = CHAP_MD5
                  then ChapSendResponse
                         (c\<lparr>ch_response := chap_digest hk pid secret rchallenge
                                            @ drop MD5_SIGNATURE_SIZE (ch_response c),
                            ch_resp_length := MD5_SIGNATURE_SIZE\<rparr>)
                  else c)"

text \<open>The comparison in \<open>ChapReceiveResponse\<close>.\<close>

definition chap_verify :: "'e chap_env_scheme \<Rightarrow> u8 list \<Rightarrow> u8 list \<Rightarrow> 'w chap_sys \<Rightarrow> bool" where
  "chap_verify hk secret remmd c \<longleftrightarrow>
     ch_chal_type c = CHAP_MD5 \<and> length remmd = MD5_SIGNATURE_SIZE
     \<and> take MD5_SIGNATURE_SIZE (chap_digest hk (ch_chal_id c) secret (take (ch_chal_len c) (ch_challenge c))) = remmd"

text \<open>What follows the comparison.\<close>

definition chap_answer :: "'w chap_hooks \<Rightarrow> u8 list \<Rightarrow> bool \<Rightarrow> 'w chap_sys \<Rightarrow> 'w chap_sys" where
  "chap_answer hk rhostname good c =
     (let c = ChapSendStatus hk (if good then CHAP_SUCCESS else CHAP_FAILURE) c
      in if good
         then let c = ch_set_userip hk rhostname 0 c;
                  old_state = ch_serverstate c;
                  c = c\<lparr>ch_serverstate := CHAPSS_OPEN\<rparr>;
                  c = (if old_state = CHAPSS_INITIAL_CHAL then ch_peer_success hk c else c)
              in if ch_chal_interval c \<noteq> 0 then c\<lparr>ch_rechal_timers := Suc (ch_rechal_timers c)\<rparr> else c
         else ch_peer_fail hk AUTH_ERR_USER (c\<lparr>ch_serverstate := CHAPSS_BADAUTH\<rparr>))"

definition ChapReceiveResponse :: "'w chap_hooks \<Rightarrow> u8 list \<Rightarrow> u8 \<Rightarrow> int \<Rightarrow> 'w chap_sys \<Rightarrow> 'w chap_sys" where
  "ChapReceiveResponse hk inp pid len c =
     (if ch_serverstate c \<in> {CHAPSS_CLOSED, CHAPSS_PENDING} then c
      else if pid \<noteq> ch_chal_id c then c
      else if ch_serverstate c = CHAPSS_OPEN then ChapSendStatus hk CHAP_SUCCESS c
      else if ch_serverstate c = CHAPSS_BADAUTH then ChapSendStatus hk CHAP_FAILURE c
      else case parse_value inp len of
             Undef \<Rightarrow> c\<lparr>ch_ub := True\<rparr>
           | Bad \<Rightarrow> c
           | Ok (remmd, rhostname) \<Rightarrow>
               let c = c\<lparr>ch_chal_timers := ch_chal_timers c - 1\<rparr>;
                   (found, c) = get_secret hk rhostname (ch_chal_name c) True c;
                   good = (case found of None \<Rightarrow> False | Some secret \<Rightarrow> chap_verify hk secret remmd c)
               in chap_answer hk rhostname good c)"

text \<open>\<open>PRINTMSG\<close> writes a NUL behind the message.\<close>

definition chap_message :: "u8 list \<Rightarrow> int \<Rightarrow> 'w chap_sys \<Rightarrow> 'w chap_sys" where
  "chap_message inp len c = c\<lparr>ch_ub := ch_ub c \<or> 0 < len \<and> int (length inp) < len + 1\<rparr>"

definition ChapReceiveSuccess :: "'w chap_hooks \<Rightarrow> u8 list \<Rightarrow> int \<Rightarrow> 'w chap_sys \<Rightarrow> 'w chap_sys" where
  "ChapReceiveSuccess hk inp len c =
     (if ch_clientstate c = CHAPCS_OPEN then c
      else if ch_clientstate c \<noteq> CHAPCS_RESPONSE then c
      else ch_withpeer_success hk
             ((chap_message inp len (c\<lparr>ch_resp_timers := ch_resp_timers c - 1\<rparr>))\<lparr>ch_clientstate := CHAPCS_OPEN\<rparr>))"

definition ChapReceiveFailure :: "'w chap_hooks \<Rightarrow> u8 list \<Rightarrow> int \<Rightarrow> 'w chap_sys \<Rightarrow> 'w chap_sys" where
  "ChapReceiveFailure hk inp len c =
     (if ch_clientstate c \<noteq> CHAPCS_RESPONSE then c
      else ch_withpeer_fail hk AUTH_ERR_USER (chap_message inp len (c\<lparr>ch_resp_timers := ch_resp_timers c - 1\<rparr>)))"

definition ChapInput :: "'w chap_hooks \<Rightarrow> u8 list \<Rightarrow> int \<Rightarrow> 'w chap_sys \<Rightarrow> 'w chap_sys" where
  "ChapInput hk inpacket packet_len c =
     (if szt packet_len < CHAP_HEADERLEN then c
      else case inpacket of
        code # pid # hi # lo # inp \<Rightarrow>
          let len = uint (join16 hi lo)
          in if len < CHAP_HEADERLEN then c
             else if len > packet_len then c
             else
               let len = len - CHAP_HEADERLEN
               in if code = CHAP_CHALLENGE then ChapReceiveChallenge hk inp pid len c
                  else if code = CHAP_RESPONSE then ChapReceiveResponse hk inp pid len c
                  else if code = CHAP_FAILURE then ChapReceiveFailure hk inp len c
                  else if code = CHAP_SUCCESS then ChapReceiveSuccess hk inp len c
                  else c
      | _ \<Rightarrow> c\<lparr>ch_ub := True\<rparr>)"

section \<open>The protocol as a whole\<close>

datatype chap_event =
    ChapAuthWith "u8 list" u8 | ChapAuth "u8 list" u8 | ChapUp | ChapDown | ChapProtRej
  | ChapChalTimer | ChapRespTimer | ChapRechalTimer | ChapPacket "u8 list" int

fun chap_step :: "'w chap_hooks \<Rightarrow> chap_event \<Rightarrow> 'w chap_sys \<Rightarrow> 'w chap_sys" where
  "chap_step hk (ChapAuthWith n d) c = ChapAuthWithPeer n d c"
| "chap_step hk (ChapAuth n d) c = ChapAuthPeer hk n d c"
| "chap_step hk ChapUp c = ChapLowerUp hk c"
| "chap_step hk ChapDown c = ChapLowerDown c"
| "chap_step hk ChapProtRej c = ChapProtocolReject hk c"
| "chap_step hk ChapChalTimer c =
     (if ch_chal_timers c = 0 then c else ChapChallengeTimeout hk (c\<lparr>ch_chal_timers := ch_chal_timers c - 1\<rparr>))"
| "chap_step hk ChapRespTimer c =
     (if ch_resp_timers c = 0 then c else ChapResponseTimeout (c\<lparr>ch_resp_timers := ch_resp_timers c - 1\<rparr>))"
| "chap_step hk ChapRechalTimer c =
     (if ch_rechal_timers c = 0 then c else ChapRechallenge hk (c\<lparr>ch_rechal_timers := ch_rechal_timers c - 1\<rparr>))"
| "chap_step hk (ChapPacket pkt l) c = ChapInput hk pkt l c"

inductive chap_reaches :: "'w chap_hooks \<Rightarrow> 'w chap_sys \<Rightarrow> 'w chap_sys \<Rightarrow> bool" for hk c0 where
  start: "chap_reaches hk c0 c0"
| step: "chap_reaches hk c0 c \<Longrightarrow> chap_reaches hk c0 (chap_step hk e c)"

end
