(* ===== verification/Chap_Safety.thy ===== *)
theory Chap_Safety
  imports Chap
begin

text \<open>
  What chap.c guarantees. The contract \<open>chap_client\<close> says what the functions of auth.c may do to the
  protocol when it calls them: leave its state alone, or take it down by \<open>ChapLowerDown\<close>; the search
  for a secret and the setting of the script variables touch only the rest of the program.
\<close>

text \<open>A challenge that waits for its answer is repeated.\<close>

definition chap_armed :: "'w chap_sys \<Rightarrow> bool" where
  "chap_armed c \<longleftrightarrow> (ch_serverstate c \<in> {CHAPSS_INITIAL_CHAL, CHAPSS_RECHALLENGE} \<longrightarrow> 0 < ch_chal_timers c)"

definition chap_leaves :: "('w chap_sys \<Rightarrow> 'w chap_sys) \<Rightarrow> bool" where
  "chap_leaves g \<longleftrightarrow> (\<forall>c.
     ch_serverstate (g c) = ch_serverstate c \<and> ch_chal_timers (g c) = ch_chal_timers c
     \<or> ch_serverstate (g c) = CHAPSS_INITIAL)"

definition chap_world_only :: "('w chap_sys \<Rightarrow> 'w chap_sys) \<Rightarrow> bool" where
  "chap_world_only g \<longleftrightarrow> (\<forall>c. \<exists>w. g c = c\<lparr>ch_world := w\<rparr>)"

lemma chap_leavesD:
  "chap_leaves g \<Longrightarrow>
     ch_serverstate (g c) = ch_serverstate c \<and> ch_chal_timers (g c) = ch_chal_timers c
     \<or> ch_serverstate (g c) = CHAPSS_INITIAL"
  by (simp add: chap_leaves_def)

lemma chap_leaves_server:
  "chap_leaves g \<Longrightarrow> ch_serverstate (g c) = ch_serverstate c \<or> ch_serverstate (g c) = CHAPSS_INITIAL"
  using chap_leavesD [of g c] by auto

lemma chap_leaves_armed: "chap_leaves g \<Longrightarrow> chap_armed c \<Longrightarrow> chap_armed (g c)"
  using chap_leavesD [of g c] by (auto simp: chap_armed_def)

lemma chap_world_onlyE:
  assumes "chap_world_only g"
  obtains w where "g c = c\<lparr>ch_world := w\<rparr>"
  using assms unfolding chap_world_only_def by blast

lemma chap_lowerdown_leaves: "chap_leaves ChapLowerDown"
  by (simp add: chap_leaves_def ChapLowerDown_def Let_def)

section \<open>The frame of the operations that send\<close>

lemma chap_output_frame [simp]:
  "ch_serverstate (chap_output b c) = ch_serverstate c" "ch_clientstate (chap_output b c) = ch_clientstate c"
  "ch_chal_timers (chap_output b c) = ch_chal_timers c" "ch_resp_timers (chap_output b c) = ch_resp_timers c"
  "ch_rechal_timers (chap_output b c) = ch_rechal_timers c" "ch_chal_interval (chap_output b c) = ch_chal_interval c"
  "ch_chal_transmits (chap_output b c) = ch_chal_transmits c" "ch_max_transmits (chap_output b c) = ch_max_transmits c"
  by (simp_all add: chap_output_def)

lemma chap_status_frame [simp]:
  "ch_serverstate (ChapSendStatus hk k c) = ch_serverstate c" "ch_clientstate (ChapSendStatus hk k c) = ch_clientstate c"
  "ch_chal_timers (ChapSendStatus hk k c) = ch_chal_timers c" "ch_resp_timers (ChapSendStatus hk k c) = ch_resp_timers c"
  "ch_rechal_timers (ChapSendStatus hk k c) = ch_rechal_timers c"
  "ch_chal_interval (ChapSendStatus hk k c) = ch_chal_interval c"
  by (simp_all add: ChapSendStatus_def Let_def)

lemma chap_send_frame [simp]:
  "ch_serverstate (ChapSendChallenge c) = ch_serverstate c" "ch_clientstate (ChapSendChallenge c) = ch_clientstate c"
  "ch_chal_timers (ChapSendChallenge c) = Suc (ch_chal_timers c)"
  "ch_chal_transmits (ChapSendChallenge c) = ch_chal_transmits c + 1"
  "ch_max_transmits (ChapSendChallenge c) = ch_max_transmits c"
  "ch_serverstate (ChapSendResponse c) = ch_serverstate c" "ch_clientstate (ChapSendResponse c) = CHAPCS_RESPONSE"
  "ch_chal_timers (ChapSendResponse c) = ch_chal_timers c" "ch_resp_timers (ChapSendResponse c) = Suc (ch_resp_timers c)"
  by (simp_all add: ChapSendChallenge_def ChapSendResponse_def Let_def)

lemma chap_gen_frame [simp]:
  "ch_serverstate (ChapGenChallenge hk c) = ch_serverstate c" "ch_clientstate (ChapGenChallenge hk c) = ch_clientstate c"
  "ch_chal_timers (ChapGenChallenge hk c) = ch_chal_timers c" "ch_resp_timers (ChapGenChallenge hk c) = ch_resp_timers c"
  "ch_chal_type (ChapGenChallenge hk c) = ch_chal_type c" "ch_chal_name (ChapGenChallenge hk c) = ch_chal_name c"
  by (simp_all add: ChapGenChallenge_def Let_def)

lemma chap_message_frame [simp]:
  "ch_serverstate (chap_message p n c) = ch_serverstate c" "ch_clientstate (chap_message p n c) = ch_clientstate c"
  "ch_chal_timers (chap_message p n c) = ch_chal_timers c" "ch_resp_timers (chap_message p n c) = ch_resp_timers c"
  by (simp_all add: chap_message_def)

lemma chap_armed_idle: "ch_serverstate c \<notin> {CHAPSS_INITIAL_CHAL, CHAPSS_RECHALLENGE} \<Longrightarrow> chap_armed c"
  by (simp add: chap_armed_def)

lemma chap_leaves_idle:
  assumes "chap_leaves g" "ch_serverstate c \<notin> {CHAPSS_INITIAL_CHAL, CHAPSS_RECHALLENGE}"
  shows "ch_serverstate (g c) \<notin> {CHAPSS_INITIAL_CHAL, CHAPSS_RECHALLENGE}"
  using chap_leaves_server [OF assms(1), of c] assms(2) by auto

section \<open>The layout of challenges and responses\<close>

text \<open>A name that fits into \<open>rhostname\<close> and has no NUL in it.\<close>

definition chap_name :: "u8 list \<Rightarrow> bool" where
  "chap_name name \<longleftrightarrow> length name < 256 \<and> 0 \<notin> set name"

lemma takeWhile_name: "chap_name name \<Longrightarrow> takeWhile (\<lambda>c. c \<noteq> 0) name = name"
  by (auto simp: chap_name_def takeWhile_eq_all_conv)

lemma parse_chap_value:
  assumes "length val < 256" "chap_name name" "val \<noteq> [] \<or> name \<noteq> []"
  shows "parse_value ([word_of_int (int (length val))] @ val @ name) (1 + int (length val) + int (length name)) = Ok (val, name)"
proof -
  have u: "unat (word_of_int (int (length val)) :: u8) = length val" by (rule length_byte [OF assms(1)])
  then have i: "uint (word_of_int (int (length val)) :: u8) = int (length val)" by (metis of_nat_unat)
  have "0 < length val + length name" using assms(3) by auto
  then have "\<not> 1 + int (length val) + int (length name) < 2" by linarith
  then show ?thesis
    using assms(2) takeWhile_name [OF assms(2)]
    by (simp add: parse_value_def u [simplified] i [simplified] Let_def) (simp add: chap_name_def)
qed

lemma chap_value_input:
  assumes "length val < 256" "chap_name name" "val \<noteq> [] \<or> name \<noteq> []"
  defines "len \<equiv> 1 + int (length val) + int (length name)"
    and "inp \<equiv> [word_of_int (int (length val))] @ val @ name"
  shows "code = CHAP_CHALLENGE \<Longrightarrow> ChapInput hk (chap_value code pid val name) (int (length (chap_value code pid val name))) c
      = ChapReceiveChallenge hk inp pid len c"
    and "code = CHAP_RESPONSE \<Longrightarrow> ChapInput hk (chap_value code pid val name) (int (length (chap_value code pid val name))) c
      = ChapReceiveResponse hk inp pid len c"
proof -
  define n where "n = CHAP_HEADERLEN + 1 + int (length val) + int (length name)"
  have n: "0 \<le> n" "n < 65536" using assms(1,2) by (simp_all add: n_def CHAP_HEADERLEN_def chap_name_def)
  have u: "uint (word_of_int n :: u16) = n" using n by (simp add: uint_word_of_int)
  have v: "chap_value code pid val name = code # pid # ucast (drop_bit 8 (word_of_int n :: u16))
      # ucast (word_of_int n :: u16) # inp" for code
    by (simp add: chap_value_def putshort_def n_def inp_def)
  have l: "int (length (chap_value code pid val name)) = n" for code
    by (simp add: v n_def inp_def CHAP_HEADERLEN_def)
  have m: "\<not> szt n < CHAP_HEADERLEN" "\<not> n < CHAP_HEADERLEN" "n - CHAP_HEADERLEN = len"
    using n by (simp_all add: n_def len_def CHAP_HEADERLEN_def)
  show "code = CHAP_CHALLENGE \<Longrightarrow> ChapInput hk (chap_value code pid val name) (int (length (chap_value code pid val name))) c
      = ChapReceiveChallenge hk inp pid len c"
    unfolding l by (simp only: v ChapInput_def join16_split list.case Let_def u m if_False if_True) simp
  show "code = CHAP_RESPONSE \<Longrightarrow> ChapInput hk (chap_value code pid val name) (int (length (chap_value code pid val name))) c
      = ChapReceiveResponse hk inp pid len c"
    unfolding l by (simp only: v ChapInput_def join16_split list.case Let_def u m if_False if_True) (simp add: chap_code_defs)
qed

text \<open>A response with the digest of our challenge under a secret found for its name.\<close>

definition chap_proof :: "'w chap_hooks \<Rightarrow> u8 list \<Rightarrow> int \<Rightarrow> 'w chap_sys \<Rightarrow> bool" where
  "chap_proof hk pkt l c \<longleftrightarrow> (\<exists>hi lo inp remmd name secret.
     pkt = CHAP_RESPONSE # ch_chal_id c # hi # lo # inp \<and> uint (join16 hi lo) \<le> l
     \<and> parse_value inp (uint (join16 hi lo) - CHAP_HEADERLEN) = Ok (remmd, name)
     \<and> fst (get_secret hk name (ch_chal_name c) True (c\<lparr>ch_chal_timers := ch_chal_timers c - 1\<rparr>)) = Some secret
     \<and> chap_verify hk secret remmd c)"

section \<open>The contract with auth.c\<close>

locale chap_client =
  fixes hk :: "'w chap_hooks"
  assumes withpeer_fail_leaves: "chap_leaves (ch_withpeer_fail hk r)"
    and withpeer_success_leaves: "chap_leaves (ch_withpeer_success hk)"
    and peer_fail_leaves: "chap_leaves (ch_peer_fail hk r)"
    and peer_success_leaves: "chap_leaves (ch_peer_success hk)"
    and secret_world: "chap_world_only (\<lambda>c. snd (get_secret hk n m b c))"
    and userip_world: "chap_world_only (ch_set_userip hk n k)"
begin

lemma secret_frame:
  assumes "get_secret hk n m b c = (found, c')"
  obtains w where "c' = c\<lparr>ch_world := w\<rparr>"
proof -
  obtain w where "snd (get_secret hk n m b c) = c\<lparr>ch_world := w\<rparr>"
    by (rule chap_world_onlyE [OF secret_world])
  then show thesis using assms that by simp
qed

lemma receive_challenge_frame:
  "ch_serverstate (ChapReceiveChallenge hk inp pid len c) = ch_serverstate c
   \<and> ch_chal_timers (ChapReceiveChallenge hk inp pid len c) = ch_chal_timers c"
proof (cases "parse_value inp len")
  case (Ok x)
  obtain q n where x: "x = (q, n)" by (cases x)
  obtain found c' where g: "get_secret hk (ch_resp_name c) n False c = (found, c')" by (metis surj_pair)
  obtain w where "c' = c\<lparr>ch_world := w\<rparr>" using secret_frame [OF g] by blast
  then show ?thesis by (simp add: ChapReceiveChallenge_def Ok x g Let_def)
qed (simp_all add: ChapReceiveChallenge_def)

lemma answer_state:
  "ch_serverstate (chap_answer hk n good c) \<in>
     (if good then {CHAPSS_OPEN, CHAPSS_INITIAL} else {CHAPSS_BADAUTH, CHAPSS_INITIAL})"
proof -
  obtain w where u: "ch_set_userip hk n 0 (ChapSendStatus hk CHAP_SUCCESS c) =
      (ChapSendStatus hk CHAP_SUCCESS c)\<lparr>ch_world := w\<rparr>"
    by (rule chap_world_onlyE [OF userip_world])
  have p: "ch_serverstate (ch_peer_success hk (t\<lparr>ch_serverstate := CHAPSS_OPEN\<rparr>)) \<in> {CHAPSS_OPEN, CHAPSS_INITIAL}" for t
    using chap_leaves_server [OF peer_success_leaves, of "t\<lparr>ch_serverstate := CHAPSS_OPEN\<rparr>"] by auto
  have f: "ch_serverstate (ch_peer_fail hk r (t\<lparr>ch_serverstate := CHAPSS_BADAUTH\<rparr>)) \<in> {CHAPSS_BADAUTH, CHAPSS_INITIAL}" for t r
    using chap_leaves_server [OF peer_fail_leaves, of r "t\<lparr>ch_serverstate := CHAPSS_BADAUTH\<rparr>"] by auto
  show ?thesis
    using p f by (cases good) (simp_all add: chap_answer_def u Let_def)
qed

lemma answer_armed: "chap_armed (chap_answer hk n good c)"
  using answer_state [of n good c] by (intro chap_armed_idle) (auto split: if_splits)

lemma receive_response_armed:
  assumes "chap_armed c"
  shows "chap_armed (ChapReceiveResponse hk inp pid len c)"
proof (cases "parse_value inp len")
  case (Ok x)
  then show ?thesis
    using assms by (simp add: ChapReceiveResponse_def chap_armed_def [of "ChapSendStatus hk k c" for k]
        chap_armed_def [of c] answer_armed Let_def case_prod_beta)
qed (use assms in \<open>simp_all add: ChapReceiveResponse_def chap_armed_def\<close>)

lemma receive_success_armed:
  assumes "chap_armed c"
  shows "chap_armed (ChapReceiveSuccess hk inp len c)"
proof -
  have "chap_armed ((chap_message inp len (c\<lparr>ch_resp_timers := k\<rparr>))\<lparr>ch_clientstate := CHAPCS_OPEN\<rparr>)" for k
    using assms by (simp add: chap_armed_def)
  then show ?thesis
    using assms chap_leaves_armed [OF withpeer_success_leaves] by (simp add: ChapReceiveSuccess_def)
qed

lemma receive_failure_armed:
  assumes "chap_armed c"
  shows "chap_armed (ChapReceiveFailure hk inp len c)"
proof -
  have "chap_armed (chap_message inp len (c\<lparr>ch_resp_timers := k\<rparr>))" for k
    using assms by (simp add: chap_armed_def)
  then show ?thesis
    using assms chap_leaves_armed [OF withpeer_fail_leaves] by (simp add: ChapReceiveFailure_def)
qed

lemma receive_challenge_armed: "chap_armed c \<Longrightarrow> chap_armed (ChapReceiveChallenge hk inp pid len c)"
  using receive_challenge_frame [of inp pid len c] by (simp add: chap_armed_def)

lemma input_armed: "chap_armed c \<Longrightarrow> chap_armed (ChapInput hk pkt l c)"
  using receive_challenge_armed receive_response_armed receive_success_armed receive_failure_armed
  by (simp add: ChapInput_def Let_def chap_armed_def [of "c\<lparr>ch_ub := True\<rparr>"] chap_armed_def [of c] split: list.split)

lemma chal_timeout_armed:
  assumes "chap_armed c"
  shows "chap_armed (ChapChallengeTimeout hk (c\<lparr>ch_chal_timers := k\<rparr>))"
proof -
  have "chap_armed (ch_peer_fail hk AUTH_ERR_TIME (t\<lparr>ch_serverstate := CHAPSS_BADAUTH\<rparr>))" for t
    by (intro chap_armed_idle chap_leaves_idle [OF peer_fail_leaves]) simp
  then show ?thesis
    by (auto simp: ChapChallengeTimeout_def) (simp_all add: chap_armed_def)
qed

lemma step_armed: "chap_armed c \<Longrightarrow> chap_armed (chap_step hk e c)"
proof (cases e)
  case ChapProtRej
  then show ?thesis by (intro chap_armed_idle) (simp add: ChapProtocolReject_def ChapLowerDown_def Let_def)
next
  case ChapRespTimer
  assume "chap_armed c"
  then show ?thesis using ChapRespTimer by (simp add: ChapResponseTimeout_def chap_armed_def)
next
  case ChapRechalTimer
  assume "chap_armed c"
  then show ?thesis using ChapRechalTimer by (simp add: ChapRechallenge_def chap_armed_def)
next
  case (ChapAuthWith n d)
  assume "chap_armed c"
  then show ?thesis using ChapAuthWith by (simp add: ChapAuthWithPeer_def chap_armed_def Let_def)
next
  case (ChapAuth n d)
  then show ?thesis by (simp add: ChapAuthPeer_def chap_armed_def Let_def)
next
  case ChapUp
  assume "chap_armed c"
  then show ?thesis using ChapUp by (simp add: ChapLowerUp_def chap_armed_def Let_def)
next
  case ChapDown
  then show ?thesis by (simp add: ChapLowerDown_def chap_armed_def Let_def)
qed (simp_all add: chal_timeout_armed input_armed)

theorem reaches_armed: "chap_reaches hk c0 c \<Longrightarrow> chap_armed c0 \<Longrightarrow> chap_armed c"
  by (induction rule: chap_reaches.induct) (simp_all add: step_armed)


section \<open>When the server opens\<close>

lemma not_open:
  "chap_leaves g \<Longrightarrow> ch_serverstate c \<noteq> CHAPSS_OPEN \<Longrightarrow> ch_serverstate (g c) \<noteq> CHAPSS_OPEN"
  using chap_leaves_server [of g c] by auto

lemma receive_response_opens:
  assumes "ch_serverstate c \<noteq> CHAPSS_OPEN" "ch_serverstate (ChapReceiveResponse hk inp pid len c) = CHAPSS_OPEN"
  shows "pid = ch_chal_id c \<and> (\<exists>remmd name secret. parse_value inp len = Ok (remmd, name)
     \<and> fst (get_secret hk name (ch_chal_name c) True (c\<lparr>ch_chal_timers := ch_chal_timers c - 1\<rparr>)) = Some secret \<and> chap_verify hk secret remmd c)"
proof -
  have pid: "pid = ch_chal_id c" using assms by (auto simp: ChapReceiveResponse_def split: if_splits)
  obtain remmd name where p: "parse_value inp len = Ok (remmd, name)"
    using assms by (cases "parse_value inp len") (auto simp: ChapReceiveResponse_def split: if_splits)
  define c1 where "c1 = c\<lparr>ch_chal_timers := ch_chal_timers c - 1\<rparr>"
  obtain found c2 where g: "get_secret hk name (ch_chal_name c) True c1 = (found, c2)" by (metis surj_pair)
  obtain w where w: "c2 = c1\<lparr>ch_world := w\<rparr>" using secret_frame [OF g] by blast
  define good where "good = (case found of None \<Rightarrow> False | Some secret \<Rightarrow> chap_verify hk secret remmd c2)"
  have st: "ch_serverstate c \<noteq> CHAPSS_BADAUTH" "ch_serverstate c \<noteq> CHAPSS_CLOSED" "ch_serverstate c \<noteq> CHAPSS_PENDING"
    using assms by (auto simp: ChapReceiveResponse_def split: if_splits)
  have "ChapReceiveResponse hk inp pid len c = chap_answer hk name good c2"
    using assms(1) st pid p g unfolding ChapReceiveResponse_def good_def
    by (simp add: Let_def c1_def split del: if_split)
  then have good using assms(2) answer_state [of name good c2] by (auto split: if_splits)
  then obtain secret where s: "found = Some secret" "chap_verify hk secret remmd c2"
    unfolding good_def by (cases found) simp_all
  have "chap_verify hk secret remmd c" using s(2) by (simp add: chap_verify_def w c1_def)
  moreover have "fst (get_secret hk name (ch_chal_name c) True c1) = Some secret" using g s(1) by simp
  ultimately show ?thesis using pid p unfolding c1_def by (intro conjI exI)
qed

lemma input_opens:
  assumes "ch_serverstate c \<noteq> CHAPSS_OPEN" "ch_serverstate (ChapInput hk pkt l c) = CHAPSS_OPEN"
  shows "chap_proof hk pkt l c"
proof -
  obtain code pid hi lo inp where pkt: "pkt = code # pid # hi # lo # inp"
    using assms by (auto simp: ChapInput_def split: if_splits list.splits)
  define len where "len = uint (join16 hi lo) - CHAP_HEADERLEN"
  have ch: "ch_serverstate (ChapReceiveChallenge hk inp pid len c) \<noteq> CHAPSS_OPEN"
    using receive_challenge_frame assms(1) by simp
  have fl: "ch_serverstate (ChapReceiveFailure hk inp len c) \<noteq> CHAPSS_OPEN"
    using assms(1) by (simp add: ChapReceiveFailure_def not_open [OF withpeer_fail_leaves])
  have su: "ch_serverstate (ChapReceiveSuccess hk inp len c) \<noteq> CHAPSS_OPEN"
    using assms(1) by (simp add: ChapReceiveSuccess_def not_open [OF withpeer_success_leaves])
  have "ChapInput hk pkt l c = c
      \<or> code = CHAP_RESPONSE \<and> uint (join16 hi lo) \<le> l \<and> ChapInput hk pkt l c = ChapReceiveResponse hk inp pid len c
      \<or> ChapInput hk pkt l c \<in> {ChapReceiveChallenge hk inp pid len c, ChapReceiveFailure hk inp len c,
           ChapReceiveSuccess hk inp len c}"
    by (simp add: ChapInput_def pkt Let_def len_def)
  then have c: "code = CHAP_RESPONSE" "uint (join16 hi lo) \<le> l"
    and o: "ch_serverstate (ChapReceiveResponse hk inp pid len c) = CHAPSS_OPEN"
    using assms ch fl su by (elim disjE conjE insertE emptyE; simp)+
  obtain remmd name secret where "pid = ch_chal_id c" "parse_value inp len = Ok (remmd, name)"
    "fst (get_secret hk name (ch_chal_name c) True (c\<lparr>ch_chal_timers := ch_chal_timers c - 1\<rparr>)) = Some secret" "chap_verify hk secret remmd c"
    using receive_response_opens [OF assms(1) o] by (elim exE conjE)
  then show ?thesis
    unfolding chap_proof_def using pkt c by (intro exI conjI) (simp_all add: len_def)
qed

lemma step_opens:
  assumes "ch_serverstate c \<noteq> CHAPSS_OPEN" "ch_serverstate (chap_step hk e c) = CHAPSS_OPEN"
  shows "\<exists>pkt l. e = ChapPacket pkt l \<and> chap_proof hk pkt l c"
proof (cases e)
  case (ChapPacket pkt l)
  then show ?thesis using assms input_opens by simp
next
  case ChapChalTimer
  have "ch_serverstate (ChapChallengeTimeout hk (c\<lparr>ch_chal_timers := k\<rparr>)) \<noteq> CHAPSS_OPEN" for k
    using assms(1) by (simp add: ChapChallengeTimeout_def not_open [OF peer_fail_leaves])
  then show ?thesis using assms ChapChalTimer by (simp split: if_splits)
qed (use assms in \<open>auto simp: ChapAuthWithPeer_def ChapAuthPeer_def ChapLowerUp_def ChapLowerDown_def
      ChapProtocolReject_def ChapResponseTimeout_def ChapRechallenge_def Let_def split: if_splits\<close>)

text \<open>Two ends that share a secret: the answer to a challenge is accepted.\<close>

lemma handshake:
  assumes srv: "ch_serverstate s \<in> {CHAPSS_INITIAL_CHAL, CHAPSS_RECHALLENGE}" "ch_chal_type s = CHAP_MD5"
    and cli: "ch_clientstate c \<notin> {CHAPCS_CLOSED, CHAPCS_PENDING}" "ch_resp_type c = CHAP_MD5"
    and names: "chap_name (ch_chal_name s)" "chap_name (ch_resp_name c)"
    and chal: "ch_chal_len s < 256" "0 < ch_chal_len s" "ch_chal_len s \<le> length (ch_challenge s)"
    and md5: "\<And>m. length (md5 hk m) = MD5_SIGNATURE_SIZE"
    and secret: "fst (get_secret hk (ch_resp_name c) (ch_chal_name s) False c) = Some secret"
      "\<And>t. fst (get_secret hk (ch_resp_name c) (ch_chal_name s) True (s\<lparr>ch_chal_timers := t\<rparr>)) = Some secret"
  defines "q \<equiv> chap_value CHAP_CHALLENGE (ch_chal_id s) (take (ch_chal_len s) (ch_challenge s)) (ch_chal_name s)"
  defines "c' \<equiv> ChapInput hk q (int (length q)) c"
  defines "r \<equiv> chap_value CHAP_RESPONSE (ch_resp_id c') (take (ch_resp_length c') (ch_response c')) (ch_resp_name c')"
  shows "last (ch_sent c') = [0xff, 0x03] @ putshort PPP_CHAP_proto @ r"
    and "ch_serverstate (ChapInput hk r (int (length r)) s) \<in> {CHAPSS_OPEN, CHAPSS_INITIAL}"
proof -
  define val where "val = take (ch_chal_len s) (ch_challenge s)"
  define dig where "dig = chap_digest hk (ch_chal_id s) secret val"
  have val: "length val < 256" "val \<noteq> []" using chal by (auto simp: val_def)
  have dig: "length dig = 16" "dig \<noteq> []"
    using md5 by (auto simp: dig_def chap_digest_def MD5_SIGNATURE_SIZE_def simp del: length_0_conv simp flip: length_greater_0_conv)
  obtain c1 where g: "get_secret hk (ch_resp_name c) (ch_chal_name s) False c = (Some secret, c1)"
    using secret(1) by (metis prod.collapse)
  obtain w where c1: "c1 = c\<lparr>ch_world := w\<rparr>" using secret_frame [OF g] by blast
  have "c' = ChapReceiveChallenge hk ([word_of_int (int (length val))] @ val @ ch_chal_name s) (ch_chal_id s)
      (1 + int (length val) + int (length (ch_chal_name s))) c"
    unfolding c'_def q_def val_def [symmetric]
    using chap_value_input(1) [OF val(1) names(1), of CHAP_CHALLENGE] val(2) by blast
  also have "\<dots> = ChapSendResponse ((if ch_clientstate c1 = CHAPCS_RESPONSE
        then c1\<lparr>ch_resp_timers := ch_resp_timers c1 - 1\<rparr> else c1)
        \<lparr>ch_resp_id := ch_chal_id s, ch_resp_transmits := 0,
         ch_response := dig @ drop MD5_SIGNATURE_SIZE (ch_response c1), ch_resp_length := MD5_SIGNATURE_SIZE\<rparr>)"
    using cli parse_chap_value [OF val(1) names(1)] val(2)
    by (simp add: ChapReceiveChallenge_def g c1 dig_def)
  finally have c': "c' = \<dots>" .
  have f: "ch_resp_id c' = ch_chal_id s" "take (ch_resp_length c') (ch_response c') = dig"
    "ch_resp_name c' = ch_resp_name c"
    by (simp_all add: c' ChapSendResponse_def chap_output_def c1 dig MD5_SIGNATURE_SIZE_def Let_def)
  show "last (ch_sent c') = [0xff, 0x03] @ putshort PPP_CHAP_proto @ r"
    unfolding r_def f by (simp add: c' ChapSendResponse_def chap_output_def c1 dig MD5_SIGNATURE_SIZE_def Let_def)
  have r: "ChapInput hk r (int (length r)) s =
      ChapReceiveResponse hk ([word_of_int (int (length dig))] @ dig @ ch_resp_name c) (ch_chal_id s)
        (1 + int (length dig) + int (length (ch_resp_name c))) s"
    unfolding r_def f using chap_value_input(2) [OF _ names(2), of dig CHAP_RESPONSE] dig by simp
  define s1 where "s1 = s\<lparr>ch_chal_timers := ch_chal_timers s - 1\<rparr>"
  obtain s2 where g2: "get_secret hk (ch_resp_name c) (ch_chal_name s) True s1 = (Some secret, s2)"
    using secret(2) unfolding s1_def by (metis prod.collapse)
  obtain w2 where s2: "s2 = s1\<lparr>ch_world := w2\<rparr>" using secret_frame [OF g2] by blast
  have v: "chap_verify hk secret dig s2"
    using srv(2) dig by (simp add: chap_verify_def s2 s1_def dig_def val_def MD5_SIGNATURE_SIZE_def)
  have "ChapReceiveResponse hk ([word_of_int (int (length dig))] @ dig @ ch_resp_name c) (ch_chal_id s)
      (1 + int (length dig) + int (length (ch_resp_name c))) s = chap_answer hk (ch_resp_name c) True s2"
    using srv(1) parse_chap_value [OF _ names(2), of dig] dig g2 [unfolded s1_def One_nat_def] v
    by (auto simp: ChapReceiveResponse_def Let_def)
  then show "ch_serverstate (ChapInput hk r (int (length r)) s) \<in> {CHAPSS_OPEN, CHAPSS_INITIAL}"
    using answer_state [of "ch_resp_name c" True s2] r by simp
qed

text \<open>A Failure or an unknown digest leaves the client waiting without a timer.\<close>

lemma failure_waits:
  assumes "ch_clientstate c = CHAPCS_RESPONSE" "ch_resp_timers c = 1"
    and "\<And>t. ch_clientstate (ch_withpeer_fail hk AUTH_ERR_USER t) = ch_clientstate t
      \<and> ch_resp_timers (ch_withpeer_fail hk AUTH_ERR_USER t) = ch_resp_timers t"
  shows "ch_clientstate (ChapReceiveFailure hk inp len c) = CHAPCS_RESPONSE
    \<and> ch_resp_timers (ChapReceiveFailure hk inp len c) = 0"
  using assms by (simp add: ChapReceiveFailure_def)

end

end
