(* ===== verification/Getword.thy ===== *)
theory Getword
  imports Prelude
begin

text \<open>
  \<open>getword\<close> of options.c: reads one word from a configuration or secrets file. A \<open>FILE\<close> is the list of the
  bytes not yet read; the character \<open>c\<close> that the C code has in its hand is the head of the list, and the
  empty list is \<open>EOF\<close>. Errors of the file system while reading (\<open>die\<close>) do not occur in the model.
\<close>

definition MAXWORDLEN :: nat where "MAXWORDLEN = 1024"

text \<open>A C string in a buffer ends at its first NUL.\<close>

definition cstr :: "u8 list \<Rightarrow> u8 list" where
  "cstr w = takeWhile (\<lambda>c. c \<noteq> 0) w"

text \<open>The characters of the C locale: tab, newline, vertical tab, form feed, return and space.\<close>

definition isspace :: "u8 \<Rightarrow> bool" where
  "isspace c \<longleftrightarrow> c \<in> {9, 10, 11, 12, 13, 32}"

definition isoctal :: "u8 \<Rightarrow> bool" where
  "isoctal c \<longleftrightarrow> 48 \<le> c \<and> c < 56"

definition isxdigit :: "u8 \<Rightarrow> bool" where
  "isxdigit c \<longleftrightarrow> 48 \<le> c \<and> c \<le> 57 \<or> 65 \<le> c \<and> c \<le> 70 \<or> 97 \<le> c \<and> c \<le> 102"

text \<open>\<open>toupper(c) - '0'\<close> and the correction for letters; characters are the bytes of ASCII.\<close>

definition hex_digit :: "u8 \<Rightarrow> u32" where
  "hex_digit c =
     (let digit = ucast (if 97 \<le> c then c - 32 else c) - 48
      in if digit > 10 then digit + 48 + 10 - 65 else digit)"

text \<open>White space, comments and escaped newlines before the word: \<open>escape\<close>, \<open>*newlinep\<close> and the file.\<close>

fun skip_white :: "bool \<Rightarrow> bool \<Rightarrow> bool \<Rightarrow> u8 list \<Rightarrow> bool \<times> bool \<times> u8 list" where
  "skip_white escape comment newline [] = (escape, newline, [])"
| "skip_white escape comment newline (c # f) =
     (if c = 10
      then if \<not> escape then skip_white escape False True f else skip_white False comment newline f
      else if comment then skip_white escape comment newline f
      else if escape then (escape, newline, c # f)
      else if c = 92 then skip_white True comment newline f
      else if c = 35 then skip_white escape True newline f
      else if \<not> isspace c then (escape, newline, c # f)
      else skip_white escape comment newline f)"

text \<open>The octal and hexadecimal digits of an escape sequence, at most \<open>n\<close>.\<close>

fun octal_digits :: "nat \<Rightarrow> u32 \<Rightarrow> u8 list \<Rightarrow> u32 \<times> u8 list" where
  "octal_digits (Suc n) value (c # f) =
     (if isoctal c then octal_digits n (push_bit 3 value + (ucast c AND 7)) f else (value, c # f))"
| "octal_digits n value f = (value, f)"

fun hex_digits :: "nat \<Rightarrow> u32 \<Rightarrow> u8 list \<Rightarrow> u32 \<times> u8 list" where
  "hex_digits (Suc n) value (c # f) =
     (if isxdigit c then hex_digits n (push_bit 4 value + hex_digit c) f else (value, c # f))"
| "hex_digits n value f = (value, f)"

text \<open>What stands behind a backslash, which is not a newline: the byte stored and the file.\<close>

definition escape_value :: "u8 \<Rightarrow> u8 list \<Rightarrow> u8 \<times> u8 list" where
  "escape_value c f =
     (if c = 97 then (7, f) else if c = 98 then (8, f) else if c = 102 then (12, f)
      else if c = 110 then (10, f) else if c = 114 then (13, f) else if c = 115 then (32, f)
      else if c = 116 then (9, f)
      else if isoctal c then (let (value, f) = octal_digits 3 0 (c # f) in (ucast value, f))
      else if c = 120 then (let (value, f) = hex_digits 2 0 f in (ucast value, f))
      else (c, f))"

lemma octal_digits_length: "length (snd (octal_digits n v f)) \<le> length f"
  by (induction n v f rule: octal_digits.induct) auto

lemma hex_digits_length: "length (snd (hex_digits n v f)) \<le> length f"
  by (induction n v f rule: hex_digits.induct) auto

lemma escape_value_length: "length (snd (escape_value c f)) \<le> length f"
proof -
  have "length (snd (octal_digits 3 0 (c # f))) \<le> length f" if "isoctal c"
    using that octal_digits_length [of 2 _ f] by (simp add: numeral_eq_Suc)
  then show ?thesis
    using hex_digits_length [of 2 0 f] by (simp add: escape_value_def case_prod_beta)
qed

lemma escape_value_shorter: "(v, g) = escape_value c f \<Longrightarrow> length g < Suc (length f)"
  by (metis escape_value_length le_imp_less_Suc snd_conv)

text \<open>
  The word itself, to its delimiter: the quote that began it, or white space and \<open>#\<close>, which stay in the
  file. The flag tells that the file has ended.
\<close>

function word_loop :: "bool \<Rightarrow> u8 option \<Rightarrow> u8 list \<Rightarrow> u8 list \<Rightarrow> u8 list \<times> u8 list \<times> bool" where
  "word_loop escape quoted word [] = (word, [], True)"
| "word_loop escape quoted word (c # f) =
     (if escape
      then if c = 10 then word_loop False quoted word f
           else let (value, f) = escape_value c f in word_loop False quoted (word @ [value]) f
      else if quoted = Some c then (word, f, False)
      else if quoted = None \<and> (isspace c \<or> c = 35) then (word, c # f, False)
      else if c = 92 then word_loop True quoted word f
      else word_loop False quoted (word @ [c]) f)"
  by pat_completeness auto

termination
  by (relation "measure (\<lambda>(e, q, w, f). length f)") (auto dest: escape_value_shorter)

text \<open>
  \<open>word\<close> is the content of the buffer before the call, which stays as it is when there is no word. The
  result is the returned flag, the buffer, \<open>*newlinep\<close> and the file.
\<close>

definition getword :: "u8 list \<Rightarrow> u8 list \<Rightarrow> bool \<times> u8 list \<times> bool \<times> u8 list" where
  "getword word f =
     (let (escape, newline, f) = skip_white False False False f;
          (quoted, f) = (case f of
                           c # f' \<Rightarrow> if \<not> escape \<and> (c = 34 \<or> c = 39) then (Some c, f') else (None, f)
                         | [] \<Rightarrow> (None, f));
          (w, f, eof) = word_loop escape quoted [] f
      in if eof \<and> w = [] then (False, word, newline, f)
         else (True, take (MAXWORDLEN - 1) w, newline, f))"

section \<open>Every word takes something from the file\<close>

lemma skip_white_length: "length (snd (snd (skip_white e c n f))) \<le> length f"
proof (induction e c n f rule: skip_white.induct)
  case (2 e k n c f)
  then show ?case
    by (cases "c = 10"; cases k; cases e; cases "c = 92"; cases "c = 35"; cases "isspace c") (simp_all add: le_SucI)
qed simp

lemma skip_white_stops:
  "skip_white e c n f = (e', n', g) \<Longrightarrow> g = [] \<or> e' \<or> \<not> isspace (hd g) \<and> hd g \<noteq> 35"
  by (induction e c n f rule: skip_white.induct) (auto split: if_splits)

lemma word_loop_length:
  "word_loop e q w f = (w', g, eof) \<Longrightarrow> length g \<le> length f \<and> (eof \<longrightarrow> g = [])"
proof (induction e q w f arbitrary: w' g eof rule: word_loop.induct)
  case (2 e q w c f)
  obtain v f' where ev: "escape_value c f = (v, f')" by (metis surj_pair)
  have l: "length f' \<le> length f" using escape_value_length [of c f] ev by simp
  show ?case
  proof (cases e)
    case True
    have "length g \<le> length f' \<and> (eof \<longrightarrow> g = [])" if "c \<noteq> 10"
    proof (rule "2.IH"(2) [OF True that ev [symmetric] refl])
      show "word_loop False q (w @ [v]) f' = (w', g, eof)" using "2.prems" True that ev by simp
    qed
    then show ?thesis
      using "2.IH"(1) True "2.prems" l by (cases "c = 10") (simp_all add: le_SucI)
  next
    case False
    then show ?thesis
      using "2.IH"(3,4) "2.prems"
      by (cases "q = Some c"; cases "q = None \<and> (isspace c \<or> c = 35)"; cases "c = 92") (auto simp: le_SucI)
  qed
qed simp

lemma word_loop_consumes:
  assumes "word_loop e None [] f = (w, g, False)" "f = [] \<or> e \<or> \<not> isspace (hd f) \<and> hd f \<noteq> 35"
  shows "length g < length f"
proof (cases f)
  case (Cons c f')
  obtain v h where ev: "escape_value c f' = (v, h)" by (metis surj_pair)
  have "length h \<le> length f'" using escape_value_length [of c f'] ev by simp
  moreover have "e \<or> \<not> isspace c \<and> c \<noteq> 35" using assms(2) Cons by simp
  ultimately have "length g \<le> length f'"
    using assms(1) word_loop_length
    by (auto simp: Cons ev split: if_splits) (fastforce dest: word_loop_length)+
  then show ?thesis using Cons by simp
qed (use assms in simp)

lemma getword_shorter:
  assumes "getword word f = (ok, w, nl, g)"
  shows "length g \<le> length f \<and> (ok \<and> f \<noteq> [] \<longrightarrow> length g < length f) \<and> (ok \<longrightarrow> f \<noteq> []) \<and> (\<not> ok \<longrightarrow> g = [])"
proof -
  obtain e n f1 where sk: "skip_white False False False f = (e, n, f1)" by (metis prod_cases3)
  have l1: "length f1 \<le> length f" using skip_white_length [of False False False f] sk by simp
  define f2 where "f2 = (if \<not> e \<and> f1 \<noteq> [] \<and> (hd f1 = 34 \<or> hd f1 = 39) then tl f1 else f1)"
  define q where "q = (if \<not> e \<and> f1 \<noteq> [] \<and> (hd f1 = 34 \<or> hd f1 = 39) then Some (hd f1) else None)"
  obtain w1 g1 eof where wl: "word_loop e q [] f2 = (w1, g1, eof)" by (metis prod_cases3)
  have g: "getword word f = (if eof \<and> w1 = [] then (False, word, n, g1) else (True, take (MAXWORDLEN - 1) w1, n, g1))"
    using wl unfolding f2_def q_def getword_def
    by (cases f1; cases e) (auto simp: sk Let_def split: if_splits simp del: word_loop.simps)
  have l2: "length f2 \<le> length f1" "length g1 \<le> length f2" "eof \<longrightarrow> g1 = []"
    using word_loop_length [OF wl] by (simp_all add: f2_def)
  have lt: "length g1 < length f1" if "f1 \<noteq> []" "\<not> eof"
  proof (cases q)
    case None
    then have "f2 = f1" by (auto simp: q_def f2_def split: if_splits)
    then show ?thesis
      using word_loop_consumes [of e f1 w1 g1] skip_white_stops [OF sk] wl None that by simp
  next
    case (Some d)
    then have "length f2 < length f1" using that by (simp add: q_def f2_def split: if_splits)
    then show ?thesis using l2 by simp
  qed
  have e0: "eof \<and> w1 = []" if "f1 = []"
    using wl that by (simp add: f2_def)
  show ?thesis
    using assms g l1 l2 lt e0 by (cases "f1 = []"; cases eof; auto split: if_splits)
qed

section \<open>Reading back plain and quoted words\<close>

text \<open>A character that stands for itself in an unquoted word.\<close>

definition plain_char :: "u8 \<Rightarrow> bool" where
  "plain_char c \<longleftrightarrow> \<not> isspace c \<and> c \<notin> {0, 34, 35, 39, 92}"

definition plain_word :: "u8 list \<Rightarrow> bool" where
  "plain_word w \<longleftrightarrow> w \<noteq> [] \<and> list_all plain_char w \<and> length w < MAXWORDLEN"

lemma plain_char_simps:
  "plain_char c \<Longrightarrow> c \<noteq> 0 \<and> c \<noteq> 10 \<and> c \<noteq> 34 \<and> c \<noteq> 35 \<and> c \<noteq> 39 \<and> c \<noteq> 92 \<and> \<not> isspace c"
  by (auto simp: plain_char_def isspace_def)

lemma cstr_plain: "plain_word w \<Longrightarrow> cstr w = w"
  by (auto simp: cstr_def takeWhile_eq_all_conv plain_word_def list_all_iff plain_char_def)

text \<open>A separator, that is a space or a newline, ends a word and begins the next one.\<close>

lemma word_loop_plain:
  assumes "list_all plain_char w" "isspace d"
  shows "word_loop False None acc (w @ d # f) = (acc @ w, d # f, False)"
  using assms(1)
proof (induction w arbitrary: acc)
  case (Cons c w)
  then show ?case using plain_char_simps [of c] by simp
qed (use assms(2) in simp)

lemma getword_plain:
  assumes "plain_word w" "isspace d"
  shows "getword old (w @ d # f) = (True, w, False, d # f)"
    and "getword old (32 # w @ d # f) = (True, w, False, d # f)"
    and "getword old (10 # w @ d # f) = (True, w, True, d # f)"
proof -
  obtain c w' where w: "w = c # w'" using assms(1) by (cases w) (simp_all add: plain_word_def)
  have c: "plain_char c" using assms(1) by (simp add: w plain_word_def)
  have sk: "skip_white False False nl (w @ d # f) = (False, nl, w @ d # f)" for nl
    using plain_char_simps [OF c] by (simp add: w)
  have sp: "isspace 32" by (simp add: isspace_def)
  have t: "take (MAXWORDLEN - 1) w = w"
 using assms(1) by (simp add: plain_word_def MAXWORDLEN_def)
  have g: "getword old g = (True, w, nl, d # f)" if "skip_white False False False g = (False, nl, w @ d # f)" for g nl
    using word_loop_plain [of w d "[]" f] assms that plain_char_simps [OF c] t
    by (simp add: getword_def Let_def w plain_word_def del: word_loop.simps)
  show "getword old (w @ d # f) = (True, w, False, d # f)" using g sk by simp
  show "getword old (32 # w @ d # f) = (True, w, False, d # f)" using g sk sp by simp
  show "getword old (10 # w @ d # f) = (True, w, True, d # f)" using g sk by simp
qed

lemma getword_end: "getword old [10] = (False, old, True, [])"
  by (simp add: getword_def)

text \<open>Any word without NUL can be written between quotes, with backslashes before quotes and backslashes.\<close>

fun quote_chars :: "u8 list \<Rightarrow> u8 list" where
  "quote_chars [] = []"
| "quote_chars (c # w) = (if c = 34 \<or> c = 92 then [92, c] else [c]) @ quote_chars w"

definition quote :: "u8 list \<Rightarrow> u8 list" where
  "quote w = [34] @ quote_chars w @ [34]"

lemma word_loop_quoted:
  "word_loop False (Some 34) acc (quote_chars w @ 34 # f) = (acc @ w, f, False)"
proof (induction w arbitrary: acc)
  case (Cons c w)
  then show ?case by (auto simp: escape_value_def isoctal_def)
qed simp

lemma getword_quoted:
  assumes "length w < MAXWORDLEN"
  shows "getword old (quote w @ f) = (True, w, False, f)"
proof -
  have "skip_white False False False (quote w @ f) = (False, False, quote w @ f)"
    by (simp add: quote_def isspace_def)
  then show ?thesis
    using word_loop_quoted [of "[]" w f] assms
    by (simp add: getword_def quote_def Let_def del: word_loop.simps)
qed

end
