(* ===== verification/Secrets.thy ===== *)
theory Secrets
  imports Getword
begin

text \<open>
  The secrets files of auth.c: \<open>scan_authfile\<close> looks for the secret with which \<open>client\<close> authenticates
  to \<open>server\<close>. A line of such a file is a client, a server, a secret and the addresses the client may
  use; \<open>*\<close> matches any name, and a secret \<open>@name\<close> stands in a file of its own. The file system is the
  function \<open>files\<close>, \<open>None\<close> for a file that cannot be opened.

  The second half shows what the scan computes on a file of ordinary lines: the best of the matching
  entries, where a given client counts more than a given server, and the earlier one of two equals.
\<close>

section \<open>The scan\<close>

definition NONWILD_SERVER :: int where "NONWILD_SERVER = 1"
definition NONWILD_CLIENT :: int where "NONWILD_CLIENT = 2"

text \<open>\<open>ISWILD\<close>: the string is a star.\<close>

definition ISWILD :: "u8 list \<Rightarrow> bool" where
  "ISWILD word \<longleftrightarrow> cstr word = [42]"

text \<open>\<open>while (!newline && getword(...))\<close>: the flag, the buffer and the file afterwards.\<close>

function skip_line :: "u8 list \<Rightarrow> u8 list \<Rightarrow> bool \<times> u8 list \<times> u8 list" where
  "skip_line word f =
     (let (ok, word, newline, f') = getword word f
      in if ok \<and> \<not> newline then skip_line word f' else (newline, word, f'))"
  by pat_completeness auto

termination
  by (relation "measure (\<lambda>(w, f). length f)") (auto dest: getword_shorter [OF sym])

text \<open>The loop that reads the addresses at the end of the line.\<close>

function read_addrs :: "u8 list \<Rightarrow> u8 list list \<Rightarrow> u8 list \<Rightarrow> bool \<times> u8 list \<times> u8 list list \<times> u8 list" where
  "read_addrs word addrs f =
     (let (ok, word, newline, f') = getword word f
      in if \<not> ok \<or> newline then (newline, word, addrs, f') else read_addrs word (addrs @ [cstr word]) f')"
  by pat_completeness auto

termination
  by (relation "measure (\<lambda>(w, a, f). length f)") (auto dest: getword_shorter [OF sym])

declare skip_line.simps [simp del] read_addrs.simps [simp del]

lemma skip_line_length:
  "skip_line w f = (nl, w', g) \<Longrightarrow> length g \<le> length f \<and> (nl \<longrightarrow> f \<noteq> [] \<and> length g < length f)"
proof (induction w f arbitrary: nl w' g rule: skip_line.induct)
  case (1 w f)
  obtain ok v n h where g: "getword w f = (ok, v, n, h)" by (metis prod_cases4)
  have n: "f \<noteq> []" if n
    using g that by (auto simp: getword_def Let_def)
  note l = getword_shorter [OF g]
  show ?case
  proof (cases "ok \<and> \<not> n")
    case True
    have "length g \<le> length h \<and> (nl \<longrightarrow> h \<noteq> [] \<and> length g < length h)"
      using "1.IH" [OF g [symmetric] refl refl refl True] "1.prems" True by (simp add: skip_line.simps [of w f] g)
    then show ?thesis using l True by auto
  next
    case False
    then have "nl = n \<and> g = h" using "1.prems" by (auto simp: skip_line.simps [of w f] g split: if_splits)
    then show ?thesis using l n by (cases f) auto
  qed
qed

lemma read_addrs_length: "length (snd (snd (snd (read_addrs w a f)))) \<le> length f"
proof (induction w a f rule: read_addrs.induct)
  case (1 w a f)
  obtain ok v n h where g: "getword w f = (ok, v, n, h)" by (metis prod_cases4)
  show ?case
    using "1.IH" [OF g [symmetric] refl refl refl] getword_shorter [OF g]
    by (simp add: read_addrs.simps [of w a f] g) (meson le_trans)
qed

text \<open>The result so far: \<open>best_flag\<close>, the secret copied out and the address list.\<close>

type_synonym auth_best = "int \<times> u8 list option \<times> u8 list list"

text \<open>
  The word behind a matching client and server: the secret itself, or the first word of the file it
  names. \<open>None\<close> is the \<open>continue\<close> of a file that cannot be read.
\<close>

definition indirect_secret :: "(u8 list \<Rightarrow> u8 list option) \<Rightarrow> u8 list \<Rightarrow> u8 list \<times> bool" where
  "indirect_secret files word =
     (if cstr word \<noteq> [] \<and> hd word = 64
      then case files (cstr (tl word)) of
             None \<Rightarrow> (word, False)
           | Some sf \<Rightarrow> (let (ok, word, xxx, sf) = getword word sf in (word, ok))
      else (word, True))"

lemma skip_line_shorter:
  "(True, w', g) = (if nl then (True, w, f) else skip_line w f) \<Longrightarrow>
     length g \<le> length f \<and> (\<not> nl \<longrightarrow> length g < length f)"
  using skip_line_length [of w f True w' g] by (auto split: if_splits)

lemma getword_consumes: "(True, w', nl, g) = getword w f \<Longrightarrow> length g < length f"
  using getword_shorter [of w f True w' nl g] by simp

lemma read_addrs_shorter: "(nl, w', a', g) = read_addrs w a f \<Longrightarrow> length g \<le> length f"
  using read_addrs_length [of w a f] by (metis snd_conv)

text \<open>
  The main loop, at its head with the flag \<open>newline\<close>, the buffer \<open>word\<close> and the result so far. Each
  \<open>continue\<close> of the source is a recursive call.
\<close>

function scan_loop :: "(u8 list \<Rightarrow> u8 list option) \<Rightarrow> u8 list option \<Rightarrow> u8 list option \<Rightarrow> bool \<Rightarrow> u8 list
    \<Rightarrow> auth_best \<Rightarrow> u8 list \<Rightarrow> auth_best" where
  "scan_loop files client server newline word best f =
     (let (newline', word1, f1) = (if newline then (True, word, f) else skip_line word f)
      in if \<not> newline' then best
         else if client \<noteq> None \<and> client \<noteq> Some (cstr word1) \<and> \<not> ISWILD word1
         then scan_loop files client server False word1 best f1
         else
           let got_flag = (if ISWILD word1 then 0 else NONWILD_CLIENT);
               (ok, word2, newline2, f2) = getword word1 f1
           in if \<not> ok then best
              else if newline2 then scan_loop files client server True word2 best f2
              else if server \<noteq> None \<and> server \<noteq> Some (cstr word2) \<and> \<not> ISWILD word2
              then scan_loop files client server False word2 best f2
              else
                let got_flag = (if ISWILD word2 then got_flag else got_flag + NONWILD_SERVER)
                in if got_flag \<le> fst best then scan_loop files client server False word2 best f2
                   else
                     let (ok, word3, newline3, f3) = getword word2 f2
                     in if \<not> ok then best
                        else if newline3 then scan_loop files client server True word3 best f3
                        else
                          let (word4, readable) = indirect_secret files word3
                          in if \<not> readable then scan_loop files client server False word4 best f3
                             else
                               let (newline5, word5, addrs, f5) = read_addrs word4 [] f3;
                                   best = (got_flag, Some (cstr word4), addrs)
                               in if \<not> newline5 then best
                                  else scan_loop files client server True word5 best f5)"
  by pat_completeness auto

termination
proof (relation "measures [\<lambda>(files, c, s, nl, w, b, f). length f, \<lambda>(files, c, s, nl, w, b, f). if nl then 1 else 0]", goal_cases)
  case 1
  then show ?case by simp
qed (auto dest!: skip_line_shorter getword_consumes read_addrs_shorter)

declare scan_loop.simps [simp del]

text \<open>
  \<open>best_flag\<close> is -1 when there is no secret. \<open>*addrs\<close> is the last component.
\<close>

definition scan_authfile :: "(u8 list \<Rightarrow> u8 list option) \<Rightarrow> u8 list option \<Rightarrow> u8 list option \<Rightarrow> u8 list \<Rightarrow> auth_best" where
  "scan_authfile files client server f =
     (let (ok, word, newline, f) = getword [] f
      in if \<not> ok then (-1, None, []) else scan_loop files client server True word (-1, None, []) f)"

section \<open>What the scan finds\<close>

text \<open>An entry as the administrator thinks of it, and the line of the file.\<close>

record auth_entry =
  ae_client :: "u8 list"
  ae_server :: "u8 list"
  ae_secret :: "u8 list"
  ae_addrs :: "u8 list list"

definition plain_entry :: "auth_entry \<Rightarrow> bool" where
  "plain_entry e \<longleftrightarrow> list_all plain_word ([ae_client e, ae_server e, ae_secret e] @ ae_addrs e) \<and> hd (ae_secret e) \<noteq> 64"

definition words_text :: "u8 list list \<Rightarrow> u8 list" where
  "words_text ws = concat (map (\<lambda>w. 32 # w) ws)"

text \<open>The lines after the current one, beginning with the newline that ends the current one.\<close>

fun lines_text :: "auth_entry list \<Rightarrow> u8 list" where
  "lines_text [] = [10]"
| "lines_text (e # es) =
     10 # ae_client e @ words_text ([ae_server e, ae_secret e] @ ae_addrs e) @ lines_text es"

definition auth_text :: "auth_entry list \<Rightarrow> u8 list" where
  "auth_text es = tl (lines_text es)"

text \<open>How well an entry fits, \<open>None\<close> if it does not.\<close>

definition name_fits :: "u8 list option \<Rightarrow> u8 list \<Rightarrow> bool" where
  "name_fits name w \<longleftrightarrow> name = None \<or> name = Some w \<or> w = [42]"

definition entry_flag :: "auth_entry \<Rightarrow> int" where
  "entry_flag e = (if ae_client e = [42] then 0 else 2) + (if ae_server e = [42] then 0 else 1)"

definition better_entry :: "u8 list option \<Rightarrow> u8 list option \<Rightarrow> auth_best \<Rightarrow> auth_entry \<Rightarrow> auth_best" where
  "better_entry client server best e =
     (if name_fits client (ae_client e) \<and> name_fits server (ae_server e) \<and> fst best < entry_flag e
      then (entry_flag e, Some (ae_secret e), ae_addrs e) else best)"

definition best_entry :: "u8 list option \<Rightarrow> u8 list option \<Rightarrow> auth_entry list \<Rightarrow> auth_best" where
  "best_entry client server es = foldl (better_entry client server) (-1, None, []) es"

lemma words_text_simps [simp]:
  "words_text [] = []" "words_text (w # ws) = 32 # w @ words_text ws"
  by (simp_all add: words_text_def)

lemma separator: "\<exists>d f. words_text ws @ lines_text es = d # f \<and> isspace d"
  by (cases ws; cases es) (simp_all add: isspace_def)

lemma getword_word:
  assumes "plain_word w"
  shows "getword old (32 # w @ words_text ws @ lines_text es) = (True, w, False, words_text ws @ lines_text es)"
    and "getword old (10 # w @ words_text ws @ lines_text es) = (True, w, True, words_text ws @ lines_text es)"
    and "getword old (w @ words_text ws @ lines_text es) = (True, w, False, words_text ws @ lines_text es)"
proof -
  obtain d f where d: "words_text ws @ lines_text es = d # f" "isspace d" using separator by blast
  show "getword old (32 # w @ words_text ws @ lines_text es) = (True, w, False, words_text ws @ lines_text es)"
    "getword old (10 # w @ words_text ws @ lines_text es) = (True, w, True, words_text ws @ lines_text es)"
    "getword old (w @ words_text ws @ lines_text es) = (True, w, False, words_text ws @ lines_text es)"
    unfolding d(1) by (rule getword_plain [OF assms d(2)])+
qed

text \<open>The rest of a line is skipped, or collected, up to the client of the next line.\<close>

lemma skip_line_text:
  assumes "list_all plain_word ws"
  shows "case es of
      [] \<Rightarrow> \<exists>w. skip_line old (words_text ws @ lines_text es) = (True, w, [])
    | e # es' \<Rightarrow> plain_entry e \<longrightarrow> skip_line old (words_text ws @ lines_text es) =
        (True, ae_client e, words_text ([ae_server e, ae_secret e] @ ae_addrs e) @ lines_text es')"
  using assms
proof (induction ws arbitrary: old)
  case Nil
  show ?case
  proof (cases es)
    case (Cons e es')
    then show ?thesis
      using getword_word(2) [of "ae_client e" old "[ae_server e, ae_secret e] @ ae_addrs e" es']
      by (simp add: skip_line.simps [of old] plain_entry_def)
  qed (simp add: skip_line.simps [of old] getword_end)
next
  case (Cons w ws)
  have "skip_line old (words_text (w # ws) @ lines_text es) = skip_line w (words_text ws @ lines_text es)"
    using getword_word(1) [of w old ws es] Cons.prems by (simp add: skip_line.simps [of old])
  then show ?case using Cons.IH [of w] Cons.prems by (simp split: list.splits)
qed

lemma read_addrs_text:
  assumes "list_all plain_word ws"
  shows "case es of
      [] \<Rightarrow> \<exists>w. read_addrs old acc (words_text ws @ lines_text es) = (True, w, acc @ ws, [])
    | e # es' \<Rightarrow> plain_entry e \<longrightarrow> read_addrs old acc (words_text ws @ lines_text es) =
        (True, ae_client e, acc @ ws, words_text ([ae_server e, ae_secret e] @ ae_addrs e) @ lines_text es')"
  using assms
proof (induction ws arbitrary: old acc)
  case Nil
  show ?case
  proof (cases es)
    case (Cons e es')
    then show ?thesis
      using getword_word(2) [of "ae_client e" old "[ae_server e, ae_secret e] @ ae_addrs e" es']
      by (simp add: read_addrs.simps [of old] plain_entry_def)
  qed (simp add: read_addrs.simps [of old] getword_end)
next
  case (Cons w ws)
  have "read_addrs old acc (words_text (w # ws) @ lines_text es) = read_addrs w (acc @ [w]) (words_text ws @ lines_text es)"
    using getword_word(1) [of w old ws es] Cons.prems by (simp add: read_addrs.simps [of old] cstr_plain)
  then show ?case using Cons.IH [of w "acc @ [w]"] Cons.prems by (simp split: list.splits)
qed

text \<open>At the end of the file only a stale word is left in the buffer.\<close>

lemma getword_eof: "getword w [] = (False, w, False, [])"
  by (simp add: getword_def)

lemma scan_loop_eof: "scan_loop files client server nl w best [] = best"
proof -
  have sk: "skip_line v [] = (False, v, [])" for v by (simp add: skip_line.simps getword_eof)
  have nf: "scan_loop files client server False v best [] = best" for v
    by (simp add: scan_loop.simps [of _ _ _ False] sk)
  show ?thesis
    by (cases nl) (simp_all add: nf scan_loop.simps [of _ _ _ True] getword_eof)
qed

lemma scan_loop_skip:
  "skip_line word f = (True, word', f') \<Longrightarrow>
     scan_loop files client server False word best f = scan_loop files client server True word' best f'"
  by (simp add: scan_loop.simps [of _ _ _ False] scan_loop.simps [of _ _ _ True])

lemma plain_entryD:
  "plain_entry e \<Longrightarrow> plain_word (ae_client e) \<and> plain_word (ae_server e) \<and> plain_word (ae_secret e)
     \<and> list_all plain_word (ae_addrs e) \<and> hd (ae_secret e) \<noteq> 64"
  by (simp add: plain_entry_def)

text \<open>A line whose client and server fit well enough is taken, any other line is passed over.\<close>

lemma scan_loop_entry:
  fixes files :: "u8 list \<Rightarrow> u8 list option" and client server :: "u8 list option"
  assumes e: "plain_entry e"
  defines "scan \<equiv> scan_loop files client server"
  shows "\<exists>ws w. list_all plain_word ws \<and>
    scan True (ae_client e) best (words_text ([ae_server e, ae_secret e] @ ae_addrs e) @ lines_text es)
    = (if better_entry client server best e = best then scan False w best (words_text ws @ lines_text es)
       else (let (nl, w, addrs, f) = read_addrs (ae_secret e) [] (words_text (ae_addrs e) @ lines_text es);
                 best = (entry_flag e, Some (ae_secret e), addrs)
             in if \<not> nl then best else scan True w best f))"
    (is "\<exists>ws w. _ \<and> scan True _ best ?f = _")
proof -
  note p = plain_entryD [OF e]
  note c = p [THEN conjunct1, THEN cstr_plain] p [THEN conjunct2, THEN conjunct1, THEN cstr_plain]
    p [THEN conjunct2, THEN conjunct2, THEN conjunct1, THEN cstr_plain]
  have w: "ISWILD (ae_client e) = (ae_client e = [42])" "ISWILD (ae_server e) = (ae_server e = [42])"
    by (simp_all add: ISWILD_def c)
  have g1: "getword old ?f = (True, ae_server e, False, words_text (ae_secret e # ae_addrs e) @ lines_text es)" for old
    using getword_word(1) [of "ae_server e" old "ae_secret e # ae_addrs e" es] p by simp
  have g2: "getword old (words_text (ae_secret e # ae_addrs e) @ lines_text es)
      = (True, ae_secret e, False, words_text (ae_addrs e) @ lines_text es)" for old
    using getword_word(1) [of "ae_secret e" old "ae_addrs e" es] p by simp
  have i: "indirect_secret files (ae_secret e) = (ae_secret e, True)"
    using p by (simp add: indirect_secret_def)
  have neq: "better_entry client server best e = best \<longleftrightarrow>
      \<not> (name_fits client (ae_client e) \<and> name_fits server (ae_server e) \<and> fst best < entry_flag e)"
    by (cases best) (auto simp: better_entry_def)
  show ?thesis
  proof (cases "name_fits client (ae_client e)")
    case False
    then have "scan True (ae_client e) best ?f = scan False (ae_client e) best ?f"
      unfolding scan_def by (subst scan_loop.simps) (auto simp: name_fits_def c w)
    then show ?thesis
      using neq False p by (intro exI [of _ "[ae_server e, ae_secret e] @ ae_addrs e"] exI [of _ "ae_client e"]) simp
  next
    case cl: True
    have "scan True (ae_client e) best ?f =
       (if \<not> (name_fits server (ae_server e) \<and> fst best < entry_flag e)
        then scan False (ae_server e) best (words_text (ae_secret e # ae_addrs e) @ lines_text es)
        else (let (nl, w, addrs, f) = read_addrs (ae_secret e) [] (words_text (ae_addrs e) @ lines_text es);
                 best = (entry_flag e, Some (ae_secret e), addrs)
             in if \<not> nl then best else scan True w best f))"
      unfolding scan_def
      by (subst scan_loop.simps)
        (use cl in \<open>auto simp: name_fits_def c w g1 g2 i entry_flag_def NONWILD_CLIENT_def NONWILD_SERVER_def Let_def case_prod_beta
            simp del: words_text_simps append.simps\<close>)
    then show ?thesis
      using neq cl p by (intro exI [of _ "ae_secret e # ae_addrs e"] exI [of _ "ae_server e"]) auto
  qed
qed

text \<open>At the head of the main loop behind the current line.\<close>

definition scan_rest :: "(u8 list \<Rightarrow> u8 list option) \<Rightarrow> u8 list option \<Rightarrow> u8 list option \<Rightarrow> auth_best \<Rightarrow> auth_entry list \<Rightarrow> auth_best" where
  "scan_rest files client server best es =
     (case es of
        [] \<Rightarrow> best
      | e # es' \<Rightarrow> scan_loop files client server True (ae_client e) best
          (words_text ([ae_server e, ae_secret e] @ ae_addrs e) @ lines_text es'))"

lemma scan_rest_skip:
  assumes "list_all plain_word ws" "list_all plain_entry es"
  shows "scan_loop files client server False w best (words_text ws @ lines_text es) = scan_rest files client server best es"
proof (cases es)
  case Nil
  obtain v where "skip_line w (words_text ws @ lines_text es) = (True, v, [])"
    using skip_line_text [OF assms(1), where es = es and old = w] Nil by auto
  from scan_loop_skip [OF this] show ?thesis by (simp add: scan_rest_def scan_loop_eof Nil)
next
  case (Cons e es')
  have "skip_line w (words_text ws @ lines_text es) =
      (True, ae_client e, words_text ([ae_server e, ae_secret e] @ ae_addrs e) @ lines_text es')"
    using skip_line_text [OF assms(1), where es = es and old = w] assms(2) Cons by simp
  from scan_loop_skip [OF this] show ?thesis by (simp add: scan_rest_def Cons)
qed

lemma scan_rest_take:
  assumes "list_all plain_word ws" "list_all plain_entry es"
  shows "(let (nl, w, addrs, f) = read_addrs w [] (words_text ws @ lines_text es); best = (fl, sec, addrs)
          in if \<not> nl then best else scan_loop files client server True w best f)
    = scan_rest files client server (fl, sec, ws) es"
proof (cases es)
  case Nil
  obtain v where "read_addrs w [] (words_text ws @ lines_text es) = (True, v, ws, [])"
    using read_addrs_text [OF assms(1), where es = es and old = w and acc = "[]"] Nil by auto
  then show ?thesis by (simp add: scan_rest_def scan_loop_eof Nil)
next
  case (Cons e es')
  have "read_addrs w [] (words_text ws @ lines_text es) =
      (True, ae_client e, ws, words_text ([ae_server e, ae_secret e] @ ae_addrs e) @ lines_text es')"
    using read_addrs_text [OF assms(1), where es = es and old = w and acc = "[]"] assms(2) Cons by simp
  then show ?thesis by (simp add: scan_rest_def Cons)
qed

lemma scan_rest_step:
  assumes "list_all plain_entry (e # es)"
  shows "scan_rest files client server best (e # es) = scan_rest files client server (better_entry client server best e) es"
proof -
  have e: "plain_entry e" and es: "list_all plain_entry es" using assms by simp_all
  obtain ws w where ws: "list_all plain_word ws"
    and s: "scan_rest files client server best (e # es) =
      (if better_entry client server best e = best then scan_loop files client server False w best (words_text ws @ lines_text es)
       else (let (nl, w, addrs, f) = read_addrs (ae_secret e) [] (words_text (ae_addrs e) @ lines_text es);
                 best = (entry_flag e, Some (ae_secret e), addrs)
             in if \<not> nl then best else scan_loop files client server True w best f))"
    using scan_loop_entry [OF e, of files client server best es] unfolding scan_rest_def by auto
  show ?thesis
  proof (cases "better_entry client server best e = best")
    case True
    then show ?thesis using s scan_rest_skip [OF ws es] by simp
  next
    case False
    then have "better_entry client server best e = (entry_flag e, Some (ae_secret e), ae_addrs e)"
      by (auto simp: better_entry_def split: if_splits)
    then show ?thesis
      using s False scan_rest_take [OF _ es, of "ae_addrs e"] plain_entryD [OF e] by simp
  qed
qed

lemma scan_rest_all:
  "list_all plain_entry es \<Longrightarrow> scan_rest files client server best es = foldl (better_entry client server) best es"
proof (induction es arbitrary: best)
  case (Cons e es)
  then show ?case using scan_rest_step [of e es] by simp
qed (simp add: scan_rest_def)

lemma scan_authfile_finds:
  assumes "list_all plain_entry es"
  shows "scan_authfile files client server (auth_text es) = best_entry client server es"
proof (cases es)
  case Nil
  then show ?thesis by (simp add: auth_text_def scan_authfile_def getword_eof best_entry_def)
next
  case (Cons e es')
  have e: "plain_entry e" using assms Cons by simp
  have "getword [] (auth_text es) = (True, ae_client e, False,
      words_text ([ae_server e, ae_secret e] @ ae_addrs e) @ lines_text es')"
    using getword_word(3) [of "ae_client e" "[]" "[ae_server e, ae_secret e] @ ae_addrs e" es'] plain_entryD [OF e]
    by (simp add: auth_text_def Cons)
  then have "scan_authfile files client server (auth_text es) = scan_rest files client server (-1, None, []) es"
    by (simp add: scan_authfile_def scan_rest_def Cons)
  then show ?thesis using scan_rest_all [OF assms] by (simp add: best_entry_def)
qed

text \<open>The entry found is one of the file that fits, and none of the file fits better.\<close>

lemma best_entry_flag:
  "foldl (better_entry client server) b es = r \<Longrightarrow>
     fst b \<le> fst r \<and> (\<forall>e \<in> set es. name_fits client (ae_client e) \<and> name_fits server (ae_server e) \<longrightarrow> entry_flag e \<le> fst r)
     \<and> (r = b \<or> (\<exists>e \<in> set es. name_fits client (ae_client e) \<and> name_fits server (ae_server e)
                    \<and> r = (entry_flag e, Some (ae_secret e), ae_addrs e)))"
proof (induction es arbitrary: b)
  case (Cons e es)
  have "foldl (better_entry client server) (better_entry client server b e) es = r" using Cons.prems by simp
  note ih = Cons.IH [OF this]
  have b: "fst b \<le> fst (better_entry client server b e)"
    "name_fits client (ae_client e) \<and> name_fits server (ae_server e) \<longrightarrow> entry_flag e \<le> fst (better_entry client server b e)"
    "better_entry client server b e = b \<or> name_fits client (ae_client e) \<and> name_fits server (ae_server e)
       \<and> better_entry client server b e = (entry_flag e, Some (ae_secret e), ae_addrs e)"
    by (auto simp: better_entry_def)
  show ?case using ih b by (intro conjI) (force, force, metis list.set_intros)
qed simp

end
