(* ===== verification/Auth_Check.thy ===== *)
theory Auth_Check
  imports Secrets Upap
begin

text \<open>
  The decisions of auth.c about names and passwords, as functions of the configuration: \<open>check_passwd\<close>
  and \<open>null_login\<close> for PAP, \<open>get_secret\<close> for CHAP, and what \<open>check_auth_options\<close> finds out about the
  secrets files. What these routines do to the link is in \<open>Link\<close>.

  A configuration holds the global variables of options.c that these routines read, the file system,
  and the C library: \<open>crypt\<close>, and the system's password file as a function of the name.
\<close>

record passwd_entry =
  pw_passwd :: "u8 list"
  pw_expired :: bool

record auth_config =
  au_files :: "u8 list \<Rightarrow> u8 list option"
  au_crypt :: "u8 list \<Rightarrow> u8 list \<Rightarrow> u8 list"
  au_pwnam :: "u8 list \<Rightarrow> passwd_entry option"
  au_our_name :: "u8 list"
  au_remote_name :: "u8 list"
  au_user :: "u8 list"
  au_passwd :: "u8 list"
  au_ask_passwd :: bool
  au_fdpasswd :: bool
  au_uselogin :: bool
  au_cryptpap :: bool
  au_required :: bool

definition PATH_UPAPFILE :: "u8 list" where "PATH_UPAPFILE = map of_char ''/etc/ppp/pap-secrets''"
definition PATH_CHAPFILE :: "u8 list" where "PATH_CHAPFILE = map of_char ''/etc/ppp/chap-secrets''"

definition MAXSECRETLEN :: nat where "MAXSECRETLEN = 256"

text \<open>\<open>check_login\<close>: the code, and whether a wtmp entry is written.\<close>

definition check_login :: "auth_config \<Rightarrow> u8 list \<Rightarrow> u8 list \<Rightarrow> u8 \<times> bool" where
  "check_login cfg user passwd =
     (case au_pwnam cfg user of
        None \<Rightarrow> (UPAP_AUTHNAK, False)
      | Some pw \<Rightarrow>
          if pw_expired pw then (UPAP_AUTHNAK, False)
          else if pw_passwd pw = [] then (UPAP_AUTHACK, False)
          else if au_crypt cfg passwd (pw_passwd pw) \<noteq> pw_passwd pw then (UPAP_AUTHNAK, False)
          else (UPAP_AUTHACK, True))"

text \<open>The part of \<open>check_passwd\<close> that reads the secrets file.\<close>

definition pap_secret :: "auth_config \<Rightarrow> u8 list \<Rightarrow> u8 list \<Rightarrow> u8 \<times> u8 list list" where
  "pap_secret cfg user passwd =
     (case au_files cfg PATH_UPAPFILE of
        None \<Rightarrow> (if \<not> au_uselogin cfg then UPAP_AUTHNAK else UPAP_AUTHACK, [])
      | Some f \<Rightarrow>
          let (flag, found, addrs) = scan_authfile (au_files cfg) (Some user) (Some (au_our_name cfg)) f;
              secret = (case found of None \<Rightarrow> [] | Some s \<Rightarrow> s)
          in if flag < 0
                \<or> secret \<noteq> [] \<and> (au_cryptpap cfg \<or> passwd \<noteq> secret) \<and> au_crypt cfg passwd secret \<noteq> secret
             then (UPAP_AUTHNAK, addrs) else (UPAP_AUTHACK, addrs))"

text \<open>The code, the addresses, whether the user is logged in and whether wtmp is written.\<close>

definition pap_verdict :: "auth_config \<Rightarrow> u8 list \<Rightarrow> u8 list \<Rightarrow> u8 \<times> u8 list list \<times> bool \<times> bool" where
  "pap_verdict cfg user passwd =
     (let (ret, addrs) = pap_secret cfg user passwd
      in if au_uselogin cfg \<and> ret = UPAP_AUTHACK
         then let (ret, wtmp) = check_login cfg user passwd in (ret, addrs, ret \<noteq> UPAP_AUTHNAK, wtmp)
         else (ret, addrs, False, False))"

text \<open>\<open>null_login\<close>: the addresses if the peer may go without authentication.\<close>

definition null_login_addrs :: "auth_config \<Rightarrow> u8 list list option" where
  "null_login_addrs cfg =
     (case au_files cfg PATH_UPAPFILE of
        None \<Rightarrow> None
      | Some f \<Rightarrow>
          let (i, found, addrs) = scan_authfile (au_files cfg) (Some []) (Some (au_our_name cfg)) f
          in if 0 \<le> i \<and> 2 \<le> i \<and> found = Some [] then Some addrs else None)"

text \<open>\<open>get_secret\<close>: the secret and, if a line of the file gave it, the addresses of the line.\<close>

definition chap_secret :: "auth_config \<Rightarrow> u8 list \<Rightarrow> u8 list \<Rightarrow> (u8 list \<times> u8 list list option) option" where
  "chap_secret cfg client server =
     (if (au_ask_passwd cfg \<or> au_fdpasswd cfg) \<and> au_passwd cfg \<noteq> [] then Some (au_passwd cfg, None)
      else case au_files cfg PATH_CHAPFILE of
        None \<Rightarrow> None
      | Some f \<Rightarrow>
          let (ret, found, addrs) = scan_authfile (au_files cfg) (Some client) (Some server) f;
              secbuf = (case found of None \<Rightarrow> [] | Some s \<Rightarrow> s)
          in if ret < 0 then None else Some (take MAXSECRETLEN secbuf, Some addrs))"

section \<open>The secrets the daemon itself needs\<close>

text \<open>\<open>get_upap_passwd\<close>: the new \<open>passwd\<close>, \<open>None\<close> if there is none.\<close>

definition get_upap_passwd :: "auth_config \<Rightarrow> u8 list option" where
  "get_upap_passwd cfg =
     (if (au_ask_passwd cfg \<or> au_fdpasswd cfg) \<and> au_passwd cfg \<noteq> [] then Some (au_passwd cfg)
      else case au_files cfg PATH_UPAPFILE of
        None \<Rightarrow> None
      | Some f \<Rightarrow>
          let (ret, found, addrs) = scan_authfile (au_files cfg) (Some (au_user cfg)) (Some (au_remote_name cfg)) f
          in if ret < 0 then None
             else Some (take (MAXSECRETLEN - 1) (case found of None \<Rightarrow> [] | Some s \<Rightarrow> s)))"

definition have_upap_secret :: "auth_config \<Rightarrow> bool" where
  "have_upap_secret cfg =
     (case au_files cfg PATH_UPAPFILE of
        None \<Rightarrow> False
      | Some f \<Rightarrow> 0 \<le> fst (scan_authfile (au_files cfg) None (Some (au_our_name cfg)) f))"

definition have_chap_secret :: "auth_config \<Rightarrow> u8 list \<Rightarrow> u8 list \<Rightarrow> bool" where
  "have_chap_secret cfg client server =
     (case au_files cfg PATH_CHAPFILE of
        None \<Rightarrow> False
      | Some f \<Rightarrow>
          0 \<le> fst (scan_authfile (au_files cfg) (if client = [] then None else Some client)
                    (if client \<noteq> [] \<and> server = [] then None else Some server) f))"

section \<open>Who is accepted\<close>

lemma flag_nonneg_found:
  assumes "best_entry c s es = (flag, found, addrs)" "0 \<le> flag"
  obtains e where "e \<in> set es" "name_fits c (ae_client e)" "name_fits s (ae_server e)"
    "flag = entry_flag e" "found = Some (ae_secret e)" "addrs = ae_addrs e"
  using best_entry_flag [OF assms(1) [unfolded best_entry_def]] assms(2) by auto

text \<open>With a secrets file of ordinary lines and without \<open>login\<close>, a password is accepted by an entry.\<close>

lemma pap_accepts:
  assumes "list_all plain_entry es" "au_files cfg PATH_UPAPFILE = Some (auth_text es)"
    and "fst (pap_verdict cfg user passwd) = UPAP_AUTHACK"
  shows "\<exists>e \<in> set es. name_fits (Some user) (ae_client e) \<and> name_fits (Some (au_our_name cfg)) (ae_server e)
    \<and> (ae_secret e = passwd \<and> \<not> au_cryptpap cfg \<or> au_crypt cfg passwd (ae_secret e) = ae_secret e)
    \<and> fst (snd (pap_verdict cfg user passwd)) = ae_addrs e"
proof -
  obtain flag found addrs where b: "best_entry (Some user) (Some (au_our_name cfg)) es = (flag, found, addrs)"
    by (metis prod_cases3)
  have s: "scan_authfile (au_files cfg) (Some user) (Some (au_our_name cfg)) (auth_text es) = (flag, found, addrs)"
    using scan_authfile_finds [OF assms(1)] b by simp
  have ack: "fst (pap_secret cfg user passwd) = UPAP_AUTHACK"
    and addrs: "fst (snd (pap_verdict cfg user passwd)) = snd (pap_secret cfg user passwd)"
    using assms(3) by (auto simp: pap_verdict_def Let_def case_prod_beta upap_code_defs split: if_splits)
  have p: "pap_secret cfg user passwd =
     (if flag < 0 \<or> (case found of None \<Rightarrow> [] | Some s \<Rightarrow> s) \<noteq> []
        \<and> (au_cryptpap cfg \<or> passwd \<noteq> (case found of None \<Rightarrow> [] | Some s \<Rightarrow> s))
        \<and> au_crypt cfg passwd (case found of None \<Rightarrow> [] | Some s \<Rightarrow> s) \<noteq> (case found of None \<Rightarrow> [] | Some s \<Rightarrow> s)
      then (UPAP_AUTHNAK, addrs) else (UPAP_AUTHACK, addrs))"
    by (simp add: pap_secret_def assms(2) s Let_def)
  have flag: "0 \<le> flag" using ack p by (simp add: upap_code_defs split: if_splits)
  obtain e where e: "e \<in> set es" "name_fits (Some user) (ae_client e)" "name_fits (Some (au_our_name cfg)) (ae_server e)"
    "found = Some (ae_secret e)" "addrs = ae_addrs e"
    using flag_nonneg_found [OF b flag] by metis
  have "ae_secret e \<noteq> []"
    using assms(1) e(1) by (auto simp: list_all_iff plain_entry_def plain_word_def)
  then have "ae_secret e = passwd \<and> \<not> au_cryptpap cfg \<or> au_crypt cfg passwd (ae_secret e) = ae_secret e"
    using ack p e(4) flag by (auto simp: upap_code_defs split: if_splits)
  then show ?thesis
    using e addrs p by (intro bexI [of _ e] conjI) (auto split: if_splits)
qed

end
