(* ===== verification/Link.thy ===== *)
theory Link
  imports Ipcp Fsm_World Lcp_Replies Lcp_Requests Chap_Safety Auth_Check
begin

text \<open>
  The link phases of auth.c, as far as they do not come back to LCP: \<open>link_terminated\<close>, \<open>link_down\<close>,
  \<open>network_phase\<close>, \<open>callback_phase\<close>, \<open>auth_script\<close>.

  \<open>link_struct\<close> is the C struct of ipppd.h; the array \<open>lns\<close> and the option tables of lcp.c are functions of
  the index, and a pointer into \<open>lns\<close> is an index. \<open>'n lcp_world\<close> is what LCP's callbacks and auth.c
  reach: these tables, the PAP and CHAP state of the link, the timers of lcp.c, and the state \<open>'n\<close> of the
  network protocols, which auth.c calls through their \<open>struct protent\<close> only (\<open>'n protent\<close>).
  Calls of the driver and of scripts are recorded in \<open>lw_calls\<close>; \<open>lw_ub\<close> marks an index outside an array,
  \<open>lw_aborted\<close> a failed \<open>assert\<close>.
\<close>

section \<open>State\<close>

datatype link_phase =
  PHASE_WAIT | PHASE_DEAD | PHASE_ESTABLISH | PHASE_AUTHENTICATE | PHASE_CALLBACK | PHASE_NETWORK | PHASE_TERMINATE

definition UPAP_WITHPEER :: u8 where "UPAP_WITHPEER = 1"
definition UPAP_PEER :: u8 where "UPAP_PEER = 2"
definition CHAP_WITHPEER :: u8 where "CHAP_WITHPEER = 4"
definition CHAP_PEER :: u8 where "CHAP_PEER = 8"

lemmas pending_bits = UPAP_WITHPEER_def UPAP_PEER_def CHAP_WITHPEER_def CHAP_PEER_def

record link_struct =
  ls_bundle_next :: int
  ls_logged_in :: bool
  ls_auth_pending :: u8
  ls_addresses :: "u8 list list option"
  ls_master :: int
  ls_lcp_unit :: int
  ls_ipcp_unit :: int
  ls_ccp_unit :: int
  ls_ccp_l_unit :: int
  ls_cbcp_unit :: int
  ls_ipxcp_unit :: int
  ls_phase :: link_phase
  ls_auth_up_script :: bool
  ls_ifunit :: int
  ls_ifname :: "u8 list"
  ls_devnam :: "u8 list"
  ls_peer_authname :: "u8 list"
  ls_incoming :: bool
  ls_remote_num :: "u8 list"
  ls_attempts :: int

datatype lcp_call =
    Ppp_set_xaccm int
  | Ppp_send_config int u16 u32 bool bool
  | Ppp_recv_config int u16 u32 bool bool
  | Enable_mp int
  | Sifbundle int int
  | Run_script int "u8 list list"
  | Logwtmp int

text \<open>The global variables of the configuration that lcp.c and auth.c read.\<close>

record link_config =
  lc_auth :: auth_config
  lc_chap :: chap_env
  lc_echo_interval :: int
  lc_echo_fails :: u32
  lc_loopbackfail :: int
  lc_idle_limit :: int
  lc_numdev :: nat
  lc_useifip :: bool
  lc_usefirstip :: bool
  lc_resolver :: resolver
  lc_user_name :: "u8 list"
  lc_userip :: "u8 list \<Rightarrow> u32 option"

record 'n lcp_world =
  lw_cfg :: link_config
  lw_lns :: "int \<Rightarrow> link_struct"
  lw_want :: "int \<Rightarrow> lcp_options"
  lw_got :: "int \<Rightarrow> lcp_options"
  lw_allow :: "int \<Rightarrow> lcp_options"
  lw_his :: "int \<Rightarrow> lcp_options"
  lw_xmit_accm :: "int \<Rightarrow> u32"
  lw_upap :: "unit upap_sys"
  lw_chap :: "unit chap_sys"
  lw_other_upap :: "int \<Rightarrow> upap_state"
  lw_magic :: "nat \<Rightarrow> u32"
  lw_drawn :: nat
  lw_idle :: "nat \<Rightarrow> int option"
  lw_asked :: nat
  lw_echos_pending :: u32
  lw_echo_number :: u32
  lw_echo_running :: bool
  lw_echo_timers :: nat
  lw_idle_running :: bool
  lw_idle_timers :: nat
  lw_aborted :: bool
  lw_net :: 'n
  lw_calls :: "lcp_call list"
  lw_ub :: bool

text \<open>
  The entries of \<open>struct protent\<close> that auth.c and main.c use, and the unit table of the protocol. The
  callback protocol can end the link from its \<open>input\<close> (\<open>cbcp_up\<close>): \<open>net_cbcp_input\<close> returns whether it does.
\<close>

record 'n protent =
  pe_enabled :: bool
  pe_getunit :: "int \<Rightarrow> 'n \<Rightarrow> int \<times> 'n"
  pe_freeunit :: "int \<Rightarrow> 'n \<Rightarrow> 'n"
  pe_setunit :: "int \<Rightarrow> int \<Rightarrow> 'n \<Rightarrow> 'n"
  pe_lowerup :: "int \<Rightarrow> 'n \<Rightarrow> 'n"
  pe_lowerdown :: "int \<Rightarrow> 'n \<Rightarrow> 'n"
  pe_open :: "int \<Rightarrow> 'n \<Rightarrow> 'n"
  pe_close :: "int \<Rightarrow> string \<Rightarrow> 'n \<Rightarrow> 'n"
  pe_protrej :: "int \<Rightarrow> int \<Rightarrow> 'n \<Rightarrow> 'n"
  pe_input :: "int \<Rightarrow> int \<Rightarrow> u8 list \<Rightarrow> int \<Rightarrow> 'n \<Rightarrow> 'n"
  pe_datainput :: "(int \<Rightarrow> u8 list \<Rightarrow> int \<Rightarrow> 'n \<Rightarrow> 'n) option"

record 'n protents =
  net_ipcp :: "'n protent"
  net_ipxcp :: "'n protent"
  net_ccp :: "'n protent"
  net_ccp_link :: "'n protent"
  net_cbcp :: "'n protent"
  net_cbcp_input :: "int \<Rightarrow> u8 list \<Rightarrow> int \<Rightarrow> 'n \<Rightarrow> bool \<times> 'n"
  net_setifip :: "int \<Rightarrow> 'n \<Rightarrow> 'n"
  net_set_hisaddr :: "int \<Rightarrow> u32 \<Rightarrow> 'n \<Rightarrow> 'n"

section \<open>Small updates\<close>

definition set_link :: "int \<Rightarrow> (link_struct \<Rightarrow> link_struct) \<Rightarrow> 'n lcp_world \<Rightarrow> 'n lcp_world" where
  "set_link i g w = w\<lparr>lw_lns := (lw_lns w)(i := g (lw_lns w i))\<rparr>"

definition set_phase :: "int \<Rightarrow> link_phase \<Rightarrow> 'n lcp_world \<Rightarrow> 'n lcp_world" where
  "set_phase i ph w = set_link i (\<lambda>l. l\<lparr>ls_phase := ph\<rparr>) w"

definition lcp_do :: "lcp_call \<Rightarrow> 'n lcp_world \<Rightarrow> 'n lcp_world" where
  "lcp_do c w = w\<lparr>lw_calls := lw_calls w @ [c]\<rparr>"

definition net_do :: "('n \<Rightarrow> 'n) \<Rightarrow> 'n lcp_world \<Rightarrow> 'n lcp_world" where
  "net_do g w = w\<lparr>lw_net := g (lw_net w)\<rparr>"

section \<open>Scripts\<close>

text \<open>\<open>error_reason\<close> is left out of the arguments when it is 0.\<close>

definition auth_script :: "int \<Rightarrow> string \<Rightarrow> nat \<Rightarrow> 'n lcp_world \<Rightarrow> 'n lcp_world" where
  "auth_script linkunit script error_reason w =
     (let l = lw_lns w linkunit
      in lcp_do (Run_script linkunit
           ([map of_char script, ls_ifname l, ls_peer_authname l, lc_user_name (lw_cfg w), ls_devnam l,
             map of_char ''64000'', ls_remote_num l]
            @ (if error_reason \<noteq> 0 then [map of_char (decimal error_reason)] else []))) w)"

section \<open>The link goes down\<close>

definition link_terminated :: "int \<Rightarrow> 'n lcp_world \<Rightarrow> 'n lcp_world" where
  "link_terminated linkunit w =
     (let w = (if ls_auth_up_script (lw_lns w linkunit) then auth_script linkunit ''/etc/ppp/auth-down'' 0 w else w)
      in if ls_phase (lw_lns w linkunit) = PHASE_DEAD then w
         else
           let w = (if ls_logged_in (lw_lns w linkunit)
                    then set_link linkunit (\<lambda>l. l\<lparr>ls_logged_in := False\<rparr>) (lcp_do (Logwtmp linkunit) w) else w)
           in set_phase linkunit PHASE_DEAD w)"

definition link_lastlink :: "int \<Rightarrow> 'n lcp_world \<Rightarrow> bool" where
  "link_lastlink unit w \<longleftrightarrow> ls_bundle_next (lw_lns w unit) = unit"

text \<open>One protocol is taken down; \<open>frees\<close> tells whether its unit is given back.\<close>

definition proto_down :: "'n protent \<Rightarrow> bool \<Rightarrow> int \<Rightarrow> 'n \<Rightarrow> 'n" where
  "proto_down pe frees u n =
     (let n = pe_close pe u ''link went down'' (pe_lowerdown pe u n) in if frees then pe_freeunit pe u n else n)"

text \<open>The neighbour of \<open>unit\<close> in the ring of its bundle, looked for over at most \<open>i\<close> links from \<open>q\<close>.\<close>

fun bundle_prev :: "nat \<Rightarrow> int \<Rightarrow> int \<Rightarrow> 'n lcp_world \<Rightarrow> int option" where
  "bundle_prev 0 unit q w = None"
| "bundle_prev (Suc i) unit q w =
     (if q = unit then None
      else if ls_bundle_next (lw_lns w q) = unit then Some q
      else bundle_prev i unit (ls_bundle_next (lw_lns w q)) w)"

definition link_unbundle :: "'n protents \<Rightarrow> int \<Rightarrow> 'n lcp_world \<Rightarrow> 'n lcp_world" where
  "link_unbundle N unit w =
     (case bundle_prev 1024 unit (ls_bundle_next (lw_lns w unit)) w of
        None \<Rightarrow> w
      | Some q \<Rightarrow>
          let l = lw_lns w unit;
              w = w\<lparr>lw_ub := lw_ub w \<or> ls_ipcp_unit l < 0 \<or> ls_ccp_unit l < 0 \<or> ls_ipxcp_unit l < 0\<rparr>;
              w = net_do (pe_setunit (net_ipcp N) (ls_ipcp_unit l) q) w;
              w = net_do (pe_setunit (net_ccp N) (ls_ccp_unit l) q) w;
              w = net_do (pe_setunit (net_ipxcp N) (ls_ipxcp_unit l) q) w;
              w = set_link q (\<lambda>k. k\<lparr>ls_bundle_next := ls_bundle_next l\<rparr>) w
          in set_link unit (\<lambda>k. k\<lparr>ls_bundle_next := unit\<rparr>) w)"

definition link_last_down :: "'n protents \<Rightarrow> int \<Rightarrow> 'n lcp_world \<Rightarrow> 'n lcp_world" where
  "link_last_down N unit w =
     (let u = ls_ccp_unit (lw_lns w unit);
          w = (if u \<ge> 0 then set_link unit (\<lambda>l. l\<lparr>ls_ccp_unit := -1\<rparr>) (net_do (proto_down (net_ccp N) True u) w) else w);
          u = ls_ipcp_unit (lw_lns w unit);
          w = (if u \<ge> 0 then set_link unit (\<lambda>l. l\<lparr>ls_ipcp_unit := -1\<rparr>) (net_do (proto_down (net_ipcp N) True u) w) else w);
          u = ls_cbcp_unit (lw_lns w unit);
          w = (if u \<ge> 0 then set_link unit (\<lambda>l. l\<lparr>ls_cbcp_unit := -1\<rparr>) (net_do (proto_down (net_cbcp N) False u) w) else w);
          u = ls_ipxcp_unit (lw_lns w unit)
      in if u \<ge> 0 then set_link unit (\<lambda>l. l\<lparr>ls_ipxcp_unit := -1\<rparr>) (net_do (proto_down (net_ipxcp N) True u) w) else w)"

definition link_down :: "'n protents \<Rightarrow> int \<Rightarrow> 'n lcp_world \<Rightarrow> 'n lcp_world" where
  "link_down N unit w =
     (let u = ls_ccp_l_unit (lw_lns w unit);
          w = (if u \<ge> 0 then set_link unit (\<lambda>l. l\<lparr>ls_ccp_l_unit := -1\<rparr>) (net_do (proto_down (net_ccp_link N) True u) w) else w);
          w = (if link_lastlink unit w then link_last_down N unit w else link_unbundle N unit w)
      in set_phase unit PHASE_TERMINATE w)"

section \<open>The network phase\<close>

text \<open>\<open>strncmp(a, b, l) == 0\<close> on C strings.\<close>

definition strncmp_eq :: "u8 list \<Rightarrow> u8 list \<Rightarrow> int \<Rightarrow> bool" where
  "strncmp_eq a b l \<longleftrightarrow> take (nat l) (cstr a) = take (nat l) (cstr b)"

text \<open>The switch over the discriminators: whether link \<open>i\<close> belongs to the same peer as \<open>linkunit\<close>.\<close>

definition same_peer :: "int \<Rightarrow> int \<Rightarrow> 'n lcp_world \<Rightarrow> bool" where
  "same_peer linkunit i w =
     (let lcp_unit = ls_lcp_unit (lw_lns w linkunit); go = lw_got w lcp_unit; ho = lw_his w lcp_unit; hi = lw_his w i;
          discr = (if l_neg_mpdiscr hi then 1 else 0) + (if l_neg_mpdiscr ho then 1 else (0 :: nat))
      in if discr = 1 then False
         else if discr = 2 \<and> (l_mp_alen ho \<noteq> l_mp_alen hi \<or> l_mp_class ho \<noteq> l_mp_class hi
                \<or> take (unat (l_mp_alen ho)) (l_mp_addr ho) \<noteq> take (unat (l_mp_alen ho)) (l_mp_addr hi)) then False
         else l_neg_chap go \<or> \<not> l_neg_upap go
              \<or> us_ruserlen (lw_upap w) \<noteq> us_ruserlen (lw_other_upap w i)
              \<or> strncmp_eq (us_ruser (lw_upap w)) (us_ruser (lw_other_upap w i)) (us_ruserlen (lw_upap w)))"

definition join_bundle :: "int \<Rightarrow> int \<Rightarrow> 'n lcp_world \<Rightarrow> 'n lcp_world" where
  "join_bundle linkunit i w =
     (let li = lw_lns w i;
          w = set_link linkunit (\<lambda>l. l\<lparr>ls_bundle_next := ls_bundle_next li\<rparr>) w;
          w = set_link i (\<lambda>l. l\<lparr>ls_bundle_next := linkunit\<rparr>) w;
          w = set_link linkunit (\<lambda>l. l\<lparr>ls_ifunit := ls_ifunit li, ls_master := i, ls_ipcp_unit := ls_ipcp_unit li,
                ls_ccp_unit := ls_ccp_unit li, ls_ipxcp_unit := ls_ipxcp_unit li, ls_phase := PHASE_NETWORK\<rparr>) w
      in lcp_do (Sifbundle linkunit i) w)"

text \<open>The loop over the devices; the flag is \<open>higher_up\<close>.\<close>

fun bundle_loop :: "nat \<Rightarrow> nat \<Rightarrow> int \<Rightarrow> 'n lcp_world \<Rightarrow> bool \<times> 'n lcp_world" where
  "bundle_loop 0 i linkunit w = (True, w)"
| "bundle_loop (Suc n) i linkunit w =
     (if int i \<noteq> linkunit \<and> ls_phase (lw_lns w (int i)) = PHASE_NETWORK
        \<and> l_neg_mp (lw_got w (int i)) \<and> l_neg_mp (lw_his w (int i)) \<and> same_peer linkunit (int i) w
      then (False, join_bundle linkunit (int i) w)
      else bundle_loop n (Suc i) linkunit w)"

text \<open>A protocol gets a unit, is told that the layer below is up, and opened.\<close>

definition proto_up :: "'n protent \<Rightarrow> int \<Rightarrow> 'n \<Rightarrow> 'n" where
  "proto_up pe u n = pe_open pe u (pe_lowerup pe u n)"

definition link_ipcp_up :: "'n protents \<Rightarrow> int \<Rightarrow> 'n lcp_world \<Rightarrow> 'n lcp_world" where
  "link_ipcp_up N linkunit w =
     (if \<not> pe_enabled (net_ipcp N) then w
      else
        let (u, n) = pe_getunit (net_ipcp N) linkunit (lw_net w);
            w = set_link linkunit (\<lambda>l. l\<lparr>ls_ipcp_unit := u\<rparr>) (w\<lparr>lw_net := n\<rparr>)
        in if u < 0 then w
           else
             let w = (if lc_useifip (lw_cfg w) then net_do (net_setifip N u) w else w);
                 w = (case ls_addresses (lw_lns w linkunit) of
                        Some (word # _) \<Rightarrow>
                          if lc_usefirstip (lw_cfg w)
                          then case host_by_name (lc_resolver (lw_cfg w)) (map (\<lambda>c. char_of (unat c)) word) of
                                 Some a \<Rightarrow> net_do (net_set_hisaddr N u a) w
                               | None \<Rightarrow> w
                          else w
                      | _ \<Rightarrow> w)
             in net_do (proto_up (net_ipcp N) u) w)"

definition link_other_up :: "'n protent \<Rightarrow> (int \<Rightarrow> link_struct \<Rightarrow> link_struct) \<Rightarrow> int \<Rightarrow> 'n lcp_world \<Rightarrow> 'n lcp_world" where
  "link_other_up pe store linkunit w =
     (if \<not> pe_enabled pe then w
      else let (u, n) = pe_getunit pe linkunit (lw_net w)
           in net_do (proto_up pe u) (set_link linkunit (store u) (w\<lparr>lw_net := n\<rparr>)))"

definition mp_flags :: "lcp_options \<Rightarrow> lcp_options" where
  "mp_flags o' = (if l_neg_mpmrru o' \<or> l_neg_mpshortseq o' then o'\<lparr>l_neg_mp := True\<rparr> else o')"

definition network_phase :: "'n protents \<Rightarrow> int \<Rightarrow> 'n lcp_world \<Rightarrow> 'n lcp_world" where
  "network_phase N linkunit w =
     (let lcp_unit = ls_lcp_unit (lw_lns w linkunit);
          w = w\<lparr>lw_got := (lw_got w)(lcp_unit := mp_flags (lw_got w lcp_unit)),
                lw_his := (lw_his w)(lcp_unit := mp_flags (lw_his w lcp_unit))\<rparr>;
          mp = (l_neg_mp (lw_got w lcp_unit) \<and> l_neg_mp (lw_his w lcp_unit));
          (higher_up, w) = (if mp then bundle_loop (lc_numdev (lw_cfg w)) 0 linkunit w else (True, w));
          w = (if higher_up
               then let w = (if mp then lcp_do (Enable_mp linkunit) w else w);
                        w = link_ipcp_up N linkunit w;
                        w = link_other_up (net_ipxcp N) (\<lambda>u l. l\<lparr>ls_ipxcp_unit := u\<rparr>) linkunit w;
                        w = link_other_up (net_ccp_link N) (\<lambda>u l. l\<lparr>ls_ccp_unit := u\<rparr>) linkunit w;
                        w = link_other_up (net_ccp N) (\<lambda>u l. l\<lparr>ls_ccp_unit := u\<rparr>) linkunit w
                    in set_phase linkunit PHASE_NETWORK w
               else w)
      in link_other_up (net_ccp_link N) (\<lambda>u l. l\<lparr>ls_ccp_l_unit := u\<rparr>) linkunit w)"

definition callback_phase :: "'n protents \<Rightarrow> int \<Rightarrow> 'n lcp_world \<Rightarrow> 'n lcp_world" where
  "callback_phase N linkunit w =
     (let go = lw_got w (ls_lcp_unit (lw_lns w linkunit))
      in if l_neg_callback go \<and> \<not> ls_incoming (lw_lns w linkunit)
         then if cb_type (l_cbopt go) = CB_CBCP
              then net_do (\<lambda>n. proto_up (net_cbcp N) linkunit (pe_setunit (net_cbcp N) linkunit linkunit n))
                     (set_link linkunit (\<lambda>l. l\<lparr>ls_phase := PHASE_CALLBACK, ls_cbcp_unit := linkunit\<rparr>) w)
              else set_phase linkunit PHASE_TERMINATE w
         else network_phase N linkunit w)"

section \<open>Authentication succeeds\<close>

text \<open>The common tail of \<open>auth_peer_success\<close> and \<open>auth_withpeer_success\<close>.\<close>

definition auth_done :: "'n protents \<Rightarrow> int \<Rightarrow> u8 \<Rightarrow> 'n lcp_world \<Rightarrow> 'n lcp_world" where
  "auth_done N linkunit b w =
     (let w = set_link linkunit (\<lambda>l. l\<lparr>ls_auth_pending := ls_auth_pending l AND NOT b\<rparr>) w
      in if ls_auth_pending (lw_lns w linkunit) = 0 \<and> ls_phase (lw_lns w linkunit) = PHASE_AUTHENTICATE
         then callback_phase N linkunit w else w)"

definition link_peer_success :: "'n protents \<Rightarrow> int \<Rightarrow> u16 \<Rightarrow> 'n lcp_world \<Rightarrow> 'n lcp_world" where
  "link_peer_success N linkunit protocol w =
     (if protocol = PPP_CHAP then auth_done N linkunit CHAP_PEER w
      else if protocol = PPP_PAP then auth_done N linkunit UPAP_PEER w
      else w)"

definition link_withpeer_success :: "'n protents \<Rightarrow> int \<Rightarrow> u16 \<Rightarrow> 'n lcp_world \<Rightarrow> 'n lcp_world" where
  "link_withpeer_success N linkunit protocol w =
     auth_done N linkunit
       (if protocol = PPP_CHAP then CHAP_WITHPEER else if protocol = PPP_PAP then UPAP_WITHPEER else 0) w"

end
