(* ===== verification/Lcp_Close.thy ===== *)
theory Lcp_Close
  imports Link
begin

text \<open>
  The half of the LCP machine (lcp.c) that takes the link down, and the echo requests that can make it
  do so: \<open>lcp_down\<close>, \<open>lcp_finished\<close>, \<open>lcp_close\<close>, \<open>LcpEchoCheck\<close>, \<open>RestartIdleTimer\<close>.

  An \<open>'n lcp_sys\<close> is one entry of \<open>lcp_fsm\<close> with the world of \<open>Link\<close>; \<open>f_unit\<close> is its link. The C code
  passes the unit \<open>lns[f->unit].lcp_unit\<close> where the model has the state itself. What the other end of
  the ioctl \<open>PPPIOCGIDLE\<close> answers the \<open>n\<close>-th time is \<open>lw_idle n\<close>, \<open>None\<close> for an error.
\<close>

type_synonym 'n lcp_sys = "'n lcp_world sys"

definition on_world :: "('w \<Rightarrow> 'w) \<Rightarrow> 'w sys \<Rightarrow> 'w sys" where
  "on_world g s = s\<lparr>world := g (world s)\<rparr>"

definition lcp_unit :: "'n lcp_sys \<Rightarrow> int" where
  "lcp_unit s = ls_lcp_unit (lw_lns (world s) (f_unit s))"

definition PPP_MRU16 :: u16 where "PPP_MRU16 = 1500"

section \<open>Going down\<close>

definition lcp_echo_lowerdown :: "'n lcp_world \<Rightarrow> 'n lcp_world" where
  "lcp_echo_lowerdown w =
     (let w = (if lw_echo_running w then w\<lparr>lw_echo_timers := lw_echo_timers w - 1, lw_echo_running := False\<rparr> else w)
      in if lw_idle_running w then w\<lparr>lw_idle_timers := lw_idle_timers w - 1, lw_idle_running := False\<rparr> else w)"

definition lcp_down :: "'n protents \<Rightarrow> 'n lcp_sys \<Rightarrow> 'n lcp_sys" where
  "lcp_down N s =
     (let u = f_unit s;
          w = link_down N u (world s);
          w = lcp_echo_lowerdown w;
          w = w\<lparr>lw_chap := ChapLowerDown (lw_chap w)\<rparr>;
          w = w\<lparr>lw_upap := upap_lowerdown (lw_upap w)\<rparr>;
          w = lcp_do (Ppp_send_config u PPP_MRU16 0xffffffff False False) w;
          w = lcp_do (Ppp_recv_config u PPP_MRU16 0 False False) w
      in s\<lparr>world := w, peer_mru := PPP_MRU\<rparr>)"

text \<open>\<open>link_required\<close> is empty.\<close>

definition lcp_starting :: "'n lcp_sys \<Rightarrow> 'n lcp_sys" where
  "lcp_starting s = s"

definition lcp_finished :: "'n lcp_sys \<Rightarrow> 'n lcp_sys" where
  "lcp_finished s = on_world (link_terminated (f_unit s)) s"

text \<open>
  The callbacks that \<open>fsm_close\<close>, \<open>fsm_lowerdown\<close> and \<open>fsm_protreject\<close> use; the functions here are themselves
  called from the other callbacks.
\<close>

definition lcp_base :: "'n protents \<Rightarrow> 'n lcp_world fsm_callbacks" where
  "lcp_base N =
     \<lparr>resetci = None, cilen = None, addci = None, ackci = None, nakci = None, rejci = None,
      reqci = None, up = None, down = Some (lcp_down N), starting = Some lcp_starting,
      finished = Some lcp_finished, retransmit = None, extcode = None\<rparr>"

definition lcp_close :: "'n protents \<Rightarrow> string \<Rightarrow> 'n lcp_sys \<Rightarrow> 'n lcp_sys" where
  "lcp_close N reason s =
     (if lcp_unit s < 0 then s
      else if f_state s = STOPPED \<and> f_flags s AND (OPT_PASSIVE OR OPT_SILENT) \<noteq> 0
      then lcp_finished (s\<lparr>f_state := CLOSED\<rparr>)
      else fsm_close (lcp_base N) (Some (map of_char reason)) s)"

section \<open>Echo requests and the idle timer\<close>

definition PROTREJ :: u8 where "PROTREJ = 8"
definition ECHOREQ :: u8 where "ECHOREQ = 9"
definition ECHOREP :: u8 where "ECHOREP = 10"
definition DISCREQ :: u8 where "DISCREQ = 11"

definition LcpLinkFailure :: "'n protents \<Rightarrow> 'n lcp_sys \<Rightarrow> 'n lcp_sys" where
  "LcpLinkFailure N s =
     (if f_state s = OPENED then lcp_close N ''Excessive lack of response to LCP echo frames.'' s else s)"

definition LcpSendEchoRequest :: "'n protents \<Rightarrow> 'n lcp_sys \<Rightarrow> 'n lcp_sys" where
  "LcpSendEchoRequest N s =
     (let fails = lc_echo_fails (lw_cfg (world s));
          pending = lw_echos_pending (world s);
          s = (if fails \<noteq> 0
               then let s = on_world (\<lambda>w. w\<lparr>lw_echos_pending := pending + 1\<rparr>) s
                    in if pending \<ge> fails
                       then on_world (\<lambda>w. w\<lparr>lw_echos_pending := 0\<rparr>) (LcpLinkFailure N s) else s
               else s)
      in if f_state s = OPENED
         then let go = lw_got (world s) (lcp_unit s);
                  lcp_magic = (if l_neg_magicnumber go then l_magicnumber go else 0);
                  number = lw_echo_number (world s);
                  s = on_world (\<lambda>w. w\<lparr>lw_echo_number := number + 1\<rparr>) s
              in fsm_sdata ECHOREQ (ucast (number AND 0xFF)) (putlong lcp_magic) 4 s
         else s)"

text \<open>Arming a timer whose flag says that it runs is a failed \<open>assert\<close>.\<close>

definition arm_echo :: "'n lcp_world \<Rightarrow> 'n lcp_world" where
  "arm_echo w =
     (if lw_echo_running w then w\<lparr>lw_aborted := True\<rparr>
      else w\<lparr>lw_echo_timers := Suc (lw_echo_timers w), lw_echo_running := True\<rparr>)"

definition arm_idle :: "'n lcp_world \<Rightarrow> 'n lcp_world" where
  "arm_idle w =
     (if lw_idle_running w then w\<lparr>lw_aborted := True\<rparr>
      else w\<lparr>lw_idle_timers := Suc (lw_idle_timers w), lw_idle_running := True\<rparr>)"

text \<open>The ioctl.\<close>

definition ask_idle :: "'n lcp_sys \<Rightarrow> int option \<times> 'n lcp_sys" where
  "ask_idle s = (let w = world s in (lw_idle w (lw_asked w), s\<lparr>world := w\<lparr>lw_asked := Suc (lw_asked w)\<rparr>\<rparr>))"

definition LcpEchoCheck :: "'n protents \<Rightarrow> 'n lcp_sys \<Rightarrow> 'n lcp_sys" where
  "LcpEchoCheck N s =
     (let (recv_idle, s) = ask_idle s
      in case recv_idle of
           None \<Rightarrow> s
         | Some idle \<Rightarrow>
             let delta = lc_echo_interval (lw_cfg (world s)) - idle;
                 s = (if delta < 0 then LcpSendEchoRequest N s else s)
             in on_world arm_echo s)"

definition RestartIdleTimer :: "'n protents \<Rightarrow> 'n lcp_sys \<Rightarrow> 'n lcp_sys" where
  "RestartIdleTimer N s =
     (let (recv_idle, s) = ask_idle s
      in case recv_idle of
           None \<Rightarrow> s
         | Some idle \<Rightarrow>
             if lc_idle_limit (lw_cfg (world s)) - idle \<le> 0 \<and> f_state s = OPENED
             then on_world (set_phase (f_unit s) PHASE_TERMINATE)
                    (lcp_close N ''No IP frames received within idle time limit'' s)
             else on_world arm_idle s)"

definition LcpEchoTimeout :: "'n protents \<Rightarrow> 'n lcp_sys \<Rightarrow> 'n lcp_sys" where
  "LcpEchoTimeout N s =
     (if lw_echo_running (world s) then LcpEchoCheck N (on_world (\<lambda>w. w\<lparr>lw_echo_running := False\<rparr>) s) else s)"

definition IdleTimeCheck :: "'n protents \<Rightarrow> 'n lcp_sys \<Rightarrow> 'n lcp_sys" where
  "IdleTimeCheck N s =
     (if lw_idle_running (world s) then RestartIdleTimer N (on_world (\<lambda>w. w\<lparr>lw_idle_running := False\<rparr>) s) else s)"

definition lcp_echo_lowerup :: "'n protents \<Rightarrow> 'n lcp_sys \<Rightarrow> 'n lcp_sys" where
  "lcp_echo_lowerup N s =
     (let s = on_world (\<lambda>w. w\<lparr>lw_echos_pending := 0, lw_echo_number := 0, lw_echo_running := False\<rparr>) s;
          s = (if lc_echo_interval (lw_cfg (world s)) \<noteq> 0 then LcpEchoCheck N s else s)
      in if lc_idle_limit (lw_cfg (world s)) \<noteq> 0 then RestartIdleTimer N s else s)"

definition lcp_received_echo_reply :: "u8 list \<Rightarrow> int \<Rightarrow> 'n lcp_sys \<Rightarrow> 'n lcp_sys" where
  "lcp_received_echo_reply inp len s =
     (if len < 4 then s
      else case getlong inp of
             Ok (magic, _) \<Rightarrow>
               let go = lw_got (world s) (lcp_unit s)
               in if l_neg_magicnumber go \<and> magic = l_magicnumber go then s
                  else on_world (\<lambda>w. w\<lparr>lw_echos_pending := 0\<rparr>) s
           | _ \<Rightarrow> s\<lparr>ub := True\<rparr>)"

section \<open>What closing leaves alone\<close>

lemma on_world_simps [simp]:
  "f_state (on_world g s) = f_state s" "timers (on_world g s) = timers s" "f_unit (on_world g s) = f_unit s"
  "f_flags (on_world g s) = f_flags s" "sent (on_world g s) = sent s" "world (on_world g s) = g (world s)"
  by (simp_all add: on_world_def)

lemma on_world_quiet: "quiet (\<lambda>s. on_world (g s) s)"
  by (simp add: quiet_def on_world_def fsm.defs)

lemma lcp_down_quiet: "quiet (lcp_down N)"
  by (simp add: quiet_def lcp_down_def Let_def fsm.defs)

lemma lcp_finished_quiet: "quiet lcp_finished"
  using on_world_quiet [of "\<lambda>s. link_terminated (f_unit s)"] by (simp add: quiet_def lcp_finished_def)

lemma lcp_starting_quiet: "quiet lcp_starting"
  by (simp add: quiet_def lcp_starting_def)

interpretation lcpb: fsm_client "lcp_base N"
  by unfold_locales
    (auto simp: lcp_base_def intro: quiet_keeps lcp_down_quiet lcp_finished_quiet lcp_starting_quiet)

lemma keeps_comp: "keeps g \<Longrightarrow> keeps h \<Longrightarrow> keeps (\<lambda>s. g (h s))"
  by (simp add: keeps_def)

lemma keeps_if: "keeps g \<Longrightarrow> keeps h \<Longrightarrow> keeps (\<lambda>s. if P s then g s else h s)"
  by (simp add: keeps_def)

lemma keeps_id: "keeps (\<lambda>s. s)"
  by (simp add: keeps_def)

lemma on_world_keeps: "keeps (\<lambda>s. on_world (g s) s)"
  by (rule quiet_keeps [OF on_world_quiet])

lemma armed_world [simp]:
  "armed (on_world g s) = armed s" "one_timer (on_world g s) = one_timer s"
  "armed (s\<lparr>world := w\<rparr>) = armed s" "one_timer (s\<lparr>world := w\<rparr>) = one_timer s"
  by (simp_all add: armed_def one_timer_def)

lemma armed_sdata [simp]:
  "armed (fsm_sdata c i d n s) = armed s" "one_timer (fsm_sdata c i d n s) = one_timer s"
  by (simp_all add: armed_def one_timer_def)

lemma lcp_close_keeps:
  fixes N :: "'n protents"
  shows "keeps (lcp_close N r)"
proof (rule keepsI)
  note fin = quietD(3,13) [OF lcp_finished_quiet]
  note cl = keepsD [OF lcpb.close_keeps [of N "Some (map of_char r)"]]
  show "armed (lcp_close N r s)" if "f_state s = st" "st \<in> timed \<longrightarrow> 0 < timers s" for s :: "'n lcp_sys" and st
    using that cl(1) [of s] by (simp add: lcp_close_def armed_def [of s] armed_def [of "lcp_finished t" for t] fin)
  show "one_timer (lcp_close N r s)" if "f_state s = st" "timers s = (if st \<in> timed then 1 else 0)" for s :: "'n lcp_sys" and st
    using that cl(2) [of s] by (simp add: lcp_close_def one_timer_def [of s] one_timer_def [of "lcp_finished t" for t] fin)
qed

lemma LcpSendEchoRequest_keeps: "keeps (LcpSendEchoRequest N)"
proof -
  have f: "keeps (LcpLinkFailure N)"
    unfolding LcpLinkFailure_def by (intro keeps_if lcp_close_keeps keeps_id)
  show ?thesis
    unfolding keeps_def LcpSendEchoRequest_def Let_def by (simp add: keepsD [OF f])
qed

lemma LcpEchoCheck_keeps: "keeps (LcpEchoCheck N)"
  unfolding keeps_def LcpEchoCheck_def ask_idle_def Let_def
  by (simp add: keepsD [OF LcpSendEchoRequest_keeps] split: option.split)

lemma RestartIdleTimer_keeps: "keeps (RestartIdleTimer N)"
  unfolding keeps_def RestartIdleTimer_def ask_idle_def Let_def
  by (simp add: keepsD [OF lcp_close_keeps] split: option.split)

lemma lcp_echo_lowerup_keeps: "keeps (lcp_echo_lowerup N)"
  unfolding keeps_def lcp_echo_lowerup_def Let_def
  by (simp add: keepsD [OF LcpEchoCheck_keeps] keepsD [OF RestartIdleTimer_keeps])

end
