(* ===== verification/Auth_Hooks.thy ===== *)
theory Auth_Hooks
  imports Lcp_Close
begin

text \<open>
  The part of auth.c that comes back to LCP (\<open>link_established\<close>, \<open>auth_peer_fail\<close>, \<open>check_passwd\<close>, ...) and
  what upap.c and chap.c see of it: \<open>link_upap_hooks\<close> and \<open>link_chap_hooks\<close>. PAP and CHAP run on their own
  state with the LCP state as the rest of the program; \<open>upap_view\<close> and \<open>upap_store\<close> (\<open>chap_view\<close>, \<open>chap_store\<close>)
  move their state out of and back into the LCP world. Here the contracts \<open>upap_client\<close> and \<open>chap_client\<close>
  are discharged: whatever auth.c does, it leaves the protocol alone or takes it down.
\<close>

section \<open>PAP and CHAP inside the world of LCP\<close>

definition upap_with :: "'b \<Rightarrow> 'a upap_sys \<Rightarrow> 'b upap_sys" where
  "upap_with x u = upap_state.extend (upap_state.truncate u)
     (upap_sys.fields (u_retrans u) (u_reqtimers u) (u_sent u) (u_ub u) x)"

definition chap_with :: "'b \<Rightarrow> 'a chap_sys \<Rightarrow> 'b chap_sys" where
  "chap_with x c = chap_state.extend (chap_state.truncate c)
     (chap_sys.fields (ch_chal_timers c) (ch_resp_timers c) (ch_rechal_timers c) (ch_sent c) (ch_ub c) (ch_draws c) x)"

definition upap_view :: "'n lcp_sys \<Rightarrow> 'n lcp_sys upap_sys" where
  "upap_view s = upap_with s (lw_upap (world s))"

definition upap_store :: "'n lcp_sys upap_sys \<Rightarrow> 'n lcp_sys" where
  "upap_store u = on_world (\<lambda>w. w\<lparr>lw_upap := upap_with () u\<rparr>) (u_world u)"

definition chap_view :: "'n lcp_sys \<Rightarrow> 'n lcp_sys chap_sys" where
  "chap_view s = chap_with s (lw_chap (world s))"

definition chap_store :: "'n lcp_sys chap_sys \<Rightarrow> 'n lcp_sys" where
  "chap_store c = on_world (\<lambda>w. w\<lparr>lw_chap := chap_with () c\<rparr>) (ch_world c)"

lemma upap_with_simps [simp]:
  "us_unit (upap_with x u) = us_unit u" "us_ruser (upap_with x u) = us_ruser u" "us_ruserlen (upap_with x u) = us_ruserlen u"
  "us_clientstate (upap_with x u) = us_clientstate u" "us_serverstate (upap_with x u) = us_serverstate u"
  "us_reqtimeout (upap_with x u) = us_reqtimeout u"
  "u_retrans (upap_with x u) = u_retrans u" "u_reqtimers (upap_with x u) = u_reqtimers u"
  "u_sent (upap_with x u) = u_sent u" "u_ub (upap_with x u) = u_ub u" "u_world (upap_with x u) = x"
  by (simp_all add: upap_with_def upap_state.defs upap_sys.defs)

lemma chap_with_simps [simp]:
  "ch_unit (chap_with x c) = ch_unit c" "ch_serverstate (chap_with x c) = ch_serverstate c"
  "ch_clientstate (chap_with x c) = ch_clientstate c" "ch_chal_timers (chap_with x c) = ch_chal_timers c"
  "ch_resp_timers (chap_with x c) = ch_resp_timers c" "ch_sent (chap_with x c) = ch_sent c" "ch_world (chap_with x c) = x"
  "ch_chal_interval (chap_with x c) = ch_chal_interval c" "ch_rechal_timers (chap_with x c) = ch_rechal_timers c"
  by (simp_all add: chap_with_def chap_state.defs chap_sys.defs)

lemma upap_with_with [simp]: "upap_with y (upap_with x u) = upap_with y u"
  by (simp add: upap_with_def upap_state.defs upap_sys.defs)

lemma chap_with_with [simp]: "chap_with y (chap_with x c) = chap_with y c"
  by (simp add: chap_with_def chap_state.defs chap_sys.defs)

lemma upap_with_self: "upap_with (u_world u) u = u"
  by (cases u) (simp add: upap_with_def upap_state.defs upap_sys.defs)

lemma chap_with_self: "chap_with (ch_world c) c = c"
  by (cases c) (simp add: chap_with_def chap_state.defs chap_sys.defs)

lemma chap_with_world: "chap_with x c = (chap_with (ch_world c) c)\<lparr>ch_world := x\<rparr>"
  by (simp add: chap_with_def chap_state.defs chap_sys.defs)

section \<open>Authentication fails or is refused\<close>

text \<open>The reasons as \<open>auth_script\<close> gets them.\<close>

fun error_reason :: "auth_error \<Rightarrow> nat" where
  "error_reason AUTH_ERR_TIME = 1"
| "error_reason AUTH_ERR_PROT = 2"
| "error_reason AUTH_ERR_USER = 3"

definition AUTH_ERR_CHAP :: nat where "AUTH_ERR_CHAP = 8"

definition link_peer_fail :: "'n protents \<Rightarrow> int \<Rightarrow> nat \<Rightarrow> 'n lcp_sys \<Rightarrow> 'n lcp_sys" where
  "link_peer_fail N unit reason s =
     (let s = lcp_close N ''auth failure'' s
      in on_world (\<lambda>w. auth_script unit ''/etc/ppp/auth-fail'' reason (set_phase unit PHASE_TERMINATE w)) s)"

definition link_withpeer_fail :: "int \<Rightarrow> nat \<Rightarrow> 'n lcp_sys \<Rightarrow> 'n lcp_sys" where
  "link_withpeer_fail unit reason s = on_world (auth_script unit ''/etc/ppp/auth-fail'' reason) s"

definition null_addrs :: "u8 list list \<Rightarrow> u8 list list option" where
  "null_addrs addrs = (if addrs = [] then None else Some addrs)"

definition null_login :: "int \<Rightarrow> 'n lcp_sys \<Rightarrow> bool \<times> 'n lcp_sys" where
  "null_login unit s =
     (case null_login_addrs (lc_auth (lw_cfg (world s))) of
        None \<Rightarrow> (False, s)
      | Some addrs \<Rightarrow> (True, on_world (set_link unit (\<lambda>l. l\<lparr>ls_addresses := null_addrs addrs\<rparr>)) s))"

text \<open>\<open>check_passwd\<close>: the names are C strings, \<open>peer_authname\<close> has room for 63 characters.\<close>

definition link_check_passwd :: "'n protents \<Rightarrow> int \<Rightarrow> u8 list \<Rightarrow> u8 list \<Rightarrow> 'n lcp_sys \<Rightarrow> u8 \<times> u8 list \<times> 'n lcp_sys" where
  "link_check_passwd N unit auser apasswd s =
     (let user = cstr auser; passwd = cstr apasswd;
          (ret, addrs, login, wtmp) = pap_verdict (lc_auth (lw_cfg (world s))) user passwd;
          s = on_world (set_link unit (\<lambda>l. l\<lparr>ls_peer_authname := take 63 user\<rparr>)) s;
          s = (if wtmp then on_world (lcp_do (Logwtmp unit)) s else s);
          s = (if login then on_world (set_link unit (\<lambda>l. l\<lparr>ls_logged_in := True\<rparr>)) s else s)
      in if ret = UPAP_AUTHNAK
         then let attempts = ls_attempts (lw_lns (world s) unit);
                  s = on_world (set_link unit (\<lambda>l. l\<lparr>ls_attempts := attempts + 1\<rparr>)) s;
                  s = (if attempts \<ge> 10 then on_world (set_phase unit PHASE_TERMINATE) (lcp_close N ''max auth exceed'' s) else s)
              in (ret, map of_char ''Login incorrect'', s)
         else let s = on_world (set_link unit (\<lambda>l. l\<lparr>ls_attempts := 0, ls_addresses := null_addrs addrs\<rparr>)) s;
                  s = on_world (auth_script unit ''/etc/ppp/auth-up'' 0) s;
                  s = on_world (set_link unit (\<lambda>l. l\<lparr>ls_auth_up_script := True\<rparr>)) s
              in (ret, map of_char ''Login ok'', s))"

definition link_get_secret :: "int \<Rightarrow> u8 list \<Rightarrow> u8 list \<Rightarrow> bool \<Rightarrow> 'n lcp_sys \<Rightarrow> u8 list option \<times> 'n lcp_sys" where
  "link_get_secret unit client server save_addrs s =
     (case chap_secret (lc_auth (lw_cfg (world s))) client server of
        None \<Rightarrow> (None, s)
      | Some (secret, None) \<Rightarrow> (Some secret, s)
      | Some (secret, Some addrs) \<Rightarrow>
          (Some secret, if save_addrs then on_world (set_link unit (\<lambda>l. l\<lparr>ls_addresses := null_addrs addrs\<rparr>)) s else s))"

text \<open>
  The effect of \<open>set_userip\<close>: the address that the table of users gives for the name becomes the address
  wanted for the peer, always in the first IPCP unit. The parsing of the table is the parameter \<open>lc_userip\<close>.
\<close>

definition link_set_userip :: "'n protents \<Rightarrow> u8 list \<Rightarrow> 'n lcp_sys \<Rightarrow> 'n lcp_sys" where
  "link_set_userip N name s =
     (case lc_userip (lw_cfg (world s)) (cstr name) of
        None \<Rightarrow> s
      | Some a \<Rightarrow> on_world (net_do (net_set_hisaddr N 0 a)) s)"

section \<open>What upap.c and chap.c call\<close>

definition upap_lift :: "('n lcp_sys \<Rightarrow> 'n lcp_sys) \<Rightarrow> 'n lcp_sys upap_sys \<Rightarrow> 'n lcp_sys upap_sys" where
  "upap_lift g u = upap_view (g (upap_store u))"

definition chap_lift :: "('n lcp_sys \<Rightarrow> 'n lcp_sys) \<Rightarrow> 'n lcp_sys chap_sys \<Rightarrow> 'n lcp_sys chap_sys" where
  "chap_lift g c = chap_view (g (chap_store c))"

text \<open>\<open>set_userip\<close> copies a name of given length into \<open>name[64]\<close> and puts a NUL behind it.\<close>

definition link_upap_hooks :: "'n protents \<Rightarrow> 'n lcp_sys upap_hooks" where
  "link_upap_hooks N =
     \<lparr>auth_withpeer_fail = (\<lambda>r u. upap_lift (link_withpeer_fail (us_unit u) (error_reason r)) u),
      auth_withpeer_success = (\<lambda>u. upap_lift (on_world (link_withpeer_success N (us_unit u) PPP_PAP)) u),
      auth_peer_fail = (\<lambda>r u. upap_lift (link_peer_fail N (us_unit u) (error_reason r)) u),
      auth_peer_success = (\<lambda>u. upap_lift (on_world (link_peer_success N (us_unit u) PPP_PAP)) u),
      check_passwd = (\<lambda>n p u. let (code, msg, s) = link_check_passwd N (us_unit u) n p (upap_store u)
                              in (code, msg, upap_view s)),
      set_userip = (\<lambda>n k u. (upap_lift (link_set_userip N (take (nat k) n)) u)\<lparr>u_ub := u_ub u \<or> 64 \<le> k\<rparr>)\<rparr>"

text \<open>With length 0, \<open>strncpy\<close> leaves \<open>name\<close> without a NUL when the name has 63 characters or more.\<close>

definition link_chap_hooks :: "chap_env \<Rightarrow> 'n protents \<Rightarrow> 'n lcp_sys chap_hooks" where
  "link_chap_hooks env N =
     chap_env.extend env (chap_hooks.fields
       (\<lambda>r c. chap_lift (link_withpeer_fail (ch_unit c) (error_reason r + AUTH_ERR_CHAP)) c)
       (\<lambda>c. chap_lift (on_world (link_withpeer_success N (ch_unit c) PPP_CHAP)) c)
       (\<lambda>r c. chap_lift (link_peer_fail N (ch_unit c) (error_reason r + AUTH_ERR_CHAP)) c)
       (\<lambda>c. chap_lift (on_world (link_peer_success N (ch_unit c) PPP_CHAP)) c)
       (\<lambda>client server save c. let (found, s) = link_get_secret (ch_unit c) client server save (chap_store c)
                               in (found, chap_view s))
       (\<lambda>n k c. (chap_lift (link_set_userip N n) c)))"

section \<open>What the link phases leave alone\<close>

text \<open>The link phases touch neither PAP nor CHAP, except by \<open>lcp_down\<close>, and never the configuration.\<close>

definition same_auth :: "'n lcp_world \<Rightarrow> 'n lcp_world \<Rightarrow> bool" where
  "same_auth w w' \<longleftrightarrow> lw_upap w' = lw_upap w \<and> lw_chap w' = lw_chap w \<and> lw_cfg w' = lw_cfg w"

lemma same_auth_refl [simp]: "same_auth w w"
  by (simp add: same_auth_def)

lemma same_auth_trans: "same_auth v w \<Longrightarrow> same_auth w x \<Longrightarrow> same_auth v x"
  by (simp add: same_auth_def)

lemma same_auth_small [simp]:
  "same_auth v (set_link i g w) = same_auth v w" "same_auth v (set_phase i ph w) = same_auth v w"
  "same_auth v (lcp_do c w) = same_auth v w" "same_auth v (net_do h w) = same_auth v w"
  "same_auth v (auth_script i sc r w) = same_auth v w" "same_auth v (w\<lparr>lw_ub := b\<rparr>) = same_auth v w"
  "same_auth v (w\<lparr>lw_net := n\<rparr>) = same_auth v w" "same_auth v (w\<lparr>lw_got := x, lw_his := y\<rparr>) = same_auth v w"
  by (simp_all add: same_auth_def set_link_def set_phase_def lcp_do_def net_do_def auth_script_def Let_def)

lemma same_auth_terminated [simp]: "same_auth v (link_terminated i w) = same_auth v w"
  by (simp add: link_terminated_def Let_def)

lemma same_auth_down: "same_auth w (link_down N i w)"
  by (simp add: link_down_def link_last_down_def link_unbundle_def Let_def split: option.split)

lemma same_auth_bundle: "same_auth w (snd (bundle_loop n i l w))"
  by (induction n i l w rule: bundle_loop.induct) (simp_all add: join_bundle_def Let_def)

lemma same_auth_ipcp_up [simp]: "same_auth v (link_ipcp_up N l w) = same_auth v w"
  by (simp add: link_ipcp_up_def Let_def case_prod_beta split: option.split list.split)

lemma same_auth_other_up [simp]: "same_auth v (link_other_up pe st l w) = same_auth v w"
  by (simp add: link_other_up_def Let_def case_prod_beta)

lemma same_auth_network: "same_auth w (network_phase N l w)"
proof -
  have "same_auth w (snd (bundle_loop n 0 l (w\<lparr>lw_got := x, lw_his := y\<rparr>)))" for n x y
    by (rule same_auth_trans [OF _ same_auth_bundle]) simp
  then show ?thesis
    by (simp add: network_phase_def Let_def case_prod_beta)
qed

lemma same_auth_callback: "same_auth w (callback_phase N l w)"
  by (simp add: callback_phase_def Let_def same_auth_network)

lemma same_auth_done: "same_auth w (auth_done N l b w)"
  using same_auth_trans [OF _ same_auth_callback, of w "set_link l g w" for g] by (simp add: auth_done_def Let_def)

lemma same_auth_success: "same_auth w (link_peer_success N l p w)" "same_auth w (link_withpeer_success N l p w)"
  by (simp_all add: link_peer_success_def link_withpeer_success_def same_auth_done)

text \<open>LCP goes down at most once.\<close>

definition auth_or_down :: "'n lcp_sys \<Rightarrow> 'n lcp_sys \<Rightarrow> bool" where
  "auth_or_down s s' \<longleftrightarrow> same_auth (world s) (world s')
     \<or> lw_upap (world s') = upap_lowerdown (lw_upap (world s)) \<and> lw_chap (world s') = ChapLowerDown (lw_chap (world s))
       \<and> lw_cfg (world s') = lw_cfg (world s)"

lemma auth_or_down_refl [simp]: "auth_or_down s s"
  by (simp add: auth_or_down_def)

lemma auth_or_down_world: "same_auth (world s) w \<Longrightarrow> auth_or_down s (s\<lparr>world := w\<rparr>)"
  by (simp add: auth_or_down_def)

lemma auth_or_down_before: "auth_or_down t s' \<Longrightarrow> same_auth (world s) (world t) \<Longrightarrow> auth_or_down s s'"
  by (auto simp: auth_or_down_def same_auth_def)

lemma auth_or_down_after: "auth_or_down s t \<Longrightarrow> same_auth (world t) (world s') \<Longrightarrow> auth_or_down s s'"
  by (auto simp: auth_or_down_def same_auth_def)

lemma lcp_down_down: "auth_or_down s (lcp_down N s)"
  using same_auth_down [of "world s" N "f_unit s"]
  by (simp add: auth_or_down_def lcp_down_def Let_def same_auth_def lcp_do_def lcp_echo_lowerdown_def)

lemma lcp_close_down: "auth_or_down s (lcp_close N r s)"
proof -
  define t where "t = s\<lparr>f_term_reason := map of_char r, f_term_reason_len := int (length r)\<rparr>"
  have w: "world t = world s" by (simp add: t_def)
  have "auth_or_down s (fsm_close (lcp_base N) (Some (map of_char r)) s)"
    using auth_or_down_before [OF lcp_down_down [of t N]] w
    by (auto simp: fsm_close_def Let_def t_def [symmetric] lcp_base_def auth_or_down_def)
  then show ?thesis
    by (simp add: lcp_close_def auth_or_down_def lcp_finished_def)
qed

lemma link_peer_fail_down: "auth_or_down s (link_peer_fail N i r s)"
  by (rule auth_or_down_after [OF lcp_close_down [of s N "''auth failure''"]])
    (simp add: link_peer_fail_def Let_def)

lemma link_withpeer_fail_down: "same_auth (world s) (world (link_withpeer_fail i r s))"
  by (simp add: link_withpeer_fail_def)

lemma link_check_passwd_down: "auth_or_down s (snd (snd (link_check_passwd N i n p s)))"
proof -
  have c: "auth_or_down s (on_world g (lcp_close N r t))" if "same_auth (world s) (world t)" "\<And>w. same_auth w (g w)" for g r t
    by (rule auth_or_down_after [OF auth_or_down_before [OF lcp_close_down [of t N r] that(1)]]) (simp add: that(2))
  have s: "auth_or_down s t" if "same_auth (world s) (world t)" for t
    using that by (simp add: auth_or_down_def)
  show ?thesis
    unfolding link_check_passwd_def Let_def case_prod_beta
    by (simp add: c s)
qed

section \<open>The contracts\<close>

lemma store_simps [simp]:
  "lw_upap (world (upap_store u)) = upap_with () u" "lw_chap (world (chap_store c)) = chap_with () c"
  "lw_chap (world (upap_store u)) = lw_chap (world (u_world u))" "lw_upap (world (chap_store c)) = lw_upap (world (ch_world c))"
  by (simp_all add: upap_store_def chap_store_def)

lemma lowerdown_with [simp]:
  "us_clientstate (upap_lowerdown u) = UPAPCS_INITIAL" "us_serverstate (upap_lowerdown u) = UPAPSS_INITIAL"
  "ch_serverstate (ChapLowerDown c) = CHAPSS_INITIAL"
  by (simp_all add: upap_lowerdown_def ChapLowerDown_def Let_def)

lemma view_cases:
  assumes "auth_or_down (upap_store u) s"
  shows "(\<exists>x. upap_view s = upap_with x u)
    \<or> us_serverstate (upap_view s) = UPAPSS_INITIAL \<and> us_clientstate (upap_view s) = UPAPCS_INITIAL"
  using assms by (auto simp: auth_or_down_def same_auth_def upap_view_def)

lemma chap_view_cases:
  assumes "auth_or_down (chap_store c) s"
  shows "(\<exists>x. chap_view s = chap_with x c) \<or> ch_serverstate (chap_view s) = CHAPSS_INITIAL"
  using assms by (auto simp: auth_or_down_def same_auth_def chap_view_def)

lemma upap_leaves_lift:
  assumes "\<And>u. auth_or_down (upap_store u) (g u)"
  shows "upap_leaves (\<lambda>u. upap_view (g u))"
proof -
  have "(us_serverstate (upap_view (g u)) = us_serverstate u \<or> us_serverstate (upap_view (g u)) = UPAPSS_INITIAL)
     \<and> (us_clientstate (upap_view (g u)) = us_clientstate u \<and> u_retrans (upap_view (g u)) = u_retrans u
        \<or> us_clientstate (upap_view (g u)) = UPAPCS_INITIAL)" for u
    using view_cases [OF assms [of u]] by auto
  then show ?thesis by (simp add: upap_leaves_def)
qed

lemma chap_leaves_lift:
  assumes "\<And>c. auth_or_down (chap_store c) (g c)"
  shows "chap_leaves (\<lambda>c. chap_view (g c))"
proof -
  have "ch_serverstate (chap_view (g c)) = ch_serverstate c \<and> ch_chal_timers (chap_view (g c)) = ch_chal_timers c
     \<or> ch_serverstate (chap_view (g c)) = CHAPSS_INITIAL" for c
    using chap_view_cases [OF assms [of c]] by auto
  then show ?thesis by (simp add: chap_leaves_def)
qed

lemma chap_world_only_lift:
  assumes "\<And>c. same_auth (world (chap_store c)) (world (g c))"
  shows "chap_world_only (\<lambda>c. chap_view (g c))"
proof -
  have "\<exists>w. chap_view (g c) = c\<lparr>ch_world := w\<rparr>" for c
  proof -
    have "chap_view (g c) = chap_with (g c) c"
      using assms [of c] by (simp add: same_auth_def chap_view_def)
    then have "chap_view (g c) = c\<lparr>ch_world := g c\<rparr>" using chap_with_world [of "g c" c] by (simp add: chap_with_self)
    then show ?thesis by (rule exI)
  qed
  then show ?thesis by (simp add: chap_world_only_def)
qed

lemma server_armed_with: "server_armed u \<Longrightarrow> server_armed (upap_with x u)"
  by (simp add: server_armed_def)

lemma server_armed_lift:
  assumes "auth_or_down (upap_store u) s" "server_armed u"
  shows "server_armed (upap_view s)"
  using view_cases [OF assms(1)] server_armed_with [OF assms(2)] by (auto simp: server_armed_def)

lemma same_auth_or_down: "same_auth (world s) (world t) \<Longrightarrow> auth_or_down s t"
  by (simp add: auth_or_down_def)

lemmas hook_rules = same_auth_or_down same_auth_success link_withpeer_fail_down link_peer_fail_down link_check_passwd_down

interpretation lua: upap_client "link_upap_hooks N"
proof unfold_locales
  show "upap_leaves (auth_withpeer_fail (link_upap_hooks N) r)" for r
    unfolding link_upap_hooks_def upap_lift_def upap_hooks.simps
    by (rule upap_leaves_lift) (simp add: hook_rules)
  show "upap_leaves (auth_withpeer_success (link_upap_hooks N))"
    unfolding link_upap_hooks_def upap_lift_def upap_hooks.simps
    by (rule upap_leaves_lift) (simp add: hook_rules)
  show "upap_leaves (auth_peer_fail (link_upap_hooks N) r)" for r
    unfolding link_upap_hooks_def upap_lift_def upap_hooks.simps
    by (rule upap_leaves_lift) (simp add: hook_rules)
  show "upap_leaves (auth_peer_success (link_upap_hooks N))"
    unfolding link_upap_hooks_def upap_lift_def upap_hooks.simps
    by (rule upap_leaves_lift) (simp add: hook_rules)
  show "upap_leaves (\<lambda>u. snd (snd (check_passwd (link_upap_hooks N) n p u)))" for n p
    unfolding link_upap_hooks_def upap_hooks.simps Let_def case_prod_beta snd_conv
    by (rule upap_leaves_lift) (simp add: hook_rules)
  show "upap_leaves (set_userip (link_upap_hooks N) n k)" for n k
  proof -
    have "upap_leaves (\<lambda>u. upap_view (link_set_userip N (take (nat k) n) (upap_store u)))"
      by (rule upap_leaves_lift, rule same_auth_or_down) (simp add: link_set_userip_def split: option.split)
    then show ?thesis by (simp add: link_upap_hooks_def upap_lift_def upap_leaves_def)
  qed
  show "server_armed (auth_withpeer_fail (link_upap_hooks N) r u)" if "server_armed u" for r u
    unfolding link_upap_hooks_def upap_lift_def upap_hooks.simps
    by (rule server_armed_lift [OF _ that]) (simp add: hook_rules)
  show "server_armed (auth_withpeer_success (link_upap_hooks N) u)" if "server_armed u" for u
    unfolding link_upap_hooks_def upap_lift_def upap_hooks.simps
    by (rule server_armed_lift [OF _ that]) (simp add: hook_rules)
qed

lemma link_chap_hooks_simps [simp]:
  "ch_withpeer_fail (link_chap_hooks env N) r c = chap_lift (link_withpeer_fail (ch_unit c) (error_reason r + AUTH_ERR_CHAP)) c"
  "ch_withpeer_success (link_chap_hooks env N) c = chap_lift (on_world (link_withpeer_success N (ch_unit c) PPP_CHAP)) c"
  "ch_peer_fail (link_chap_hooks env N) r c = chap_lift (link_peer_fail N (ch_unit c) (error_reason r + AUTH_ERR_CHAP)) c"
  "ch_peer_success (link_chap_hooks env N) c = chap_lift (on_world (link_peer_success N (ch_unit c) PPP_CHAP)) c"
  "get_secret (link_chap_hooks env N) client server save c =
     (fst (link_get_secret (ch_unit c) client server save (chap_store c)),
      chap_view (snd (link_get_secret (ch_unit c) client server save (chap_store c))))"
  "ch_set_userip (link_chap_hooks env N) n k c = chap_lift (link_set_userip N n) c"
  "md5 (link_chap_hooks env N) = md5 env" "draw_length (link_chap_hooks env N) = draw_length env"
  "draw_byte (link_chap_hooks env N) = draw_byte env" "ch_hostname (link_chap_hooks env N) = ch_hostname env"
  by (simp_all add: link_chap_hooks_def chap_env.defs chap_hooks.defs case_prod_beta)

lemma leaves_cong: "(\<And>c. g c = h c) \<Longrightarrow> chap_leaves h \<Longrightarrow> chap_leaves g"
  by (simp add: chap_leaves_def)

interpretation lch: chap_client "link_chap_hooks env N"
proof unfold_locales
  show "chap_leaves (ch_withpeer_fail (link_chap_hooks env N) r)" for r
    by (rule leaves_cong, rule link_chap_hooks_simps, unfold chap_lift_def, rule chap_leaves_lift) (simp add: hook_rules)
  show "chap_leaves (ch_withpeer_success (link_chap_hooks env N))"
    by (rule leaves_cong, rule link_chap_hooks_simps, unfold chap_lift_def, rule chap_leaves_lift) (simp add: hook_rules)
  show "chap_leaves (ch_peer_fail (link_chap_hooks env N) r)" for r
    by (rule leaves_cong, rule link_chap_hooks_simps, unfold chap_lift_def, rule chap_leaves_lift) (simp add: hook_rules)
  show "chap_leaves (ch_peer_success (link_chap_hooks env N))"
    by (rule leaves_cong, rule link_chap_hooks_simps, unfold chap_lift_def, rule chap_leaves_lift) (simp add: hook_rules)
  show "chap_world_only (\<lambda>c. snd (get_secret (link_chap_hooks env N) n m b c))" for n m b
    unfolding link_chap_hooks_simps snd_conv
    by (rule chap_world_only_lift) (simp add: link_get_secret_def split: option.split)
  show "chap_world_only (ch_set_userip (link_chap_hooks env N) n k)" for n k
  proof -
    have "chap_world_only (\<lambda>c. chap_view (link_set_userip N n (chap_store c)))"
      by (rule chap_world_only_lift) (simp add: link_set_userip_def split: option.split)
    then show ?thesis by (simp add: chap_world_only_def chap_lift_def)
  qed
qed

end
