(* ===== verification/Lcp.thy ===== *)
theory Lcp
  imports Auth_Hooks
begin

text \<open>
  The LCP machine of lcp.c: what coming up starts, the callback table over the option routines of
  \<open>Lcp_Options\<close>, \<open>Lcp_Replies\<close> and \<open>Lcp_Requests\<close>, the LCP codes (Protocol-Reject, echo), the entry points of
  \<open>lcp_protent\<close>, and \<open>get_input\<close> and \<open>demuxprotrej\<close> of main.c, which hand packets and rejections to the
  protocols. At the end the table is shown to obey the contract of the automaton.
\<close>

section \<open>The link is established\<close>

definition link_auth :: "'n lcp_sys \<Rightarrow> 'n lcp_sys \<times> u8" where
  "link_auth s =
     (let u = f_unit s; cfg = lw_cfg (world s); au = lc_auth cfg;
          go = lw_got (world s) (lcp_unit s); ho = lw_his (world s) (lcp_unit s);
          (s, auth) =
            (if l_neg_chap go
             then (on_world (\<lambda>w. w\<lparr>lw_chap := ChapAuthPeer (lc_chap cfg) (au_our_name au) (l_chap_mdtype go) (lw_chap w)\<rparr>) s,
                   CHAP_PEER)
             else if l_neg_upap go
             then (on_world (\<lambda>w. w\<lparr>lw_upap := upap_authpeer (lw_upap w)\<rparr>) s, UPAP_PEER)
             else (s, 0))
      in if l_neg_chap ho
         then (on_world (\<lambda>w. w\<lparr>lw_chap := ChapAuthWithPeer (au_our_name au) (l_chap_mdtype ho) (lw_chap w)\<rparr>) s,
               auth OR CHAP_WITHPEER)
         else if l_neg_upap ho
         then (on_world (\<lambda>w. w\<lparr>lw_upap := upap_authwithpeer (au_user au) (au_passwd au) (lw_upap w)\<rparr>) s,
               auth OR UPAP_WITHPEER)
         else (s, auth))"

text \<open>The check at the beginning: a peer that must authenticate itself has refused to.\<close>

definition link_refused :: "'n lcp_sys \<Rightarrow> bool \<times> 'n lcp_sys" where
  "link_refused s =
     (let wo = lw_want (world s) (lcp_unit s); go = lw_got (world s) (lcp_unit s)
      in if au_required (lc_auth (lw_cfg (world s))) \<and> \<not> (l_neg_chap go \<or> l_neg_upap go)
         then if \<not> l_neg_upap wo then (True, s)
              else let (ok, s) = null_login (f_unit s) s in (\<not> ok, s)
         else (False, s))"

definition link_established :: "'n protents \<Rightarrow> 'n lcp_sys \<Rightarrow> 'n lcp_sys" where
  "link_established N s =
     (let u = f_unit s; (refused, s) = link_refused s
      in if refused
         then on_world (set_phase u PHASE_TERMINATE) (lcp_close N ''peer refused to authenticate'' s)
         else
           let s = on_world (set_phase u PHASE_AUTHENTICATE) s;
               (s, auth) = link_auth s;
               s = on_world (set_link u (\<lambda>l. l\<lparr>ls_auth_pending := auth\<rparr>)) s
           in if auth = 0 then on_world (callback_phase N u) s else s)"

section \<open>Coming up\<close>

definition lcp_up_magic :: "int \<Rightarrow> 'n lcp_world \<Rightarrow> 'n lcp_world" where
  "lcp_up_magic i w =
     (let w = (if \<not> l_neg_magicnumber (lw_got w i)
               then w\<lparr>lw_got := (lw_got w)(i := (lw_got w i)\<lparr>l_magicnumber := 0\<rparr>)\<rparr> else w)
      in if \<not> l_neg_magicnumber (lw_his w i)
         then w\<lparr>lw_his := (lw_his w)(i := (lw_his w i)\<lparr>l_magicnumber := 0\<rparr>)\<rparr> else w)"

definition lcp_up_config :: "int \<Rightarrow> int \<Rightarrow> 'n lcp_world \<Rightarrow> 'n lcp_world" where
  "lcp_up_config u i w =
     (let wo = lw_want w i; go = lw_got w i; ao = lw_allow w i; ho = lw_his w i;
          w = lcp_do (Ppp_send_config u (min (l_mru ao) (if l_neg_mru ho then l_mru ho else PPP_MRU16))
                (if l_neg_asyncmap ho then l_asyncmap ho else 0xffffffff)
                (l_neg_pcompression ho) (l_neg_accompression ho)) w
      in lcp_do (Ppp_recv_config u (if l_neg_mru go then max (l_mru wo) (l_mru go) else PPP_MRU16)
           (if l_neg_asyncmap go then l_asyncmap go else 0) (l_neg_pcompression go) (l_neg_accompression go)) w)"

definition lcp_up :: "'n protents \<Rightarrow> 'n lcp_sys \<Rightarrow> 'n lcp_sys" where
  "lcp_up N s =
     (let i = lcp_unit s;
          s = on_world (\<lambda>w. lcp_up_config (f_unit s) i (lcp_up_magic i w)) s;
          ho = lw_his (world s) i;
          s = (if l_neg_mru ho then s\<lparr>peer_mru := uint (l_mru ho)\<rparr> else s);
          s = on_world (\<lambda>w. w\<lparr>lw_chap := ChapLowerUp (lc_chap (lw_cfg w)) (lw_chap w)\<rparr>) s;
          s = on_world (\<lambda>w. w\<lparr>lw_upap := upap_lowerup (lw_upap w)\<rparr>) s;
          s = lcp_echo_lowerup N s
      in link_established N s)"

section \<open>The callbacks for the options\<close>

definition set_got :: "int \<Rightarrow> lcp_options \<Rightarrow> 'n lcp_world \<Rightarrow> 'n lcp_world" where
  "set_got i o' w = w\<lparr>lw_got := (lw_got w)(i := o')\<rparr>"

definition lcp_resetci :: "'n lcp_sys \<Rightarrow> 'n lcp_sys" where
  "lcp_resetci s =
     (let i = lcp_unit s; w = world s;
          wo = (lw_want w i)\<lparr>l_magicnumber := lw_magic w (lw_drawn w)\<rparr>
      in s\<lparr>world := w\<lparr>lw_drawn := Suc (lw_drawn w), lw_want := (lw_want w)(i := wo), lw_got := (lw_got w)(i := wo)\<rparr>,
           peer_mru := PPP_MRU\<rparr>)"

definition lcp_cb_cilen :: "'n lcp_sys \<Rightarrow> int \<times> 'n lcp_sys" where
  "lcp_cb_cilen s = (lcp_cilen (lw_got (world s) (lcp_unit s)), s)"

text \<open>\<open>lcp_addci\<close> does not change \<open>*lenp\<close>; a wrong length is only logged.\<close>

definition lcp_cb_addci :: "int \<Rightarrow> 'n lcp_sys \<Rightarrow> u8 list \<times> int \<times> 'n lcp_sys" where
  "lcp_cb_addci lenp s = (lcp_addci (lw_got (world s) (lcp_unit s)), lenp, s)"

definition lcp_cb_ackci :: "u8 list \<Rightarrow> int \<Rightarrow> 'n lcp_sys \<Rightarrow> bool \<times> 'n lcp_sys" where
  "lcp_cb_ackci p len s =
     (case lcp_ackci (lw_got (world s) (lcp_unit s)) (p, len) of
        Undef \<Rightarrow> (False, s\<lparr>ub := True\<rparr>)
      | Bad \<Rightarrow> (False, s)
      | Ok _ \<Rightarrow> (True, s))"

definition lcp_cb_rejci :: "u8 list \<Rightarrow> int \<Rightarrow> 'n lcp_sys \<Rightarrow> int \<times> 'n lcp_sys" where
  "lcp_cb_rejci p len s =
     (case lcp_rejci_try (lw_got (world s) (lcp_unit s)) (p, len) of
        Undef \<Rightarrow> (0, s\<lparr>ub := True\<rparr>)
      | Bad \<Rightarrow> (0, s)
      | Ok tr \<Rightarrow> (1, if f_state s \<noteq> OPENED then on_world (set_got (lcp_unit s) tr) s else s))"

text \<open>The end of \<open>lcp_nakci\<close>: a link that is looped back too often is closed.\<close>

definition lcp_nakci_update :: "'n protents \<Rightarrow> nak_state \<Rightarrow> 'n lcp_sys \<Rightarrow> 'n lcp_sys" where
  "lcp_nakci_update N st s =
     (let i = lcp_unit s
      in if n_looped_back st
         then let tr = (n_try st)\<lparr>l_numloops := l_numloops (n_try st) + 1\<rparr>;
                  s = (if l_numloops tr \<ge> lc_loopbackfail (lw_cfg (world s)) then lcp_close N ''Serial line is looped back.'' s else s)
              in on_world (set_got i tr) s
         else on_world (set_got i ((n_try st)\<lparr>l_numloops := 0\<rparr>)) s)"

definition lcp_cb_nakci :: "'n protents \<Rightarrow> u8 list \<Rightarrow> int \<Rightarrow> 'n lcp_sys \<Rightarrow> int \<times> 'n lcp_sys" where
  "lcp_cb_nakci N p len s =
     (let i = lcp_unit s; w = world s;
          draw = (\<lambda>st. on_world (\<lambda>w. (set_got i (n_go st) w)\<lparr>lw_drawn := lw_drawn w + n_drawn st\<rparr>))
      in case lcp_nakci_parse (lw_got w i) (lw_want w i) (lw_magic w (lw_drawn w)) (p, len) of
           NakUndef \<Rightarrow> (0, s\<lparr>ub := True\<rparr>)
         | NakBad st \<Rightarrow> (0, draw st s)
         | NakOk st \<Rightarrow>
             (1, if f_state s \<noteq> OPENED then lcp_nakci_update N st (draw st s) else draw st s))"

definition lcp_cb_reqci :: "u8 list \<Rightarrow> int \<Rightarrow> bool \<Rightarrow> 'n lcp_sys \<Rightarrow> u8 \<times> u8 list \<times> int \<times> 'n lcp_sys" where
  "lcp_cb_reqci inp len reject_if_disagree s =
     (let i = lcp_unit s; w = world s
      in case lcp_reqci (lw_allow w i) (lw_got w i) (\<lambda>k. lw_magic w (lw_drawn w + k)) inp len reject_if_disagree of
           Ok (code, out, n, ho, drawn) \<Rightarrow>
             (code, out, n, s\<lparr>world := w\<lparr>lw_his := (lw_his w)(i := ho), lw_drawn := lw_drawn w + drawn\<rparr>\<rparr>)
         | _ \<Rightarrow> (CONFREJ, inp, len, s\<lparr>ub := True\<rparr>))"

section \<open>Protocol-Rejects\<close>

definition PPP_CBCP :: u16 where "PPP_CBCP = 0xc029"
definition PPP_CCP :: u16 where "PPP_CCP = 0x80fd"
definition PPP_LINK_CCP :: u16 where "PPP_LINK_CCP = 0x80fb"
definition PPP_IPXCP :: u16 where "PPP_IPXCP = 0x802b"

definition on_upap :: "'n protents \<Rightarrow> ('n lcp_sys upap_hooks \<Rightarrow> 'n lcp_sys upap_sys \<Rightarrow> 'n lcp_sys upap_sys) \<Rightarrow> 'n lcp_sys \<Rightarrow> 'n lcp_sys" where
  "on_upap N g s = upap_store (g (link_upap_hooks N) (upap_view s))"

definition on_chap :: "'n protents \<Rightarrow> ('n lcp_sys chap_hooks \<Rightarrow> 'n lcp_sys chap_sys \<Rightarrow> 'n lcp_sys chap_sys) \<Rightarrow> 'n lcp_sys \<Rightarrow> 'n lcp_sys" where
  "on_chap N g s = chap_store (g (link_chap_hooks (lc_chap (lw_cfg (world s))) N) (chap_view s))"

definition lcp_protrej :: "'n protents \<Rightarrow> 'n lcp_sys \<Rightarrow> 'n lcp_sys" where
  "lcp_protrej N s = fsm_protreject (lcp_base N) s"

text \<open>\<open>demuxprotrej\<close> goes through the table \<open>protocols\<close>, in its order.\<close>

definition demuxprotrej :: "'n protents \<Rightarrow> u16 \<Rightarrow> 'n lcp_sys \<Rightarrow> 'n lcp_sys" where
  "demuxprotrej N protocol s =
     (let u = f_unit s; l = lw_lns (world s) u
      in if protocol = PPP_LCP then lcp_protrej N s
         else if protocol = PPP_PAP then on_upap N upap_protrej s
         else if protocol = PPP_CHAP then on_chap N ChapProtocolReject s
         else if protocol = PPP_CBCP then on_world (net_do (pe_protrej (net_cbcp N) u u)) s
         else if protocol = PPP_IPCP then on_world (net_do (pe_protrej (net_ipcp N) u (ls_ipcp_unit l))) s
         else if protocol = PPP_CCP then on_world (net_do (pe_protrej (net_ccp N) u (ls_ccp_unit l))) s
         else if protocol = PPP_LINK_CCP then on_world (net_do (pe_protrej (net_ccp_link N) u (ls_ccp_l_unit l))) s
         else if protocol = PPP_IPXCP then on_world (net_do (pe_protrej (net_ipxcp N) u (ls_ipxcp_unit l))) s
         else s)"

definition lcp_rprotrej :: "'n protents \<Rightarrow> u8 list \<Rightarrow> int \<Rightarrow> 'n lcp_sys \<Rightarrow> 'n lcp_sys" where
  "lcp_rprotrej N inp len s =
     (if szt len < 2 then s
      else case getshort inp of
             Ok (prot, _) \<Rightarrow> if f_state s \<noteq> OPENED then s else demuxprotrej N prot s
           | _ \<Rightarrow> s\<lparr>ub := True\<rparr>)"

text \<open>The reply to an echo request overwrites its first four bytes with our magic number.\<close>

definition lcp_extcode :: "'n protents \<Rightarrow> u8 \<Rightarrow> u8 \<Rightarrow> u8 list \<Rightarrow> int \<Rightarrow> 'n lcp_sys \<Rightarrow> bool \<times> 'n lcp_sys" where
  "lcp_extcode N code pid inp len s =
     (if code = PROTREJ then (True, lcp_rprotrej N inp len s)
      else if code = ECHOREQ
      then (True,
            if f_state s \<noteq> OPENED then s
            else let s = s\<lparr>ub := ub s \<or> length inp < 4\<rparr>
                 in fsm_sdata ECHOREP pid (putlong (l_magicnumber (lw_got (world s) (lcp_unit s))) @ drop 4 inp) len s)
      else if code = ECHOREP then (True, lcp_received_echo_reply inp len s)
      else if code = DISCREQ then (True, s)
      else (False, s))"

definition lcp_callbacks :: "'n protents \<Rightarrow> 'n lcp_world fsm_callbacks" where
  "lcp_callbacks N =
     \<lparr>resetci = Some lcp_resetci, cilen = Some lcp_cb_cilen, addci = Some lcp_cb_addci, ackci = Some lcp_cb_ackci,
      nakci = Some (lcp_cb_nakci N), rejci = Some lcp_cb_rejci, reqci = Some lcp_cb_reqci, up = Some (lcp_up N),
      down = Some (lcp_down N), starting = Some lcp_starting, finished = Some lcp_finished, retransmit = None,
      extcode = Some (lcp_extcode N)\<rparr>"

section \<open>Entry points\<close>

definition lcp_open :: "'n protents \<Rightarrow> 'n lcp_sys \<Rightarrow> 'n lcp_sys" where
  "lcp_open N s =
     (let wo = lw_want (world s) (lcp_unit s);
          s = s\<lparr>f_flags := (if l_passive wo then OPT_PASSIVE else 0) OR (if l_silent wo then OPT_SILENT else 0)\<rparr>
      in fsm_open (lcp_callbacks N) s)"

definition lcp_lowerup :: "'n protents \<Rightarrow> 'n lcp_sys \<Rightarrow> 'n lcp_sys" where
  "lcp_lowerup N s =
     (let u = f_unit s; i = lcp_unit s;
          s = on_world (\<lambda>w. lcp_do (Ppp_recv_config u PPP_MRU16 0 False False)
                (lcp_do (Ppp_send_config u PPP_MRU16 0xffffffff False False) (lcp_do (Ppp_set_xaccm u) w))) s;
          s = s\<lparr>peer_mru := PPP_MRU\<rparr>;
          s = on_world (\<lambda>w. w\<lparr>lw_allow := (lw_allow w)(i := (lw_allow w i)\<lparr>l_asyncmap := lw_xmit_accm w i\<rparr>)\<rparr>) s
      in fsm_lowerup (lcp_callbacks N) s)"

text \<open>A negative unit is only logged; the array access that follows is out of bounds.\<close>

definition lcp_lowerdown :: "'n protents \<Rightarrow> 'n lcp_sys \<Rightarrow> 'n lcp_sys" where
  "lcp_lowerdown N s = fsm_lowerdown (lcp_callbacks N) (s\<lparr>ub := ub s \<or> lcp_unit s < 0\<rparr>)"

definition lcp_input :: "'n protents \<Rightarrow> u8 list \<Rightarrow> int \<Rightarrow> 'n lcp_sys \<Rightarrow> 'n lcp_sys" where
  "lcp_input N p len s =
     (let oldstate = f_state s; s = fsm_input (lcp_callbacks N) p len s; go = lw_got (world s) (lcp_unit s)
      in if oldstate = REQSENT \<and> f_state s = ACKSENT
         then on_world (lcp_do (Ppp_recv_config (f_unit s) PPP_MRU16 (if l_neg_asyncmap go then l_asyncmap go else 0)
                (l_neg_pcompression go) (l_neg_accompression go))) s
         else s)"

definition lcp_sprotrej :: "u8 list \<Rightarrow> int \<Rightarrow> 'n lcp_sys \<Rightarrow> 'n lcp_sys" where
  "lcp_sprotrej p len s =
     (let s = s\<lparr>f_id := f_id s + 1\<rparr> in fsm_sdata PROTREJ (f_id s) (drop 2 p) (len - 2) s)"

section \<open>The contract of the automaton\<close>

lemma armed_mru [simp]:
  "armed (s\<lparr>peer_mru := m\<rparr>) = armed s" "one_timer (s\<lparr>peer_mru := m\<rparr>) = one_timer s"
  "armed (s\<lparr>ub := b\<rparr>) = armed s" "one_timer (s\<lparr>ub := b\<rparr>) = one_timer s"
  by (simp_all add: armed_def one_timer_def)

lemma link_auth_keeps [simp]:
  "armed (fst (link_auth s)) = armed s" "one_timer (fst (link_auth s)) = one_timer s"
  by (simp_all add: link_auth_def Let_def)

lemma null_login_keeps [simp]:
  "armed (snd (null_login u s)) = armed s" "one_timer (snd (null_login u s)) = one_timer s"
  by (simp_all add: null_login_def split: option.split)

lemma link_refused_keeps [simp]:
  "armed (snd (link_refused s)) = armed s" "one_timer (snd (link_refused s)) = one_timer s"
  by (simp_all add: link_refused_def Let_def case_prod_beta)

lemma link_established_keeps: "keeps (link_established N)"
  unfolding keeps_def link_established_def Let_def case_prod_beta
  by (simp add: keepsD [OF lcp_close_keeps])

lemma lcp_up_keeps: "keeps (lcp_up N)"
  unfolding keeps_def lcp_up_def Let_def
  by (simp add: keepsD [OF link_established_keeps] keepsD [OF lcp_echo_lowerup_keeps])

lemma lcp_resetci_quiet: "quiet lcp_resetci"
  by (simp add: quiet_def lcp_resetci_def Let_def fsm.defs)

lemma lcp_cilen_quiet: "quiet (\<lambda>s. snd (lcp_cb_cilen s))"
  by (simp add: quiet_def lcp_cb_cilen_def)

lemma lcp_addci_quiet: "quiet (\<lambda>s. snd (snd (lcp_cb_addci n s)))"
  by (simp add: quiet_def lcp_cb_addci_def)

lemma lcp_ackci_quiet: "quiet (\<lambda>s. snd (lcp_cb_ackci p n s))"
  by (simp add: quiet_def lcp_cb_ackci_def fsm.defs split: outcome.split)

lemma lcp_reqci_quiet: "quiet (\<lambda>s. snd (snd (snd (lcp_cb_reqci p n r s))))"
  by (simp add: quiet_def lcp_cb_reqci_def Let_def fsm.defs split: outcome.split prod.split)

lemma lcp_rejci_keeps: "keeps (\<lambda>s. snd (lcp_cb_rejci p n s))"
  by (simp add: keeps_def lcp_cb_rejci_def split: outcome.split)

lemma lcp_nakci_update_keeps: "keeps (lcp_nakci_update N st)"
  unfolding keeps_def lcp_nakci_update_def Let_def by (simp add: keepsD [OF lcp_close_keeps])

lemma lcp_nakci_keeps: "keeps (\<lambda>s. snd (lcp_cb_nakci N p n s))"
  unfolding keeps_def lcp_cb_nakci_def Let_def
  by (simp add: keepsD [OF lcp_nakci_update_keeps] split: nak_result.split)

text \<open>PAP and CHAP reach the automaton only through their hooks.\<close>

lemma store_armed [simp]:
  "armed (upap_store u) = armed (u_world u)" "one_timer (upap_store u) = one_timer (u_world u)"
  "armed (chap_store c) = armed (ch_world c)" "one_timer (chap_store c) = one_timer (ch_world c)"
  by (simp_all add: upap_store_def chap_store_def)

lemma view_world [simp]: "u_world (upap_view s) = s" "ch_world (chap_view s) = s"
  by (simp_all add: upap_view_def chap_view_def)

lemma link_peer_fail_keeps: "keeps (link_peer_fail N u r)"
  unfolding keeps_def link_peer_fail_def Let_def by (simp add: keepsD [OF lcp_close_keeps])

lemma link_withpeer_fail_keeps: "keeps (link_withpeer_fail u r)"
  unfolding keeps_def link_withpeer_fail_def by simp

lemma lowerdown_world [simp]: "u_world (upap_lowerdown u) = u_world u" "ch_world (ChapLowerDown c) = ch_world c"
  by (simp_all add: upap_lowerdown_def ChapLowerDown_def Let_def)

lemma upap_protrej_keeps: "keeps (on_upap N upap_protrej)"
  unfolding keeps_def on_upap_def upap_protrej_def Let_def
  by (simp add: link_upap_hooks_def upap_lift_def keepsD [OF link_peer_fail_keeps] keepsD [OF link_withpeer_fail_keeps])

lemma chap_protrej_keeps: "keeps (on_chap N ChapProtocolReject)"
  unfolding keeps_def on_chap_def ChapProtocolReject_def Let_def
  by (simp add: chap_lift_def keepsD [OF link_peer_fail_keeps] keepsD [OF link_withpeer_fail_keeps])

lemma demuxprotrej_keeps: "keeps (demuxprotrej N prot)"
  unfolding keeps_def demuxprotrej_def Let_def
  by (simp add: keepsD [OF upap_protrej_keeps] keepsD [OF chap_protrej_keeps] lcp_protrej_def
      keepsD [OF lcpb.protreject_keeps])

lemma lcp_extcode_keeps: "keeps (\<lambda>s. snd (lcp_extcode N code pid inp len s))"
  unfolding keeps_def lcp_extcode_def lcp_rprotrej_def lcp_received_echo_reply_def Let_def
  by (simp add: keepsD [OF demuxprotrej_keeps] split: outcome.split prod.split)

interpretation lcpf: fsm_client "lcp_callbacks N"
  by unfold_locales
    (auto simp: lcp_callbacks_def lcp_resetci_quiet lcp_cilen_quiet lcp_addci_quiet lcp_ackci_quiet lcp_reqci_quiet
      lcp_rejci_keeps lcp_nakci_keeps lcp_extcode_keeps lcp_up_keeps lcp_down_quiet
      intro: quiet_keeps lcp_finished_quiet lcp_starting_quiet)

end
