(* ===== verification/Auth_World.thy ===== *)
theory Auth_World
  imports Chap_Safety
begin

text \<open>
  PAP and CHAP touch the rest of the program through the functions of auth.c only: a property \<open>P\<close> of the
  rest that these functions keep is kept by every event of the protocol.
\<close>

locale upap_world =
  fixes hk :: "'w upap_hooks" and P :: "'w \<Rightarrow> bool"
  assumes withpeer_fail_P: "P (u_world u) \<Longrightarrow> P (u_world (auth_withpeer_fail hk r u))"
    and withpeer_success_P: "P (u_world u) \<Longrightarrow> P (u_world (auth_withpeer_success hk u))"
    and peer_fail_P: "P (u_world u) \<Longrightarrow> P (u_world (auth_peer_fail hk r u))"
    and peer_success_P: "P (u_world u) \<Longrightarrow> P (u_world (auth_peer_success hk u))"
    and check_P: "P (u_world u) \<Longrightarrow> P (u_world (snd (snd (check_passwd hk n p u))))"
    and userip_P: "P (u_world u) \<Longrightarrow> P (u_world (set_userip hk n k u))"
begin

lemma send_world [simp]:
  "u_world (upap_output b u) = u_world u" "u_world (upap_sresp c i m u) = u_world u"
  "u_world (upap_sauthreq u) = u_world u" "u_world (start_reqtimer u) = u_world u"
  "u_world (stop_reqtimer u) = u_world u" "u_world (upap_lowerdown u) = u_world u"
  by (simp_all add: upap_output_def upap_sresp_def upap_sauthreq_def start_reqtimer_def stop_reqtimer_def
      upap_lowerdown_def Let_def)

lemma checkauth_P: "P (u_world u) \<Longrightarrow> P (u_world (upap_checkauth hk pid n p u))"
  by (simp add: upap_checkauth_def Let_def case_prod_beta peer_success_P peer_fail_P userip_P check_P)

lemma upap_input_P: "P (u_world u) \<Longrightarrow> P (u_world (upap_input hk pkt l u))"
  by (simp add: upap_input_def upap_rauthreq_def upap_rauthack_def upap_rauthnak_def Let_def checkauth_P
      withpeer_success_P withpeer_fail_P split: list.split outcome.split)

lemma upap_step_P: "P (u_world u) \<Longrightarrow> P (u_world (upap_step hk e u))"
  by (cases e)
    (simp_all add: upap_input_P upap_authwithpeer_def upap_authpeer_def upap_lowerup_def upap_protrej_def
      upap_timeout_def upap_reqtimeout_def withpeer_fail_P peer_fail_P Let_def)

end

locale chap_world =
  fixes hk :: "'w chap_hooks" and P :: "'w \<Rightarrow> bool"
  assumes withpeer_fail_P: "P (ch_world c) \<Longrightarrow> P (ch_world (ch_withpeer_fail hk r c))"
    and withpeer_success_P: "P (ch_world c) \<Longrightarrow> P (ch_world (ch_withpeer_success hk c))"
    and peer_fail_P: "P (ch_world c) \<Longrightarrow> P (ch_world (ch_peer_fail hk r c))"
    and peer_success_P: "P (ch_world c) \<Longrightarrow> P (ch_world (ch_peer_success hk c))"
    and secret_P: "P (ch_world c) \<Longrightarrow> P (ch_world (snd (get_secret hk n m b c)))"
    and userip_P: "P (ch_world c) \<Longrightarrow> P (ch_world (ch_set_userip hk n k c))"
begin

lemma send_world [simp]:
  "ch_world (chap_output b c) = ch_world c" "ch_world (ChapSendStatus hk' k c) = ch_world c"
  "ch_world (ChapSendChallenge c) = ch_world c" "ch_world (ChapSendResponse c) = ch_world c"
  "ch_world (ChapGenChallenge hk' c) = ch_world c" "ch_world (chap_message q l c) = ch_world c"
  "ch_world (ChapLowerDown c) = ch_world c"
  by (simp_all add: chap_output_def ChapSendStatus_def ChapSendChallenge_def ChapSendResponse_def
      ChapGenChallenge_def chap_message_def ChapLowerDown_def Let_def)

lemma answer_P: "P (ch_world c) \<Longrightarrow> P (ch_world (chap_answer hk n good c))"
  by (simp add: chap_answer_def Let_def peer_success_P peer_fail_P userip_P)

lemma receive_challenge_P: "P (ch_world c) \<Longrightarrow> P (ch_world (ChapReceiveChallenge hk inp pid len c))"
  by (simp add: ChapReceiveChallenge_def Let_def case_prod_beta secret_P split: outcome.split)

lemma receive_response_P: "P (ch_world c) \<Longrightarrow> P (ch_world (ChapReceiveResponse hk inp pid len c))"
  by (simp add: ChapReceiveResponse_def Let_def case_prod_beta answer_P secret_P split: outcome.split)

lemma chap_input_P: "P (ch_world c) \<Longrightarrow> P (ch_world (ChapInput hk pkt l c))"
  by (simp add: ChapInput_def ChapReceiveSuccess_def ChapReceiveFailure_def Let_def receive_challenge_P receive_response_P
      withpeer_success_P withpeer_fail_P split: list.split)

lemma chap_step_P: "P (ch_world c) \<Longrightarrow> P (ch_world (chap_step hk e c))"
  by (cases e)
    (simp_all add: chap_input_P ChapAuthWithPeer_def ChapAuthPeer_def ChapLowerUp_def ChapProtocolReject_def
      ChapChallengeTimeout_def ChapResponseTimeout_def ChapRechallenge_def withpeer_fail_P peer_fail_P Let_def)

end

end
