(* ===== verification/Link_Machine.thy ===== *)
theory Link_Machine
  imports Lcp Auth_World
begin

text \<open>
  One link of the daemon as a whole: packets from the driver (\<open>get_input\<close> of main.c), the timers of all
  protocols of the link, and the orders of the main loop. \<open>phases_ok\<close> is the invariant that no link gets
  into the network or callback phase while an authentication is outstanding.
\<close>

section \<open>Packets from the driver\<close>

text \<open>
  \<open>read_packet\<close> has put \<open>p\<close> into the buffer and returned \<open>len\<close>; 0 is a hangup. The protocols of the table are
  tried in order, those that are not enabled are passed over. \<open>cbcp_input\<close> can end the link.
\<close>

definition net_input :: "'n protent \<Rightarrow> int \<Rightarrow> u8 list \<Rightarrow> int \<Rightarrow> 'n lcp_sys \<Rightarrow> 'n lcp_sys" where
  "net_input pe unit p len s = on_world (net_do (pe_input pe (f_unit s) unit p len)) s"

definition cbcp_packet :: "'n protents \<Rightarrow> u8 list \<Rightarrow> int \<Rightarrow> 'n lcp_sys \<Rightarrow> 'n lcp_sys" where
  "cbcp_packet N p len s =
     (let (done, n) = net_cbcp_input N (f_unit s) p len (lw_net (world s));
          s = on_world (\<lambda>w. w\<lparr>lw_net := n\<rparr>) s
      in if done
         then on_world (set_phase (f_unit s) PHASE_TERMINATE) (lcp_close N ''callback initiated successfully'' s)
         else s)"

definition demux_input :: "'n protents \<Rightarrow> u16 \<Rightarrow> u8 list \<Rightarrow> int \<Rightarrow> 'n lcp_sys \<Rightarrow> 'n lcp_sys option" where
  "demux_input N protocol p len s =
     (let l = lw_lns (world s) (f_unit s);
          data = (\<lambda>pe proto. pe_enabled pe \<and> protocol = proto AND NOT 0x8000 \<and> pe_datainput pe \<noteq> None);
          feed = (\<lambda>pe. on_world (net_do (the (pe_datainput pe) (f_unit s) p len)) s)
      in if protocol = PPP_LCP then Some (lcp_input N p len s)
         else if protocol = PPP_PAP then Some (on_upap N (\<lambda>hk. upap_input hk p len) s)
         else if protocol = PPP_CHAP then Some (on_chap N (\<lambda>hk. ChapInput hk p len) s)
         else if protocol = PPP_CBCP \<and> pe_enabled (net_cbcp N) then Some (cbcp_packet N p len s)
         else if protocol = PPP_IPCP \<and> pe_enabled (net_ipcp N) then Some (net_input (net_ipcp N) (ls_ipcp_unit l) p len s)
         else if protocol = PPP_CCP \<and> pe_enabled (net_ccp N) then Some (net_input (net_ccp N) (ls_ccp_unit l) p len s)
         else if data (net_ccp N) PPP_CCP then Some (feed (net_ccp N))
         else if protocol = PPP_LINK_CCP \<and> pe_enabled (net_ccp_link N)
         then Some (net_input (net_ccp_link N) (ls_ccp_l_unit l) p len s)
         else if data (net_ccp_link N) PPP_LINK_CCP then Some (feed (net_ccp_link N))
         else if protocol = PPP_IPXCP \<and> pe_enabled (net_ipxcp N) then Some (net_input (net_ipxcp N) (ls_ipxcp_unit l) p len s)
         else None)"

definition get_input :: "'n protents \<Rightarrow> u8 list \<Rightarrow> int \<Rightarrow> 'n lcp_sys \<Rightarrow> 'n lcp_sys" where
  "get_input N p len s =
     (if len < 0 then s
      else if len = 0 then on_world (link_terminated (f_unit s)) s
      else if len < PPP_HDRLEN then s
      else case p of
        _ # _ # hi # lo # q \<Rightarrow>
          let protocol = join16 hi lo; n = len - PPP_HDRLEN
          in if protocol \<noteq> PPP_LCP \<and> f_state s \<noteq> OPENED then s
             else case demux_input N protocol q n s of
                    Some t \<Rightarrow> t
                  | None \<Rightarrow> lcp_sprotrej p (n + PPP_HDRLEN) s
      | _ \<Rightarrow> s\<lparr>ub := True\<rparr>)"

section \<open>Events\<close>

text \<open>The timers fire only while their entry is on the callout list, which takes it off.\<close>

datatype link_event =
    LkPacket "u8 list" int | LkOpen | LkClose string | LkLowerUp | LkLowerDown
  | LkFsmTimer | LkEchoTimer | LkIdleTimer | LkUpapTimer | LkUpapReqTimer | LkChapTimer chap_event

fun link_step :: "'n protents \<Rightarrow> link_event \<Rightarrow> 'n lcp_sys \<Rightarrow> 'n lcp_sys" where
  "link_step N (LkPacket p len) s = get_input N p len s"
| "link_step N LkOpen s = lcp_open N s"
| "link_step N (LkClose r) s = lcp_close N r s"
| "link_step N LkLowerUp s = lcp_lowerup N s"
| "link_step N LkLowerDown s = lcp_lowerdown N s"
| "link_step N LkFsmTimer s = fsm_step (lcp_callbacks N) Timeout s"
| "link_step N LkEchoTimer s =
     (if lw_echo_timers (world s) = 0 then s
      else LcpEchoTimeout N (on_world (\<lambda>w. w\<lparr>lw_echo_timers := lw_echo_timers w - 1\<rparr>) s))"
| "link_step N LkIdleTimer s =
     (if lw_idle_timers (world s) = 0 then s
      else IdleTimeCheck N (on_world (\<lambda>w. w\<lparr>lw_idle_timers := lw_idle_timers w - 1\<rparr>) s))"
| "link_step N LkUpapTimer s = on_upap N (\<lambda>hk. upap_step hk UpapTimeout) s"
| "link_step N LkUpapReqTimer s = on_upap N (\<lambda>hk. upap_step hk UpapReqTimeout) s"
| "link_step N (LkChapTimer e) s =
     (if e \<in> {ChapChalTimer, ChapRespTimer, ChapRechalTimer} then on_chap N (\<lambda>hk. chap_step hk e) s else s)"

inductive link_reaches :: "'n protents \<Rightarrow> 'n lcp_sys \<Rightarrow> 'n lcp_sys \<Rightarrow> bool" for N s0 where
  start: "link_reaches N s0 s0"
| step: "link_reaches N s0 s \<Longrightarrow> link_reaches N s0 (link_step N e s)"

section \<open>No network phase before authentication\<close>

definition phases_ok :: "'n lcp_world \<Rightarrow> bool" where
  "phases_ok w \<longleftrightarrow> (\<forall>v. ls_phase (lw_lns w v) \<in> {PHASE_NETWORK, PHASE_CALLBACK} \<longrightarrow> ls_auth_pending (lw_lns w v) = 0)"

text \<open>An update that writes neither the phase nor the pending bits of any link.\<close>

definition same_phases :: "'n lcp_world \<Rightarrow> 'n lcp_world \<Rightarrow> bool" where
  "same_phases w w' \<longleftrightarrow> (\<forall>v. ls_phase (lw_lns w' v) = ls_phase (lw_lns w v)
     \<and> ls_auth_pending (lw_lns w' v) = ls_auth_pending (lw_lns w v))"

lemma same_phases_refl [simp]: "same_phases w w"
  by (simp add: same_phases_def)

lemma same_phases_set [simp]:
  "(\<And>l. ls_phase (g l) = ls_phase l \<and> ls_auth_pending (g l) = ls_auth_pending l) \<Longrightarrow>
     same_phases v (set_link i g w) = same_phases v w"
  by (auto simp: same_phases_def set_link_def)

lemma same_phases_simps [simp]:
  "same_phases v (lcp_do c w) = same_phases v w" "same_phases v (net_do h w) = same_phases v w"
  "same_phases v (auth_script i sc r w) = same_phases v w"
  "same_phases v (w\<lparr>lw_ub := b\<rparr>) = same_phases v w" "same_phases v (w\<lparr>lw_net := n\<rparr>) = same_phases v w"
  "same_phases v (w\<lparr>lw_got := x, lw_his := y\<rparr>) = same_phases v w" "same_phases v (w\<lparr>lw_got := x\<rparr>) = same_phases v w"
  "same_phases v (w\<lparr>lw_his := y\<rparr>) = same_phases v w" "same_phases v (w\<lparr>lw_allow := y\<rparr>) = same_phases v w"
  "same_phases v (w\<lparr>lw_upap := u\<rparr>) = same_phases v w" "same_phases v (w\<lparr>lw_chap := c'\<rparr>) = same_phases v w"
  "same_phases v (w\<lparr>lw_drawn := k\<rparr>) = same_phases v w"
  by (simp_all add: same_phases_def lcp_do_def net_do_def auth_script_def Let_def)

lemma phases_ok_same: "same_phases w w' \<Longrightarrow> phases_ok w' = phases_ok w"
  by (simp add: same_phases_def phases_ok_def)

lemma phases_ok_set_link [simp]:
  "(\<And>l. ls_phase (g l) = ls_phase l \<and> ls_auth_pending (g l) = ls_auth_pending l) \<Longrightarrow>
     phases_ok (set_link i g w) = phases_ok w"
  by (rule phases_ok_same) simp

lemma phases_ok_simps [simp]:
  "phases_ok (lcp_do c w) = phases_ok w" "phases_ok (net_do h w) = phases_ok w"
  "phases_ok (auth_script i sc r w) = phases_ok w"
  "phases_ok (w\<lparr>lw_ub := b\<rparr>) = phases_ok w" "phases_ok (w\<lparr>lw_net := n\<rparr>) = phases_ok w"
  "phases_ok (w\<lparr>lw_got := x, lw_his := y\<rparr>) = phases_ok w" "phases_ok (w\<lparr>lw_got := x\<rparr>) = phases_ok w"
  "phases_ok (w\<lparr>lw_his := y\<rparr>) = phases_ok w" "phases_ok (w\<lparr>lw_allow := y\<rparr>) = phases_ok w"
  "phases_ok (w\<lparr>lw_upap := u\<rparr>) = phases_ok w" "phases_ok (w\<lparr>lw_chap := c'\<rparr>) = phases_ok w"
  "phases_ok (w\<lparr>lw_drawn := k\<rparr>) = phases_ok w"
  by (simp_all add: phases_ok_def lcp_do_def net_do_def auth_script_def Let_def)

lemma phases_ok_phase [simp]:
  "ph \<notin> {PHASE_NETWORK, PHASE_CALLBACK} \<Longrightarrow> phases_ok w \<Longrightarrow> phases_ok (set_phase i ph w)"
  by (auto simp: phases_ok_def set_phase_def set_link_def)

lemma phases_ok_terminated: "phases_ok w \<Longrightarrow> phases_ok (link_terminated i w)"
  by (simp add: link_terminated_def Let_def)

lemma phases_ok_down: "phases_ok w \<Longrightarrow> phases_ok (link_down N i w)"
  by (simp add: link_down_def link_last_down_def link_unbundle_def Let_def split: option.split)

text \<open>Entering the network or callback phase, with nothing pending.\<close>

lemma phases_ok_enter:
  "ls_auth_pending (lw_lns w i) = 0 \<Longrightarrow> phases_ok w \<Longrightarrow> phases_ok (set_phase i ph w)"
  by (auto simp: phases_ok_def set_phase_def set_link_def)

lemma same_phases_up [simp]:
  "same_phases v (link_ipcp_up N l w) = same_phases v w"
  "(\<And>u k. ls_phase (st u k) = ls_phase k \<and> ls_auth_pending (st u k) = ls_auth_pending k) \<Longrightarrow>
     same_phases v (link_other_up pe st l w) = same_phases v w"
  by (simp_all add: link_ipcp_up_def link_other_up_def Let_def case_prod_beta split: option.split list.split)

lemma phases_ok_bundle:
  "ls_auth_pending (lw_lns w l) = 0 \<Longrightarrow> phases_ok w \<Longrightarrow> phases_ok (snd (bundle_loop n i l w))"
proof (induction n i l w rule: bundle_loop.induct)
  case (2 n i l w)
  have "phases_ok (join_bundle l (int i) w)"
    using 2 by (auto simp: join_bundle_def phases_ok_def set_link_def lcp_do_def Let_def)
  then show ?case using 2 by simp
qed simp

lemma bundle_loop_none: "fst (bundle_loop n i l w) \<Longrightarrow> snd (bundle_loop n i l w) = w"
  by (induction n i l w rule: bundle_loop.induct) (auto split: if_splits)

lemma phases_ok_network:
  assumes "ls_auth_pending (lw_lns w l) = 0" "phases_ok w"
  shows "phases_ok (network_phase N l w)"
proof -
  define w1 where "w1 = w\<lparr>lw_got := (lw_got w)(ls_lcp_unit (lw_lns w l) := mp_flags (lw_got w (ls_lcp_unit (lw_lns w l)))),
      lw_his := (lw_his w)(ls_lcp_unit (lw_lns w l) := mp_flags (lw_his w (ls_lcp_unit (lw_lns w l))))\<rparr>"
  have ok1: "ls_auth_pending (lw_lns w1 l) = 0" "phases_ok w1" using assms by (simp_all add: w1_def)
  have up: "phases_ok (set_phase l PHASE_NETWORK x)" if "same_phases w1 x" for x
    using that ok1 phases_ok_same [OF that] by (intro phases_ok_enter) (simp_all add: same_phases_def)
  have other: "phases_ok (link_other_up pe st l x) = phases_ok x"
    if "\<And>u k. ls_phase (st u k) = ls_phase k \<and> ls_auth_pending (st u k) = ls_auth_pending k" for pe st x
    using that by (intro phases_ok_same) simp
  obtain b x where bl: "bundle_loop (lc_numdev (lw_cfg w1)) 0 l w1 = (b, x)" by (metis surj_pair)
  have x: "phases_ok x" "b \<Longrightarrow> x = w1"
    using phases_ok_bundle [OF ok1, of "lc_numdev (lw_cfg w1)" 0] bundle_loop_none [of "lc_numdev (lw_cfg w1)" 0 l w1]
    by (simp_all add: bl)
  show ?thesis
    unfolding network_phase_def w1_def [symmetric] Let_def
    using x ok1 by (simp add: other up bl)
qed

lemma phases_ok_callback:
  assumes "ls_auth_pending (lw_lns w l) = 0" "phases_ok w"
  shows "phases_ok (callback_phase N l w)"
proof -
  have "phases_ok (set_link l (\<lambda>k. k\<lparr>ls_phase := PHASE_CALLBACK, ls_cbcp_unit := l\<rparr>) w)"
    using assms by (auto simp: phases_ok_def set_link_def)
  then show ?thesis
    using assms by (simp add: callback_phase_def Let_def phases_ok_network)
qed

lemma phases_ok_done:
  assumes "phases_ok w"
  shows "phases_ok (auth_done N l b w)"
proof -
  have "phases_ok (set_link l (\<lambda>k. k\<lparr>ls_auth_pending := ls_auth_pending k AND NOT b\<rparr>) w)"
    using assms by (auto simp: phases_ok_def set_link_def)
  then show ?thesis
    by (simp add: auth_done_def Let_def phases_ok_callback)
qed

lemma phases_ok_success:
  "phases_ok w \<Longrightarrow> phases_ok (link_peer_success N l p w)" "phases_ok w \<Longrightarrow> phases_ok (link_withpeer_success N l p w)"
  by (simp_all add: link_peer_success_def link_withpeer_success_def phases_ok_done)

section \<open>Every event keeps the invariant\<close>

lemma phases_ok_echo [simp]:
  "phases_ok (w\<lparr>lw_echo_timers := a, lw_echo_running := b\<rparr>) = phases_ok w"
  "phases_ok (w\<lparr>lw_idle_timers := a, lw_idle_running := b\<rparr>) = phases_ok w"
  "phases_ok (w\<lparr>lw_echos_pending := c\<rparr>) = phases_ok w" "phases_ok (w\<lparr>lw_echo_number := c\<rparr>) = phases_ok w"
  "phases_ok (w\<lparr>lw_echos_pending := c, lw_echo_number := d, lw_echo_running := b\<rparr>) = phases_ok w"
  "phases_ok (w\<lparr>lw_aborted := b\<rparr>) = phases_ok w" "phases_ok (w\<lparr>lw_asked := a\<rparr>) = phases_ok w"
  "phases_ok (w\<lparr>lw_echo_running := b\<rparr>) = phases_ok w" "phases_ok (w\<lparr>lw_idle_running := b\<rparr>) = phases_ok w"
  "phases_ok (w\<lparr>lw_echo_timers := a\<rparr>) = phases_ok w" "phases_ok (w\<lparr>lw_idle_timers := a\<rparr>) = phases_ok w"
  "phases_ok (w\<lparr>lw_drawn := a, lw_want := x, lw_got := y\<rparr>) = phases_ok w"
  "phases_ok (w\<lparr>lw_drawn := a, lw_want := x\<rparr>) = phases_ok w"
  "phases_ok (w\<lparr>lw_his := y, lw_drawn := a\<rparr>) = phases_ok w"
  by (simp_all add: phases_ok_def)

lemma phases_ok_lcp_down: "phases_ok (world s) \<Longrightarrow> phases_ok (world (lcp_down N s))"
  by (simp add: lcp_down_def Let_def lcp_echo_lowerdown_def phases_ok_down)

lemma phases_ok_finished: "phases_ok (world s) \<Longrightarrow> phases_ok (world (lcp_finished s))"
  by (simp add: lcp_finished_def phases_ok_terminated)

interpretation lcpbw: fsm_world "lcp_base N" phases_ok
  by unfold_locales (auto simp: lcp_base_def phases_ok_lcp_down phases_ok_finished lcp_starting_def)

lemma phases_ok_close: "phases_ok (world s) \<Longrightarrow> phases_ok (world (lcp_close N r s))"
  by (simp add: lcp_close_def phases_ok_finished lcpbw.close_P)

lemma phases_ok_send_echo: "phases_ok (world s) \<Longrightarrow> phases_ok (world (LcpSendEchoRequest N s))"
  by (simp add: LcpSendEchoRequest_def LcpLinkFailure_def Let_def phases_ok_close)

lemma phases_ok_arm [simp]: "phases_ok (arm_echo w) = phases_ok w" "phases_ok (arm_idle w) = phases_ok w"
  by (simp_all add: arm_echo_def arm_idle_def)

lemma phases_ok_echo_check: "phases_ok (world s) \<Longrightarrow> phases_ok (world (LcpEchoCheck N s))"
  by (simp add: LcpEchoCheck_def ask_idle_def Let_def phases_ok_send_echo split: option.split)

lemma phases_ok_idle_check: "phases_ok (world s) \<Longrightarrow> phases_ok (world (RestartIdleTimer N s))"
  by (simp add: RestartIdleTimer_def ask_idle_def Let_def phases_ok_close split: option.split)

lemma phases_ok_echo_lowerup: "phases_ok (world s) \<Longrightarrow> phases_ok (world (lcp_echo_lowerup N s))"
  by (simp add: lcp_echo_lowerup_def Let_def phases_ok_echo_check phases_ok_idle_check)

lemma phases_ok_link_auth: "phases_ok (world s) \<Longrightarrow> phases_ok (world (fst (link_auth s)))"
  by (simp add: link_auth_def Let_def)

lemma phases_ok_refused: "phases_ok (world s) \<Longrightarrow> phases_ok (world (snd (link_refused s)))"
  by (simp add: link_refused_def null_login_def Let_def case_prod_beta split: option.split)

lemma link_auth_lns [simp]: "lw_lns (world (fst (link_auth s))) = lw_lns (world s)"
  by (simp add: link_auth_def Let_def)

lemma phases_ok_established:
  assumes "phases_ok (world s)"
  shows "phases_ok (world (link_established N s))"
proof -
  obtain r t where r: "link_refused s = (r, t)" by (metis surj_pair)
  have t: "phases_ok (world t)" using phases_ok_refused [OF assms] r by simp
  define t1 where "t1 = on_world (set_phase (f_unit s) PHASE_AUTHENTICATE) t"
  obtain t2 auth where a: "link_auth t1 = (t2, auth)" by (metis surj_pair)
  have lns: "lw_lns (world t2) = lw_lns (world t1)" using link_auth_lns [of t1] a by simp
  have "phases_ok (world t2)" using phases_ok_link_auth [of t1] t a by (simp add: t1_def)
  moreover have "ls_phase (lw_lns (world t2) (f_unit s)) = PHASE_AUTHENTICATE"
    unfolding lns by (simp add: t1_def set_phase_def set_link_def)
  ultimately have "phases_ok (set_link (f_unit s) (\<lambda>l. l\<lparr>ls_auth_pending := auth\<rparr>) (world t2))"
    by (auto simp: phases_ok_def set_link_def)
  moreover have "ls_auth_pending (lw_lns (set_link (f_unit s) (\<lambda>l. l\<lparr>ls_auth_pending := auth\<rparr>) (world t2)) (f_unit s)) = auth"
    by (simp add: set_link_def)
  ultimately show ?thesis
    using t phases_ok_callback [of "set_link (f_unit s) (\<lambda>l. l\<lparr>ls_auth_pending := auth\<rparr>) (world t2)" "f_unit s" N]
    by (cases "auth = 0") (simp_all add: link_established_def r a Let_def phases_ok_close t1_def [symmetric])
qed

lemma phases_ok_lcp_up: "phases_ok (world s) \<Longrightarrow> phases_ok (world (lcp_up N s))"
  unfolding lcp_up_def Let_def
  by (rule phases_ok_established, rule phases_ok_echo_lowerup) (simp add: lcp_up_config_def lcp_up_magic_def Let_def)

lemma phases_ok_peer_fail: "phases_ok (world s) \<Longrightarrow> phases_ok (world (link_peer_fail N i r s))"
  by (simp add: link_peer_fail_def Let_def phases_ok_close)

lemma phases_ok_check: "phases_ok (world s) \<Longrightarrow> phases_ok (world (snd (snd (link_check_passwd N i n p s))))"
  by (simp add: link_check_passwd_def Let_def case_prod_beta phases_ok_close)

lemma phases_ok_store [simp]:
  "phases_ok (world (upap_store u)) = phases_ok (world (u_world u))"
  "phases_ok (world (chap_store c)) = phases_ok (world (ch_world c))"
  by (simp_all add: upap_store_def chap_store_def)

abbreviation sys_phases_ok :: "'n lcp_sys \<Rightarrow> bool" where
  "sys_phases_ok s \<equiv> phases_ok (world s)"

interpretation luaw: upap_world "link_upap_hooks N" sys_phases_ok
  by unfold_locales
    (simp_all add: link_upap_hooks_def upap_lift_def link_withpeer_fail_def phases_ok_success phases_ok_peer_fail
      phases_ok_check link_set_userip_def case_prod_beta split: option.split)

interpretation lchw: chap_world "link_chap_hooks env N" sys_phases_ok
  by unfold_locales
    (simp_all add: chap_lift_def link_withpeer_fail_def phases_ok_success phases_ok_peer_fail
      link_get_secret_def link_set_userip_def split: option.split)

lemma phases_ok_on_upap: "sys_phases_ok s \<Longrightarrow> sys_phases_ok (on_upap N (\<lambda>hk. upap_step hk e) s)"
  by (simp add: on_upap_def luaw.upap_step_P)

lemma phases_ok_on_chap: "sys_phases_ok s \<Longrightarrow> sys_phases_ok (on_chap N (\<lambda>hk. chap_step hk e) s)"
  by (simp add: on_chap_def lchw.chap_step_P)

lemma phases_ok_auth_input:
  "sys_phases_ok s \<Longrightarrow> sys_phases_ok (on_upap N upap_protrej s)"
  "sys_phases_ok s \<Longrightarrow> sys_phases_ok (on_chap N ChapProtocolReject s)"
  "sys_phases_ok s \<Longrightarrow> sys_phases_ok (on_upap N (\<lambda>hk. upap_input hk p l) s)"
  "sys_phases_ok s \<Longrightarrow> sys_phases_ok (on_chap N (\<lambda>hk. ChapInput hk p l) s)"
  using phases_ok_on_upap [of s N UpapProtRej] phases_ok_on_chap [of s N ChapProtRej]
    phases_ok_on_upap [of s N "UpapInput p l"] phases_ok_on_chap [of s N "ChapPacket p l"]
  by (simp_all add: on_upap_def on_chap_def)

lemmas auth_steps = phases_ok_auth_input phases_ok_on_upap phases_ok_on_chap

lemma phases_ok_demuxprotrej: "sys_phases_ok s \<Longrightarrow> sys_phases_ok (demuxprotrej N p s)"
  by (simp add: demuxprotrej_def Let_def lcp_protrej_def lcpbw.protreject_P auth_steps)

lemma phases_ok_extcode: "sys_phases_ok s \<Longrightarrow> sys_phases_ok (snd (lcp_extcode N c i p n s))"
  by (simp add: lcp_extcode_def lcp_rprotrej_def lcp_received_echo_reply_def Let_def phases_ok_demuxprotrej
      split: outcome.split prod.split)

lemma phases_ok_got [simp]: "phases_ok (set_got i o' w) = phases_ok w"
  by (simp add: set_got_def)

lemma phases_ok_nakci: "sys_phases_ok s \<Longrightarrow> sys_phases_ok (snd (lcp_cb_nakci N p n s))"
  by (simp add: lcp_cb_nakci_def lcp_nakci_update_def Let_def phases_ok_close split: nak_result.split)

interpretation lcpw: fsm_world "lcp_callbacks N" phases_ok
  by unfold_locales
    (auto simp: lcp_callbacks_def phases_ok_lcp_down phases_ok_finished lcp_starting_def phases_ok_lcp_up phases_ok_nakci
      phases_ok_extcode lcp_resetci_def lcp_cb_cilen_def lcp_cb_addci_def lcp_cb_ackci_def lcp_cb_rejci_def
      lcp_cb_reqci_def Let_def split: outcome.split)

lemma phases_ok_input: "sys_phases_ok s \<Longrightarrow> sys_phases_ok (get_input N p len s)"
proof -
  assume s: "sys_phases_ok s"
  have c: "sys_phases_ok (cbcp_packet N q n s)" for q n
    using s by (simp add: cbcp_packet_def Let_def case_prod_beta phases_ok_close)
  have d: "sys_phases_ok t" if "demux_input N pr q n s = Some t" for pr q n t
    using that s c lcpw.input_P [OF s, of N q n]
    by (auto simp: demux_input_def Let_def lcp_input_def net_input_def auth_steps split: if_splits)
  show ?thesis
    using s d by (simp add: get_input_def Let_def phases_ok_terminated lcp_sprotrej_def split: list.split option.split)
qed

lemma link_step_phases: "sys_phases_ok s \<Longrightarrow> sys_phases_ok (link_step N e s)"
proof (cases e)
  case (LkPacket p l)
  assume "sys_phases_ok s"
  then show ?thesis using LkPacket phases_ok_input by simp
next
  case LkFsmTimer
  assume "sys_phases_ok s"
  then show ?thesis using LkFsmTimer lcpw.step_P by (simp del: fsm_step.simps)
qed (simp_all add: lcp_open_def lcp_lowerup_def lcp_lowerdown_def lcpw.open_P lcpw.lowerup_P lcpw.lowerdown_P
    phases_ok_close LcpEchoTimeout_def IdleTimeCheck_def phases_ok_echo_check phases_ok_idle_check auth_steps Let_def
    del: upap_step.simps chap_step.simps)

theorem link_reaches_phases: "link_reaches N s0 s \<Longrightarrow> sys_phases_ok s0 \<Longrightarrow> sys_phases_ok s"
  by (induction rule: link_reaches.induct) (simp_all add: link_step_phases)

end
