(* ===== verification/Link_Inv.thy ===== *)
theory Link_Inv
  imports Link_Machine
begin

text \<open>
  Invariants of the PAP and CHAP state of a link. They run on their own, are taken up and down by LCP and
  told by \<open>link_established\<close> what to do; whatever the functions of auth.c do, they leave the protocols alone
  or take them down (\<open>auth_or_down\<close>). So it is enough that an invariant is kept by each protocol for itself:
  that is the contract \<open>auth_inv\<close>, and its theorem is that all events of the link keep it.
\<close>

section \<open>What the functions of auth.c do to the other protocol\<close>

lemma link_set_userip_same: "same_auth (world s) (world (link_set_userip N n s))"
  by (simp add: link_set_userip_def split: option.split)

lemma link_get_secret_same: "same_auth (world s) (world (snd (link_get_secret i n m b s)))"
  by (simp add: link_get_secret_def split: option.split)

lemma success_same:
  "auth_or_down s (on_world (link_peer_success N l p) s)" "auth_or_down s (on_world (link_withpeer_success N l p) s)"
  by (rule same_auth_or_down, simp add: same_auth_success)+

lemmas auth_hook_rules = link_peer_fail_down link_check_passwd_down lcp_close_down lcp_down_down success_same
  same_auth_or_down [OF link_withpeer_fail_down]
  same_auth_or_down [OF link_set_userip_same] same_auth_or_down [OF link_get_secret_same]

lemma store_cfg [simp]:
  "lw_cfg (world (upap_store u)) = lw_cfg (world (u_world u))" "lw_cfg (world (chap_store c)) = lw_cfg (world (ch_world c))"
  by (simp_all add: upap_store_def chap_store_def)

lemma upap_with_unit [simp]: "upap_with () u = u" for u :: "unit upap_sys"
  using upap_with_self [of u] by (simp add: unit_eq)

lemma chap_with_unit [simp]: "chap_with () c = c" for c :: "unit chap_sys"
  using chap_with_self [of c] by (simp add: unit_eq)

section \<open>The invariant on the link\<close>

text \<open>\<open>E\<close> holds of the configuration, \<open>U\<close> of PAP, \<open>C\<close> of CHAP.\<close>

definition auth_holds :: "(link_config \<Rightarrow> bool) \<Rightarrow> (unit upap_sys \<Rightarrow> bool) \<Rightarrow> (unit chap_sys \<Rightarrow> bool) \<Rightarrow> 'n lcp_world \<Rightarrow> bool" where
  "auth_holds E U C w \<longleftrightarrow> E (lw_cfg w) \<and> U (lw_upap w) \<and> C (lw_chap w)"

text \<open>The part that the hooks of the other protocol see.\<close>

definition chap_beside :: "(link_config \<Rightarrow> bool) \<Rightarrow> (unit chap_sys \<Rightarrow> bool) \<Rightarrow> 'n lcp_sys \<Rightarrow> bool" where
  "chap_beside E C s \<longleftrightarrow> E (lw_cfg (world s)) \<and> C (lw_chap (world s))"

definition upap_beside :: "(link_config \<Rightarrow> bool) \<Rightarrow> (unit upap_sys \<Rightarrow> bool) \<Rightarrow> 'n lcp_sys \<Rightarrow> bool" where
  "upap_beside E U s \<longleftrightarrow> E (lw_cfg (world s)) \<and> U (lw_upap (world s))"

lemma beside_store [simp]:
  "chap_beside E C (upap_store u) = chap_beside E C (u_world u)" "upap_beside E U (chap_store c) = upap_beside E U (ch_world c)"
  by (simp_all add: chap_beside_def upap_beside_def)

lemma holds_small [simp]:
  "auth_holds E U C (set_link i g w) = auth_holds E U C w" "auth_holds E U C (set_phase i ph w) = auth_holds E U C w"
  "auth_holds E U C (lcp_do cl w) = auth_holds E U C w" "auth_holds E U C (net_do h w) = auth_holds E U C w"
  "auth_holds E U C (auth_script i sc r w) = auth_holds E U C w" "auth_holds E U C (link_terminated i w) = auth_holds E U C w"
  "auth_holds E U C (w\<lparr>lw_net := n\<rparr>) = auth_holds E U C w" "auth_holds E U C (w\<lparr>lw_allow := y\<rparr>) = auth_holds E U C w"
  "auth_holds E U C (w\<lparr>lw_his := y\<rparr>) = auth_holds E U C w" "auth_holds E U C (w\<lparr>lw_got := y\<rparr>) = auth_holds E U C w"
  "auth_holds E U C (w\<lparr>lw_drawn := k\<rparr>) = auth_holds E U C w" "auth_holds E U C (w\<lparr>lw_asked := a\<rparr>) = auth_holds E U C w"
  "auth_holds E U C (w\<lparr>lw_drawn := a, lw_want := x, lw_got := y\<rparr>) = auth_holds E U C w"
  "auth_holds E U C (w\<lparr>lw_drawn := a, lw_want := x\<rparr>) = auth_holds E U C w"
  "auth_holds E U C (w\<lparr>lw_his := y, lw_drawn := a\<rparr>) = auth_holds E U C w"
  "auth_holds E U C (w\<lparr>lw_echos_pending := c\<rparr>) = auth_holds E U C w" "auth_holds E U C (w\<lparr>lw_echo_number := c\<rparr>) = auth_holds E U C w"
  "auth_holds E U C (w\<lparr>lw_echos_pending := c, lw_echo_number := d, lw_echo_running := b\<rparr>) = auth_holds E U C w"
  "auth_holds E U C (w\<lparr>lw_echo_timers := a\<rparr>) = auth_holds E U C w" "auth_holds E U C (w\<lparr>lw_idle_timers := a\<rparr>) = auth_holds E U C w"
  "auth_holds E U C (w\<lparr>lw_echo_running := b\<rparr>) = auth_holds E U C w" "auth_holds E U C (w\<lparr>lw_idle_running := b\<rparr>) = auth_holds E U C w"
  "auth_holds E U C (arm_echo w) = auth_holds E U C w" "auth_holds E U C (arm_idle w) = auth_holds E U C w"
  "auth_holds E U C (set_got i o' w) = auth_holds E U C w" "auth_holds E U C (lcp_up_config q i w) = auth_holds E U C w"
  "auth_holds E U C (lcp_up_magic i w) = auth_holds E U C w"
  by (simp_all add: auth_holds_def set_link_def set_phase_def lcp_do_def net_do_def auth_script_def link_terminated_def
      arm_echo_def arm_idle_def set_got_def lcp_up_config_def lcp_up_magic_def Let_def)

section \<open>The contract\<close>

locale auth_inv =
  fixes N :: "'n protents" and E :: "link_config \<Rightarrow> bool" and U :: "unit upap_sys \<Rightarrow> bool" and C :: "unit chap_sys \<Rightarrow> bool"
  assumes U_down: "U u \<Longrightarrow> U (upap_lowerdown u)" and C_down: "C c \<Longrightarrow> C (ChapLowerDown c)"
    and U_up: "U u \<Longrightarrow> U (upap_lowerup u)" and C_up: "E cfg \<Longrightarrow> C c \<Longrightarrow> C (ChapLowerUp (lc_chap cfg) c)"
    and U_auth: "U u \<Longrightarrow> U (upap_authpeer u)" and C_auth: "E cfg \<Longrightarrow> C c \<Longrightarrow> C (ChapAuthPeer (lc_chap cfg) n d c)"
    and U_with: "U u \<Longrightarrow> U (upap_authwithpeer n p u)" and C_with: "C c \<Longrightarrow> C (ChapAuthWithPeer n d c)"
    and U_step: "U (upap_with () v) \<Longrightarrow> U (upap_with () (upap_step (link_upap_hooks N) e v))"
    and C_step: "E cfg \<Longrightarrow> C (chap_with () v') \<Longrightarrow> C (chap_with () (chap_step (link_chap_hooks (lc_chap cfg) N) e' v'))"
begin

lemma holds_same: "same_auth w x \<Longrightarrow> auth_holds E U C x = auth_holds E U C w"
  by (simp add: same_auth_def auth_holds_def)

lemma holds_down: "auth_or_down s t \<Longrightarrow> auth_holds E U C (world s) \<Longrightarrow> auth_holds E U C (world t)"
  unfolding auth_or_down_def by (auto simp: U_down C_down auth_holds_def same_auth_def)

lemmas hook_holds = auth_hook_rules [THEN holds_down]

lemma beside_down:
  "auth_or_down s t \<Longrightarrow> chap_beside E C s \<Longrightarrow> chap_beside E C t" "auth_or_down s t \<Longrightarrow> upap_beside E U s \<Longrightarrow> upap_beside E U t"
  unfolding auth_or_down_def by (auto simp: U_down C_down chap_beside_def upap_beside_def same_auth_def)

lemmas chap_beside_hooks = auth_hook_rules [THEN beside_down(1)]
lemmas upap_beside_hooks = auth_hook_rules [THEN beside_down(2)]

lemma chap_beside_world: "upap_world (link_upap_hooks N) (chap_beside E C)"
  by unfold_locales
    (simp_all add: link_upap_hooks_def upap_lift_def chap_beside_hooks case_prod_beta)

lemma upap_beside_world: "chap_world (link_chap_hooks env N) (upap_beside E U)"
  by unfold_locales (simp_all add: chap_lift_def upap_beside_hooks)

lemma on_auth_keeps:
  assumes "auth_holds E U C (world s)"
  shows "auth_holds E U C (world (on_upap N (\<lambda>hk. upap_step hk e) s))" "auth_holds E U C (world (on_chap N (\<lambda>hk. chap_step hk e') s))"
proof -
  have b: "chap_beside E C (u_world (upap_view s))" "upap_beside E U (ch_world (chap_view s))"
    "U (upap_with () (upap_view s))" "C (chap_with () (chap_view s))" "E (lw_cfg (world s))"
    using assms by (simp_all add: auth_holds_def chap_beside_def upap_beside_def upap_view_def chap_view_def)
  show "auth_holds E U C (world (on_upap N (\<lambda>hk. upap_step hk e) s))"
    using upap_world.upap_step_P [OF chap_beside_world b(1), of e] U_step [OF b(3), of e]
    by (simp add: on_upap_def auth_holds_def chap_beside_def del: upap_step.simps)
  show "auth_holds E U C (world (on_chap N (\<lambda>hk. chap_step hk e') s))"
    using chap_world.chap_step_P [OF upap_beside_world b(2), of _ e'] C_step [OF b(5,4), of e']
    by (simp add: on_chap_def auth_holds_def upap_beside_def del: chap_step.simps)
qed

lemma on_auth_packet:
  assumes "auth_holds E U C (world s)"
  shows "auth_holds E U C (world (on_upap N upap_protrej s))" "auth_holds E U C (world (on_chap N ChapProtocolReject s))"
    "auth_holds E U C (world (on_upap N (\<lambda>hk. upap_input hk p l) s))" "auth_holds E U C (world (on_chap N (\<lambda>hk. ChapInput hk p l) s))"
  using on_auth_keeps(1) [OF assms, of UpapProtRej] on_auth_keeps(2) [OF assms, of ChapProtRej]
    on_auth_keeps(1) [OF assms, of "UpapInput p l"] on_auth_keeps(2) [OF assms, of "ChapPacket p l"]
  by (simp_all add: on_upap_def on_chap_def)

lemma callback_holds: "auth_holds E U C w \<Longrightarrow> auth_holds E U C (callback_phase N l w)"
  using holds_same [OF same_auth_callback] by blast

lemma down_holds: "auth_holds E U C (world s) \<Longrightarrow> auth_holds E U C (world (lcp_down N s))"
  by (rule holds_down [OF lcp_down_down])

lemma finished_holds: "auth_holds E U C (world s) \<Longrightarrow> auth_holds E U C (world (lcp_finished s))"
  by (simp add: lcp_finished_def)

lemma base_holds: "fsm_world (lcp_base N) (auth_holds E U C)"
  by unfold_locales (auto simp: lcp_base_def down_holds finished_holds lcp_starting_def)

lemma echo_check_holds:
  "auth_holds E U C (world s) \<Longrightarrow> auth_holds E U C (world (LcpEchoCheck N s))" "auth_holds E U C (world s) \<Longrightarrow> auth_holds E U C (world (RestartIdleTimer N s))"
  by (simp_all add: LcpEchoCheck_def RestartIdleTimer_def LcpSendEchoRequest_def LcpLinkFailure_def ask_idle_def
      Let_def hook_holds split: option.split)

lemma link_auth_holds: "auth_holds E U C (world s) \<Longrightarrow> auth_holds E U C (world (fst (link_auth s)))"
  by (simp add: link_auth_def auth_holds_def Let_def U_auth U_with C_auth C_with)

lemma refused_holds: "auth_holds E U C (world s) \<Longrightarrow> auth_holds E U C (world (snd (link_refused s)))"
  by (simp add: link_refused_def null_login_def Let_def case_prod_beta split: option.split)

lemma established_holds:
  assumes "auth_holds E U C (world s)"
  shows "auth_holds E U C (world (link_established N s))"
proof -
  have a: "auth_holds E U C (world (fst (link_auth (on_world (set_phase u ph) (snd (link_refused s))))))" for u ph
    by (rule link_auth_holds) (simp add: refused_holds [OF assms])
  show ?thesis
    using a refused_holds [OF assms]
    by (simp add: link_established_def Let_def case_prod_beta hook_holds callback_holds)
qed

lemma up_holds: "auth_holds E U C (world s) \<Longrightarrow> auth_holds E U C (world (lcp_up N s))"
proof -
  assume s: "auth_holds E U C (world s)"
  have e: "auth_holds E U C (world (lcp_echo_lowerup N t))" if "auth_holds E U C (world t)" for t
    using that by (simp add: lcp_echo_lowerup_def Let_def echo_check_holds)
  have u: "auth_holds E U C (w\<lparr>lw_chap := ChapLowerUp (lc_chap (lw_cfg w)) (lw_chap w), lw_upap := upap_lowerup (lw_upap w)\<rparr>)"
    if "auth_holds E U C w" for w :: "'n lcp_world"
    using that by (simp add: auth_holds_def U_up C_up)
  show ?thesis
    unfolding lcp_up_def Let_def by (rule established_holds, rule e) (simp add: u s)
qed

lemma extcode_holds: "auth_holds E U C (world s) \<Longrightarrow> auth_holds E U C (world (snd (lcp_extcode N c pid p n s)))"
  by (simp add: lcp_extcode_def lcp_rprotrej_def lcp_received_echo_reply_def demuxprotrej_def lcp_protrej_def Let_def
      fsm_world.protreject_P [OF base_holds] on_auth_packet split: outcome.split prod.split)

lemma callbacks_hold: "fsm_world (lcp_callbacks N) (auth_holds E U C)"
proof unfold_locales
  fix s :: "'n lcp_sys" and p n
  assume "auth_holds E U C (world s)"
  then show "nakci (lcp_callbacks N) = Some g \<Longrightarrow> auth_holds E U C (world (snd (g p n s)))" for g
    by (auto simp: lcp_callbacks_def lcp_cb_nakci_def lcp_nakci_update_def Let_def hook_holds split: nak_result.split)
qed (auto simp: lcp_callbacks_def down_holds finished_holds lcp_starting_def up_holds extcode_holds
    lcp_resetci_def lcp_cb_cilen_def lcp_cb_addci_def lcp_cb_ackci_def lcp_cb_rejci_def lcp_cb_reqci_def
    Let_def split: outcome.split)

lemma get_input_auth: "auth_holds E U C (world s) \<Longrightarrow> auth_holds E U C (world (get_input N p len s))"
proof -
  assume s: "auth_holds E U C (world s)"
  have d: "auth_holds E U C (world t)" if "demux_input N pr q n s = Some t" for pr q n t
    using that s fsm_world.input_P [OF callbacks_hold s, of q n]
    by (auto simp: demux_input_def Let_def lcp_input_def net_input_def cbcp_packet_def case_prod_beta on_auth_packet
        hook_holds split: if_splits)
  show ?thesis
    using s d by (simp add: get_input_def Let_def lcp_sprotrej_def split: list.split option.split)
qed

lemma link_step_auth: "auth_holds E U C (world s) \<Longrightarrow> auth_holds E U C (world (link_step N e s))"
proof (cases e)
  case LkFsmTimer
  assume "auth_holds E U C (world s)"
  then show ?thesis using LkFsmTimer fsm_world.step_P [OF callbacks_hold] by (simp del: fsm_step.simps)
qed (simp_all add: get_input_auth lcp_open_def lcp_lowerup_def lcp_lowerdown_def fsm_world.open_P [OF callbacks_hold] fsm_world.lowerup_P [OF callbacks_hold] fsm_world.lowerdown_P [OF callbacks_hold]
    hook_holds LcpEchoTimeout_def IdleTimeCheck_def echo_check_holds on_auth_keeps Let_def
    del: upap_step.simps chap_step.simps)

theorem link_reaches_auth:
  "link_reaches N s0 s \<Longrightarrow> auth_holds E U C (world s0) \<Longrightarrow> auth_holds E U C (world s)"
  by (induction rule: link_reaches.induct) (simp_all add: link_step_auth)

end

end
