(* ===== verification/Link_Auth.thy ===== *)
theory Link_Auth
  imports Link_Inv
begin

text \<open>
  Who takes a bit off \<open>auth_pending\<close>: the two functions for a success of the protocol it stands for, and
  otherwise only \<open>link_established\<close>, which sets all of it anew. With the contracts of PAP and CHAP this
  gives the events that let a peer in.
\<close>

section \<open>Functions that leave the pending bits alone\<close>

definition same_pending :: "'n lcp_world \<Rightarrow> 'n lcp_world \<Rightarrow> bool" where
  "same_pending w w' \<longleftrightarrow> (\<forall>v. ls_auth_pending (lw_lns w' v) = ls_auth_pending (lw_lns w v))"

lemma same_pending_refl [simp]: "same_pending w w"
  by (simp add: same_pending_def)

lemma same_pending_lns: "lw_lns w' = lw_lns w \<Longrightarrow> same_pending v w' = same_pending v w"
  by (simp add: same_pending_def)

lemma same_pending_set [simp]:
  "(\<And>l. ls_auth_pending (g l) = ls_auth_pending l) \<Longrightarrow> same_pending v (set_link i g w) = same_pending v w"
  "same_pending v (set_phase i ph w) = same_pending v w"
  by (auto simp: same_pending_def set_link_def set_phase_def)

lemma same_pending_small [simp]:
  "same_pending v (lcp_do c w) = same_pending v w" "same_pending v (net_do h w) = same_pending v w"
  "same_pending v (auth_script i sc r w) = same_pending v w" "same_pending v (w\<lparr>lw_ub := b\<rparr>) = same_pending v w"
  "same_pending v (w\<lparr>lw_net := n\<rparr>) = same_pending v w" "same_pending v (w\<lparr>lw_got := x, lw_his := y\<rparr>) = same_pending v w"
  "same_pending v (w\<lparr>lw_got := x\<rparr>) = same_pending v w" "same_pending v (w\<lparr>lw_his := y\<rparr>) = same_pending v w"
  "same_pending v (w\<lparr>lw_allow := y\<rparr>) = same_pending v w"
  "same_pending v (w\<lparr>lw_upap := u\<rparr>) = same_pending v w" "same_pending v (w\<lparr>lw_chap := c'\<rparr>) = same_pending v w"
  "same_pending v (w\<lparr>lw_drawn := k\<rparr>) = same_pending v w"
  "same_pending v (w\<lparr>lw_drawn := a, lw_want := p, lw_got := x\<rparr>) = same_pending v w"
  "same_pending v (w\<lparr>lw_his := y, lw_drawn := a\<rparr>) = same_pending v w"
  "same_pending v (lcp_echo_lowerdown w) = same_pending v w"
  "same_pending v (w\<lparr>lw_echos_pending := d\<rparr>) = same_pending v w"
  "same_pending v (w\<lparr>lw_echo_number := d\<rparr>) = same_pending v w"
  "same_pending v (w\<lparr>lw_asked := a\<rparr>) = same_pending v w"
  "same_pending v (w\<lparr>lw_echo_timers := a\<rparr>) = same_pending v w" "same_pending v (w\<lparr>lw_echo_running := b\<rparr>) = same_pending v w"
  "same_pending v (w\<lparr>lw_idle_timers := a\<rparr>) = same_pending v w" "same_pending v (w\<lparr>lw_idle_running := b\<rparr>) = same_pending v w"
  "same_pending v (arm_echo w) = same_pending v w" "same_pending v (arm_idle w) = same_pending v w"
  by (simp_all add: same_pending_def lcp_do_def net_do_def auth_script_def Let_def lcp_echo_lowerdown_def
      arm_echo_def arm_idle_def)

lemma same_pending_terminated [simp]: "same_pending v (link_terminated i w) = same_pending v w"
  by (simp add: link_terminated_def Let_def)

lemma same_pending_down [simp]: "same_pending v (link_down N i w) = same_pending v w"
  by (simp add: link_down_def link_last_down_def link_unbundle_def Let_def split: option.split)

lemma same_pending_bundle [simp]: "same_pending v (snd (bundle_loop n i l w)) = same_pending v w"
  by (induction n i l w rule: bundle_loop.induct) (simp_all add: join_bundle_def Let_def)

lemma same_pending_up [simp]:
  "same_pending v (link_ipcp_up N l w) = same_pending v w"
  "(\<And>u k. ls_auth_pending (st u k) = ls_auth_pending k) \<Longrightarrow> same_pending v (link_other_up pe st l w) = same_pending v w"
  by (simp_all add: link_ipcp_up_def link_other_up_def Let_def case_prod_beta split: option.split list.split)

lemma same_pending_network [simp]: "same_pending v (network_phase N l w) = same_pending v w"
  by (simp add: network_phase_def Let_def case_prod_beta)

lemma same_pending_callback [simp]: "same_pending v (callback_phase N l w) = same_pending v w"
  by (simp add: callback_phase_def Let_def)

lemma same_pending_lcp_down: "same_pending v (world s) \<Longrightarrow> same_pending v (world (lcp_down N s))"
  by (simp add: lcp_down_def Let_def)

lemma same_pending_finished: "same_pending v (world s) \<Longrightarrow> same_pending v (world (lcp_finished s))"
  by (simp add: lcp_finished_def)

interpretation lcpbp: fsm_world "lcp_base N" "same_pending v"
  by unfold_locales (auto simp: lcp_base_def same_pending_lcp_down same_pending_finished lcp_starting_def)

lemma same_pending_close: "same_pending v (world s) \<Longrightarrow> same_pending v (world (lcp_close N r s))"
  by (simp add: lcp_close_def same_pending_finished lcpbp.close_P)

lemma same_pending_fail:
  "same_pending v (world s) \<Longrightarrow> same_pending v (world (link_peer_fail N i r s))"
  "same_pending v (world s) \<Longrightarrow> same_pending v (world (link_withpeer_fail i r s))"
  by (simp_all add: link_peer_fail_def link_withpeer_fail_def Let_def same_pending_close)

lemma same_pending_check:
  "same_pending v (world s) \<Longrightarrow> same_pending v (world (snd (snd (link_check_passwd N i n p s))))"
  by (simp add: link_check_passwd_def Let_def case_prod_beta same_pending_close)

lemma same_pending_userip: "same_pending v (world s) \<Longrightarrow> same_pending v (world (link_set_userip N n s))"
  by (simp add: link_set_userip_def split: option.split)

lemma same_pending_secret:
  "same_pending v (world s) \<Longrightarrow> same_pending v (world (snd (link_get_secret i n m b s)))"
  by (simp add: link_get_secret_def split: option.split)

lemma same_pending_store [simp]:
  "same_pending v (world (upap_store u)) = same_pending v (world (u_world u))"
  "same_pending v (world (chap_store c)) = same_pending v (world (ch_world c))"
  by (simp_all add: upap_store_def chap_store_def)

lemmas same_pending_auth = same_pending_fail same_pending_check same_pending_userip same_pending_secret

section \<open>A bit that stays\<close>

definition waits_for :: "u8 \<Rightarrow> int \<Rightarrow> 'n lcp_world \<Rightarrow> bool" where
  "waits_for b i w \<longleftrightarrow> ls_auth_pending (lw_lns w i) AND b \<noteq> 0"

lemma waits_same: "same_pending w x \<Longrightarrow> waits_for b i x = waits_for b i w"
  by (simp add: waits_for_def same_pending_def)

lemma and_not_and:
  fixes x b b' :: u8
  shows "b' AND b = 0 \<Longrightarrow> (x AND NOT b') AND b = x AND b"
proof -
  assume b: "b' AND b = 0"
  have "NOT b' AND b = b"
  proof (rule bit_word_eqI)
    fix n
    assume "n < LENGTH(8)"
    moreover have "\<not> bit (b' AND b) n" using b by simp
    ultimately show "bit (NOT b' AND b) n = bit b n" by (auto simp: bit_simps)
  qed
  then show ?thesis by (simp only: and.assoc)
qed

lemma waits_done:
  assumes "b' AND b = 0" "waits_for b i w"
  shows "waits_for b i (auth_done N l b' w)"
proof -
  define x where "x = set_link l (\<lambda>k. k\<lparr>ls_auth_pending := ls_auth_pending k AND NOT b'\<rparr>) w"
  have "ls_auth_pending (lw_lns x i) AND b = ls_auth_pending (lw_lns w i) AND b"
    using and_not_and [OF assms(1)] by (simp only: x_def set_link_def) simp
  then have "waits_for b i x" using assms(2) by (simp add: waits_for_def)
  moreover have "same_pending x (auth_done N l b' w)"
    by (simp add: x_def auth_done_def Let_def)
  ultimately show ?thesis using waits_same by blast
qed

text \<open>Only the success of the peer in the protocol of the bit takes it off.\<close>

lemma other_bits:
  "CHAP_PEER AND UPAP_PEER = 0" "UPAP_PEER AND CHAP_PEER = 0"
  "CHAP_WITHPEER AND CHAP_PEER = 0" "CHAP_WITHPEER AND UPAP_PEER = 0"
  "UPAP_WITHPEER AND CHAP_PEER = 0" "UPAP_WITHPEER AND UPAP_PEER = 0" "0 AND b = 0"
  by (simp_all add: pending_bits)

lemma waits_withpeer:
  assumes "b \<in> {CHAP_PEER, UPAP_PEER}" "waits_for b i w"
  shows "waits_for b i (link_withpeer_success N l p w)"
  unfolding link_withpeer_success_def
  by (rule waits_done [OF _ assms(2)]) (use assms(1) in \<open>auto simp: other_bits\<close>)

lemma waits_peer:
  assumes "waits_for b i w" "(b, p) \<in> {(CHAP_PEER, PPP_PAP), (UPAP_PEER, PPP_CHAP)}"
  shows "waits_for b i (link_peer_success N l p w)"
proof -
  have "PPP_PAP \<noteq> PPP_CHAP" by (simp add: PPP_PAP_def PPP_CHAP_def)
  then show ?thesis
    using assms(2) waits_done [OF other_bits(2), of i w] waits_done [OF other_bits(1), of i w] assms(1)
    by (elim insertE) (simp_all add: link_peer_success_def)
qed

section \<open>PAP and CHAP without a proof\<close>

lemma header_cases [case_names header short]:
  obtains code pid hi lo inp where "pkt = code # pid # hi # lo # inp"
  | "\<And>code pid hi lo inp. pkt \<noteq> code # pid # hi # lo # inp"
  by blast

text \<open>A packet that proves nothing never gets to the function for a success of the peer.\<close>

lemma upap_unproved:
  assumes "\<not> upap_proof hk pkt l u"
  shows "upap_input hk pkt l u = upap_input (hk\<lparr>auth_peer_success := g\<rparr>) pkt l u"
proof (cases pkt rule: header_cases)
  case (header code pid hi lo inp)
  define len where "len = uint (join16 hi lo) - UPAP_HEADERLEN"
  have "upap_rauthreq hk inp pid len u = upap_rauthreq (hk\<lparr>auth_peer_success := g\<rparr>) inp pid len u"
    if "code = UPAP_AUTHREQ" "uint (join16 hi lo) \<le> l"
  proof (cases "parse_authreq inp len")
    case (Ok x)
    obtain n p where x: "x = (n, p)" by (cases x)
    then have "fst (check_passwd hk n p (upap_record n p u)) \<noteq> UPAP_AUTHACK"
      using assms that Ok header unfolding upap_proof_def len_def by blast
    then show ?thesis
      by (simp add: upap_rauthreq_def Ok x upap_checkauth_def Let_def case_prod_beta upap_record_def)
  qed (simp_all add: upap_rauthreq_def)
  then show ?thesis
    by (simp add: upap_input_def header Let_def len_def upap_rauthack_def upap_rauthnak_def split: outcome.split)
qed (simp add: upap_input_def split: list.split)

context chap_client
begin

lemma input_unproved:
  assumes "\<not> chap_proof hk pkt l c"
  shows "ChapInput hk pkt l c = ChapInput (hk\<lparr>ch_peer_success := g\<rparr>) pkt l c"
proof (cases pkt rule: header_cases)
  case (header code pid hi lo inp)
  define len where "len = uint (join16 hi lo) - CHAP_HEADERLEN"
  have send: "ChapSendStatus (hk\<lparr>ch_peer_success := g\<rparr>) k t = ChapSendStatus hk k t" for k t
    by (simp add: ChapSendStatus_def status_message_def)
  have "ChapReceiveResponse hk inp pid len c = ChapReceiveResponse (hk\<lparr>ch_peer_success := g\<rparr>) inp pid len c"
    if "code = CHAP_RESPONSE" "uint (join16 hi lo) \<le> l"
  proof (cases "pid = ch_chal_id c \<and> (\<exists>x. parse_value inp len = Ok x)")
    case True
    then obtain remmd name where p: "parse_value inp len = Ok (remmd, name)" by auto
    define c1 where "c1 = c\<lparr>ch_chal_timers := ch_chal_timers c - 1\<rparr>"
    obtain found c2 where gs: "get_secret hk name (ch_chal_name c) True c1 = (found, c2)" by (metis surj_pair)
    obtain w where w: "c2 = c1\<lparr>ch_world := w\<rparr>" using secret_frame [OF gs] by blast
    have "\<not> chap_verify hk secret remmd c" if "found = Some secret" for secret
      using assms that header \<open>code = _\<close> \<open>_ \<le> l\<close> True p gs unfolding chap_proof_def len_def c1_def by auto
    then have bad: "\<not> chap_verify hk secret remmd c2" if "found = Some secret" for secret
      using that by (simp add: chap_verify_def w c1_def)
    have "chap_verify (hk\<lparr>ch_peer_success := g\<rparr>) secret remmd c2 = chap_verify hk secret remmd c2" for secret
      by (simp add: chap_verify_def chap_digest_def)
    then have "(case found of None \<Rightarrow> False | Some secret \<Rightarrow> chap_verify (hk\<lparr>ch_peer_success := g\<rparr>) secret remmd c2) = False"
      "(case found of None \<Rightarrow> False | Some secret \<Rightarrow> chap_verify hk secret remmd c2) = False"
      using bad by (auto split: option.split)
    then show ?thesis
      using gs by (simp add: ChapReceiveResponse_def send p Let_def c1_def chap_answer_def)
  qed (auto simp: ChapReceiveResponse_def send split: outcome.split)
  moreover have "ChapReceiveChallenge hk inp pid len c = ChapReceiveChallenge (hk\<lparr>ch_peer_success := g\<rparr>) inp pid len c"
    by (simp add: ChapReceiveChallenge_def chap_digest_def Let_def case_prod_beta split: outcome.split)
  ultimately show ?thesis
    by (simp add: ChapInput_def header Let_def len_def ChapReceiveFailure_def ChapReceiveSuccess_def)
qed (simp add: ChapInput_def split: list.split)

lemma step_unproved:
  assumes "\<And>pkt l. e = ChapPacket pkt l \<Longrightarrow> \<not> chap_proof hk pkt l c"
  shows "chap_step hk e c = chap_step (hk\<lparr>ch_peer_success := g\<rparr>) e c"
proof (cases e)
  case (ChapPacket pkt l)
  then show ?thesis using input_unproved assms by simp
qed (simp_all add: ChapAuthPeer_def ChapLowerUp_def ChapProtocolReject_def ChapChallengeTimeout_def ChapRechallenge_def
    ChapGenChallenge_def Let_def)

end

section \<open>The hooks of auth.c without the success of the peer\<close>

abbreviation sys_waits :: "u8 \<Rightarrow> int \<Rightarrow> 'n lcp_sys \<Rightarrow> bool" where
  "sys_waits b i s \<equiv> waits_for b i (world s)"

definition upap_unproved_hooks :: "'n protents \<Rightarrow> 'n lcp_sys upap_hooks" where
  "upap_unproved_hooks N = (link_upap_hooks N)\<lparr>auth_peer_success := \<lambda>u. u\<rparr>"

definition chap_unproved_hooks :: "chap_env \<Rightarrow> 'n protents \<Rightarrow> 'n lcp_sys chap_hooks" where
  "chap_unproved_hooks env N = (link_chap_hooks env N)\<lparr>ch_peer_success := \<lambda>c. c\<rparr>"

lemma waits_pending:
  "(\<And>v. same_pending v (world s) \<Longrightarrow> same_pending v (world t)) \<Longrightarrow> sys_waits b i s \<Longrightarrow> sys_waits b i t"
  using waits_same [of "world s" "world t"] by simp

lemma waits_store [simp]:
  "sys_waits b i (upap_store u) = sys_waits b i (u_world u)" "sys_waits b i (chap_store c) = sys_waits b i (ch_world c)"
  by (simp_all add: upap_store_def chap_store_def waits_for_def)

lemma waits_auth:
  "sys_waits b i s \<Longrightarrow> sys_waits b i (link_peer_fail N l r s)"
  "sys_waits b i s \<Longrightarrow> sys_waits b i (link_withpeer_fail l r s)"
  "sys_waits b i s \<Longrightarrow> sys_waits b i (snd (snd (link_check_passwd N l n p s)))"
  "sys_waits b i s \<Longrightarrow> sys_waits b i (link_set_userip N n s)"
  "sys_waits b i s \<Longrightarrow> sys_waits b i (snd (link_get_secret l n m c s))"
  "sys_waits b i s \<Longrightarrow> sys_waits b i (lcp_close N rs s)"
  by (rule waits_pending, simp_all add: same_pending_auth same_pending_close)+

lemma waits_with:
  assumes "sys_waits b i s" "b \<in> {CHAP_PEER, UPAP_PEER}"
  shows "sys_waits b i (on_world (link_withpeer_success N l p) s)"
  using waits_withpeer [OF assms(2,1)] by simp

lemma upap_waits:
  assumes "b \<in> {CHAP_PEER, UPAP_PEER}"
  shows "upap_world (upap_unproved_hooks N) (sys_waits b i)"
    and "upap_world (link_upap_hooks N) (sys_waits CHAP_PEER i)"
  by unfold_locales
    (use assms in \<open>simp_all add: upap_unproved_hooks_def link_upap_hooks_def upap_lift_def waits_auth waits_withpeer
      waits_peer case_prod_beta\<close>)

lemma chap_waits:
  assumes "b \<in> {CHAP_PEER, UPAP_PEER}"
  shows "chap_world (chap_unproved_hooks env N) (sys_waits b i)"
    and "chap_world (link_chap_hooks env N) (sys_waits UPAP_PEER i)"
  by unfold_locales
    (use assms in \<open>simp_all add: chap_unproved_hooks_def chap_lift_def waits_auth waits_withpeer waits_peer\<close>)

lemmas upap_unproved_step = upap_world.upap_step_P [OF upap_waits(1)]
lemmas upap_chap_step = upap_world.upap_step_P [OF upap_waits(2) [OF insertI1]]
lemmas chap_unproved_step = chap_world.chap_step_P [OF chap_waits(1)]
lemmas chap_upap_step = chap_world.chap_step_P [OF chap_waits(2) [OF insertI1]]

section \<open>The automaton without its way up\<close>

text \<open>Only a packet brings LCP up, so the other events do not notice that \<open>up\<close> is missing.\<close>

definition lcp_no_up :: "'n protents \<Rightarrow> 'n lcp_world fsm_callbacks" where
  "lcp_no_up N = (lcp_callbacks N)\<lparr>up := None\<rparr>"

lemma no_up_sconfreq: "fsm_sconfreq (cb\<lparr>up := None\<rparr>) r s = fsm_sconfreq cb r s"
  by (cases "resetci cb") (simp_all add: fsm_sconfreq_def cong: option.case_cong)

lemma no_up_events:
  "fsm_lowerup (cb\<lparr>up := None\<rparr>) s = fsm_lowerup cb s" "fsm_lowerdown (cb\<lparr>up := None\<rparr>) s = fsm_lowerdown cb s"
  "fsm_open (cb\<lparr>up := None\<rparr>) s = fsm_open cb s" "fsm_timeout (cb\<lparr>up := None\<rparr>) s = fsm_timeout cb s"
  by (simp_all add: fsm_lowerup_def fsm_lowerdown_def fsm_open_def fsm_restart_def fsm_timeout_def no_up_sconfreq
      Let_def cong: link_state.case_cong)

lemma waits_upap_protrej:
  "b \<in> {CHAP_PEER, UPAP_PEER} \<Longrightarrow> sys_waits b i s \<Longrightarrow> sys_waits b i (on_upap N upap_protrej s)"
proof -
  assume b: "b \<in> {CHAP_PEER, UPAP_PEER}" "sys_waits b i s"
  have "upap_protrej (link_upap_hooks N) u = upap_step (upap_unproved_hooks N) UpapProtRej u" for u
    by (simp add: upap_protrej_def upap_unproved_hooks_def Let_def)
  then show ?thesis
    using upap_unproved_step [OF b(1), of i "upap_view s" N UpapProtRej] b(2) by (simp add: on_upap_def)
qed

lemma waits_chap_protrej:
  "b \<in> {CHAP_PEER, UPAP_PEER} \<Longrightarrow> sys_waits b i s \<Longrightarrow> sys_waits b i (on_chap N ChapProtocolReject s)"
proof -
  assume b: "b \<in> {CHAP_PEER, UPAP_PEER}" "sys_waits b i s"
  have "ChapProtocolReject (link_chap_hooks env N) c = chap_step (chap_unproved_hooks env N) ChapProtRej c" for c env
    by (simp add: ChapProtocolReject_def chap_unproved_hooks_def Let_def)
  then show ?thesis
    using chap_unproved_step [OF b(1), of i "chap_view s" "lc_chap (lw_cfg (world s))" N ChapProtRej] b(2)
    by (simp add: on_chap_def)
qed

lemma waits_lns: "lw_lns (world t) = lw_lns (world s) \<Longrightarrow> sys_waits b i t = sys_waits b i s"
  by (simp add: waits_for_def)

lemma waits_set_phase [simp]: "waits_for b i (set_phase l ph w) = waits_for b i w"
  by (simp add: waits_for_def set_phase_def set_link_def)

lemma waits_net [simp]: "waits_for b i (net_do h w) = waits_for b i w" "waits_for b i (w\<lparr>lw_net := n\<rparr>) = waits_for b i w"
  by (simp_all add: waits_for_def net_do_def)

lemma waits_demuxprotrej:
  assumes "b \<in> {CHAP_PEER, UPAP_PEER}" "sys_waits b i s"
  shows "sys_waits b i (demuxprotrej N p s)"
proof -
  have "sys_waits b i (lcp_protrej N s)"
    by (rule waits_pending [OF _ assms(2)]) (simp add: lcp_protrej_def lcpbp.protreject_P)
  then show ?thesis
    using assms by (simp add: demuxprotrej_def Let_def waits_upap_protrej waits_chap_protrej)
qed

lemma waits_extcode:
  assumes "b \<in> {CHAP_PEER, UPAP_PEER}" "sys_waits b i s"
  shows "sys_waits b i (snd (lcp_extcode N c pid p n s))"
  using assms
  by (simp add: lcp_extcode_def lcp_rprotrej_def lcp_received_echo_reply_def Let_def waits_demuxprotrej
      split: outcome.split prod.split) (simp add: waits_for_def)

lemma waits_nakci:
  assumes "sys_waits b i s"
  shows "sys_waits b i (snd (lcp_cb_nakci N p n s))"
proof -
  have got: "same_pending v (set_got j o' w) = same_pending v w" for v j o' and w :: "'n lcp_world"
    by (simp add: set_got_def)
  show ?thesis
    by (rule waits_pending [OF _ assms])
      (simp add: lcp_cb_nakci_def lcp_nakci_update_def Let_def got same_pending_close split: nak_result.split)
qed

lemma waits_no_up:
  fixes N :: "'n protents"
  assumes "b \<in> {CHAP_PEER, UPAP_PEER}"
  shows "fsm_world (lcp_no_up N) (waits_for b i)"
proof -
  have down: "sys_waits b i (lcp_down N s)" "sys_waits b i (lcp_finished s)" if "sys_waits b i s" for s :: "'n lcp_sys"
    by (rule waits_pending [OF _ that], simp add: same_pending_lcp_down same_pending_finished)+
  have got: "waits_for b i (set_got j o' w) = waits_for b i w" for j o' and w :: "'n lcp_world"
    by (simp add: set_got_def waits_for_def)
  have small: "sys_waits b i (lcp_resetci s) = sys_waits b i s" "sys_waits b i (snd (lcp_cb_cilen s)) = sys_waits b i s"
    "sys_waits b i (snd (snd (lcp_cb_addci n s))) = sys_waits b i s"
    "sys_waits b i (snd (lcp_cb_ackci p n s)) = sys_waits b i s"
    "sys_waits b i (snd (snd (snd (lcp_cb_reqci p n r s)))) = sys_waits b i s"
    "sys_waits b i (snd (lcp_cb_rejci p n s)) = sys_waits b i s" for s :: "'n lcp_sys" and n p r
    by (simp_all add: lcp_resetci_def lcp_cb_cilen_def lcp_cb_addci_def lcp_cb_ackci_def lcp_cb_reqci_def
        lcp_cb_rejci_def Let_def got split: outcome.split prod.split) (simp_all add: waits_for_def)
  show ?thesis
    by unfold_locales
      (auto simp: lcp_no_up_def lcp_callbacks_def down small lcp_starting_def waits_nakci waits_extcode [OF assms])
qed

section \<open>Which event lets the peer in\<close>

definition lcp_packet :: "link_event \<Rightarrow> bool" where
  "lcp_packet e \<longleftrightarrow> (case e of LkPacket (_ # _ # hi # lo # _) _ \<Rightarrow> join16 hi lo = PPP_LCP | _ \<Rightarrow> False)"

definition lets_in :: "'n protents \<Rightarrow> u8 \<Rightarrow> u16 \<Rightarrow> u8 list \<Rightarrow> int \<Rightarrow> 'n lcp_sys \<Rightarrow> bool" where
  "lets_in N b protocol q n s \<longleftrightarrow>
     b = CHAP_PEER \<and> protocol = PPP_CHAP \<and> chap_proof (link_chap_hooks (lc_chap (lw_cfg (world s))) N) q n (chap_view s)
     \<or> b = UPAP_PEER \<and> protocol = PPP_PAP \<and> upap_proof (link_upap_hooks N) q n (upap_view s)"

lemma chap_packet_waits:
  assumes "b \<in> {CHAP_PEER, UPAP_PEER}" "sys_waits b i s"
    and "b = CHAP_PEER \<Longrightarrow> \<forall>q n. e = ChapPacket q n \<longrightarrow> \<not> chap_proof (link_chap_hooks (lc_chap (lw_cfg (world s))) N) q n (chap_view s)"
  shows "sys_waits b i (on_chap N (\<lambda>hk. chap_step hk e) s)"
proof (cases "b = CHAP_PEER")
  case True
  then have "on_chap N (\<lambda>hk. chap_step hk e) s
      = chap_store (chap_step (chap_unproved_hooks (lc_chap (lw_cfg (world s))) N) e (chap_view s))"
    unfolding on_chap_def chap_unproved_hooks_def using lch.step_unproved assms(3) by metis
  then show ?thesis using chap_unproved_step [OF assms(1), of i "chap_view s" _ N e] assms(2) by simp
next
  case False
  then have "b = UPAP_PEER" using assms(1) by simp
  then show ?thesis using chap_upap_step [of i "chap_view s" _ N e] assms(2) by (simp add: on_chap_def)
qed

lemma upap_packet_waits:
  assumes "b \<in> {CHAP_PEER, UPAP_PEER}" "sys_waits b i s"
    and "b = UPAP_PEER \<Longrightarrow> \<not> upap_proof (link_upap_hooks N) q n (upap_view s)"
  shows "sys_waits b i (on_upap N (\<lambda>hk. upap_input hk q n) s)"
proof (cases "b = UPAP_PEER")
  case True
  have "on_upap N (\<lambda>hk. upap_input hk q n) s = upap_store (upap_step (upap_unproved_hooks N) (UpapInput q n) (upap_view s))"
    unfolding on_upap_def upap_unproved_hooks_def using upap_unproved assms(3) True by (metis upap_step.simps(8))
  then show ?thesis
    using upap_unproved_step [OF assms(1), of i "upap_view s" N "UpapInput q n"] assms(2) by (simp del: upap_step.simps)
next
  case False
  then have b: "b = CHAP_PEER" using assms(1) by simp
  have "sys_waits CHAP_PEER i (upap_store (upap_step (link_upap_hooks N) (UpapInput q n) (upap_view s)))"
    using upap_chap_step [of i "upap_view s" N "UpapInput q n"] assms(2) b by (simp del: upap_step.simps)
  then show ?thesis using b by (simp add: on_upap_def)
qed

lemma upap_timer_waits:
  assumes "b \<in> {CHAP_PEER, UPAP_PEER}" "sys_waits b i s" "e \<in> {UpapTimeout, UpapReqTimeout}"
  shows "sys_waits b i (on_upap N (\<lambda>hk. upap_step hk e) s)"
proof -
  have "upap_step (link_upap_hooks N) e u = upap_step (upap_unproved_hooks N) e u" for u
    using assms(3) by (auto simp: upap_unproved_hooks_def upap_timeout_def upap_reqtimeout_def)
  then show ?thesis
    using upap_unproved_step [OF assms(1), of i "upap_view s" N e] assms(2) by (simp add: on_upap_def)
qed

lemma input_waits:
  assumes b: "b \<in> {CHAP_PEER, UPAP_PEER}" "sys_waits b i s"
    and e: "\<not> lcp_packet (LkPacket p len)"
    and n: "\<And>a c hi lo q. p = a # c # hi # lo # q \<Longrightarrow> \<not> lets_in N b (join16 hi lo) q (len - PPP_HDRLEN) s"
  shows "sys_waits b i (get_input N p len s)"
proof (cases p rule: header_cases)
  case (header a c hi lo q)
  note n = n [OF header, unfolded lets_in_def]
  have chap: "sys_waits b i (on_chap N (\<lambda>hk. ChapInput hk q (len - PPP_HDRLEN)) s)" if "join16 hi lo = PPP_CHAP"
    using chap_packet_waits [OF b, of "ChapPacket q (len - PPP_HDRLEN)" N] n that by (auto simp: on_chap_def)
  have pap: "sys_waits b i (on_upap N (\<lambda>hk. upap_input hk q (len - PPP_HDRLEN)) s)" if "join16 hi lo = PPP_PAP"
    using upap_packet_waits [OF b] n that by blast
  have cb: "sys_waits b i (cbcp_packet N q k s)" for k
    using waits_auth(6) [of b i "on_world (\<lambda>w. w\<lparr>lw_net := m\<rparr>) s" N r for m r] b(2)
    by (simp add: cbcp_packet_def Let_def case_prod_beta)
  have d: "sys_waits b i t" if "demux_input N (join16 hi lo) q (len - PPP_HDRLEN) s = Some t" for t
    using that e chap pap cb b(2) header by (auto simp: demux_input_def lcp_packet_def Let_def net_input_def split: if_splits)
  have "sys_waits b i (lcp_sprotrej p k s) = sys_waits b i s" for k
    by (rule waits_lns) (simp add: lcp_sprotrej_def)
  moreover have "sys_waits b i (on_world (link_terminated l) s)" for l
    by (rule waits_pending [OF _ b(2)]) simp
  ultimately show ?thesis
    using d b(2) by (simp add: get_input_def header Let_def split: option.split)
next
  case short
  have "sys_waits b i (on_world (link_terminated l) s)" "sys_waits b i (s\<lparr>ub := x\<rparr>)" for l x
    by (rule waits_pending [OF _ b(2)], simp)+
  then show ?thesis
    using b(2) short by (auto simp: get_input_def split: list.split)
qed

text \<open>The echo and idle timers.\<close>

lemma same_pending_echo:
  assumes "same_pending v (world s)"
  shows "same_pending v (world (LcpEchoTimeout N s))" "same_pending v (world (IdleTimeCheck N s))"
  using assms
  by (simp_all add: LcpEchoTimeout_def IdleTimeCheck_def LcpEchoCheck_def RestartIdleTimer_def LcpSendEchoRequest_def
      LcpLinkFailure_def ask_idle_def Let_def same_pending_close split: option.split)

lemma waits_updates [simp]:
  "waits_for b i (lcp_do c w) = waits_for b i w" "waits_for b i (w\<lparr>lw_allow := y\<rparr>) = waits_for b i w"
  by (simp_all add: waits_for_def lcp_do_def)

theorem link_step_waits:
  assumes b: "b \<in> {CHAP_PEER, UPAP_PEER}" "sys_waits b i s"
    and e: "\<not> lcp_packet e" "\<not> sys_waits b i (link_step N e s)"
  obtains a c hi lo q len where "e = LkPacket (a # c # hi # lo # q) len" "lets_in N b (join16 hi lo) q (len - PPP_HDRLEN) s"
proof (cases e)
  case (LkPacket p len)
  then show thesis using input_waits [OF b, of p len N] e that by force
next
  case (LkClose r)
  then show thesis using waits_auth(6) [OF b(2), of N r] e(2) by simp
next
  case LkEchoTimer
  have "sys_waits b i (LcpEchoTimeout N (on_world (\<lambda>w. w\<lparr>lw_echo_timers := k\<rparr>) s))" for k
    by (rule waits_pending [OF _ b(2)]) (simp add: same_pending_echo)
  then show thesis using LkEchoTimer b(2) e(2) by (auto simp: on_world_def split: if_splits)
next
  case LkIdleTimer
  have "sys_waits b i (IdleTimeCheck N (on_world (\<lambda>w. w\<lparr>lw_idle_timers := k\<rparr>) s))" for k
    by (rule waits_pending [OF _ b(2)]) (simp add: same_pending_echo)
  then show thesis using LkIdleTimer b(2) e(2) by (auto simp: on_world_def split: if_splits)
next
  case LkUpapTimer
  then show thesis using upap_timer_waits [OF b, of UpapTimeout N] e(2) by simp
next
  case LkUpapReqTimer
  then show thesis using upap_timer_waits [OF b, of UpapReqTimeout N] e(2) by simp
next
  case (LkChapTimer t)
  then show thesis using chap_packet_waits [OF b, of t N] b(2) e(2) by (force split: if_splits)
next
  case LkOpen
  have "sys_waits b i (fsm_open (lcp_no_up N) (s\<lparr>f_flags := k\<rparr>))" for k
    by (rule fsm_world.open_P [OF waits_no_up [OF b(1)]]) (simp add: b(2))
  then show thesis using LkOpen e(2) by (simp add: lcp_open_def lcp_no_up_def no_up_events Let_def)
next
  case LkLowerUp
  have "sys_waits b i (fsm_lowerup (lcp_no_up N) t)" if "sys_waits b i t" for t
    by (rule fsm_world.lowerup_P [OF waits_no_up [OF b(1)] that])
  then show thesis using LkLowerUp b(2) e(2) by (simp add: lcp_lowerup_def lcp_no_up_def no_up_events Let_def)
next
  case LkLowerDown
  have "sys_waits b i (fsm_lowerdown (lcp_no_up N) t)" if "sys_waits b i t" for t
    by (rule fsm_world.lowerdown_P [OF waits_no_up [OF b(1)] that])
  then show thesis using LkLowerDown b(2) e(2) by (simp add: lcp_lowerdown_def lcp_no_up_def no_up_events)
next
  case LkFsmTimer
  have "sys_waits b i (fsm_timeout (lcp_no_up N) t)" if "sys_waits b i t" for t
    by (rule fsm_world.timeout_P [OF waits_no_up [OF b(1)] that])
  then show thesis using LkFsmTimer b(2) e(2) by (simp add: lcp_no_up_def no_up_events split: if_splits)
qed

section \<open>The proofs in terms of the secrets\<close>

lemma upap_view_store [simp]: "upap_store (upap_view s) = s"
  by (simp add: upap_store_def upap_view_def on_world_def upap_with_def upap_state.defs upap_sys.defs)

lemma link_check_code:
  "fst (link_check_passwd N l n p s) = fst (pap_verdict (lc_auth (lw_cfg (world s))) (cstr n) (cstr p))"
  by (simp add: link_check_passwd_def Let_def case_prod_beta)

lemma link_secret_found:
  "fst (link_get_secret l client server save s) = map_option fst (chap_secret (lc_auth (lw_cfg (world s))) client server)"
  by (simp add: link_get_secret_def split: option.split)

lemma chap_store_cfg [simp]:
  "lw_cfg (world (chap_store c)) = lw_cfg (world (ch_world c))"
  "lw_cfg (world (upap_store u)) = lw_cfg (world (u_world u))"
  by (simp_all add: chap_store_def upap_store_def)

lemma chap_view_fields [simp]:
  "ch_chal_id (chap_view s) = ch_chal_id (lw_chap (world s))" "ch_chal_name (chap_view s) = ch_chal_name (lw_chap (world s))"
  "ch_challenge (chap_view s) = ch_challenge (lw_chap (world s))" "ch_chal_len (chap_view s) = ch_chal_len (lw_chap (world s))"
  "ch_chal_type (chap_view s) = ch_chal_type (lw_chap (world s))" "ch_unit (chap_view s) = ch_unit (lw_chap (world s))"
  "ch_serverstate (chap_view s) = ch_serverstate (lw_chap (world s))"
  by (simp_all add: chap_view_def chap_with_def chap_state.defs chap_sys.defs)

lemma upap_view_fields [simp]:
  "us_serverstate (upap_view s) = us_serverstate (lw_upap (world s))" "us_unit (upap_view s) = us_unit (lw_upap (world s))"
  by (simp_all add: upap_view_def)

text \<open>What a CHAP packet shows: the digest of our challenge under a secret for the name it carries.\<close>

lemma chap_proof_secret:
  assumes "chap_proof (link_chap_hooks (lc_chap (lw_cfg (world s))) N) q n (chap_view s)"
  defines "c \<equiv> lw_chap (world s)"
  obtains hi lo inp name secret more where
    "q = CHAP_RESPONSE # ch_chal_id c # hi # lo # inp"
    "parse_value inp (uint (join16 hi lo) - CHAP_HEADERLEN)
       = Ok (take 16 (md5 (lc_chap (lw_cfg (world s))) (ch_chal_id c # secret @ take (ch_chal_len c) (ch_challenge c))), name)"
    "chap_secret (lc_auth (lw_cfg (world s))) name (ch_chal_name c) = Some (secret, more)"
proof -
  obtain hi lo inp remmd name secret where p:
    "q = CHAP_RESPONSE # ch_chal_id (chap_view s) # hi # lo # inp"
    "parse_value inp (uint (join16 hi lo) - CHAP_HEADERLEN) = Ok (remmd, name)"
    "fst (get_secret (link_chap_hooks (lc_chap (lw_cfg (world s))) N) name (ch_chal_name (chap_view s)) True
       ((chap_view s)\<lparr>ch_chal_timers := ch_chal_timers (chap_view s) - 1\<rparr>)) = Some secret"
    "chap_verify (link_chap_hooks (lc_chap (lw_cfg (world s))) N) secret remmd (chap_view s)"
    using assms(1) unfolding chap_proof_def by (elim exE conjE)
  obtain more where m: "chap_secret (lc_auth (lw_cfg (world s))) name (ch_chal_name c) = Some (secret, more)"
    using p(3) by (auto simp: link_secret_found c_def)
  show thesis
    using that [OF _ _ m] p(1,2,4) by (simp add: chap_verify_def chap_digest_def c_def MD5_SIGNATURE_SIZE_def)
qed

text \<open>What a PAP packet shows: a name and a password that the tables accept.\<close>

lemma upap_proof_verdict:
  assumes "upap_proof (link_upap_hooks N) q n (upap_view s)"
  obtains pid hi lo inp user passwd where
    "q = UPAP_AUTHREQ # pid # hi # lo # inp"
    "parse_authreq inp (uint (join16 hi lo) - UPAP_HEADERLEN) = Ok (user, passwd)"
    "fst (pap_verdict (lc_auth (lw_cfg (world s))) (cstr user) (cstr passwd)) = UPAP_AUTHACK"
proof -
  obtain pid hi lo inp user passwd where p:
    "q = UPAP_AUTHREQ # pid # hi # lo # inp"
    "parse_authreq inp (uint (join16 hi lo) - UPAP_HEADERLEN) = Ok (user, passwd)"
    "fst (check_passwd (link_upap_hooks N) user passwd (upap_record user passwd (upap_view s))) = UPAP_AUTHACK"
    using assms unfolding upap_proof_def by (elim exE conjE)
  then have "fst (pap_verdict (lc_auth (lw_cfg (world s))) (cstr user) (cstr passwd)) = UPAP_AUTHACK"
    by (simp add: link_upap_hooks_def Let_def case_prod_beta upap_record_def link_check_code)
  then show thesis using that p by blast
qed

section \<open>A proof lets the peer in\<close>

lemma and_not_self: "(x AND NOT b) AND b = 0" for x b :: u8
  by (simp add: and.assoc)

lemma success_clears:
  "\<not> waits_for CHAP_PEER l (link_peer_success N l PPP_CHAP w)" "\<not> waits_for UPAP_PEER l (link_peer_success N l PPP_PAP w)"
proof -
  have "\<not> waits_for b l (auth_done N l b w)" for b
  proof -
    define x where "x = set_link l (\<lambda>k. k\<lparr>ls_auth_pending := ls_auth_pending k AND NOT b\<rparr>) w"
    have "\<not> waits_for b l x" by (simp add: x_def waits_for_def set_link_def and_not_self del: word_bw_assocs)
    moreover have "same_pending x (auth_done N l b w)" by (simp add: x_def auth_done_def Let_def)
    ultimately show ?thesis using waits_same by blast
  qed
  moreover have "PPP_PAP \<noteq> PPP_CHAP" by (simp add: PPP_PAP_def PPP_CHAP_def)
  ultimately show "\<not> waits_for CHAP_PEER l (link_peer_success N l PPP_CHAP w)"
    "\<not> waits_for UPAP_PEER l (link_peer_success N l PPP_PAP w)"
    by (simp_all add: link_peer_success_def)
qed

lemma chap_lift_same:
  assumes "same_auth (world (chap_store c)) (world (g (chap_store c)))"
  shows "chap_lift g c = c\<lparr>ch_world := g (chap_store c)\<rparr>"
proof -
  have "chap_lift g c = chap_with (g (chap_store c)) c"
    using assms by (simp add: chap_lift_def chap_view_def same_auth_def)
  then show ?thesis using chap_with_world [of "g (chap_store c)" c] by (simp add: chap_with_self)
qed

lemma status_fields [simp]: "ch_unit (ChapSendStatus hk k c) = ch_unit c" "ch_world (ChapSendStatus hk k c) = ch_world c"
  by (simp_all add: ChapSendStatus_def chap_output_def Let_def)

lemma chap_answer_lets_in:
  assumes "ch_serverstate c = CHAPSS_INITIAL_CHAL"
  shows "\<not> sys_waits CHAP_PEER (ch_unit c) (ch_world (chap_answer (link_chap_hooks env N) n True c))"
proof -
  have u: "chap_lift (link_set_userip N n) t = t\<lparr>ch_world := link_set_userip N n (chap_store t)\<rparr>" for t
    by (rule chap_lift_same) (simp add: link_set_userip_same)
  have p: "chap_lift (on_world (link_peer_success N l PPP_CHAP)) t = t\<lparr>ch_world := on_world (link_peer_success N l PPP_CHAP) (chap_store t)\<rparr>" for t l
    by (rule chap_lift_same) (simp add: same_auth_success)
  show ?thesis
    using assms by (simp add: chap_answer_def Let_def u p success_clears)
qed

lemma chap_proof_lets_in:
  assumes "ch_serverstate (chap_view s) = CHAPSS_INITIAL_CHAL"
    and "chap_proof (link_chap_hooks (lc_chap (lw_cfg (world s))) N) q n (chap_view s)" "n \<le> 2000"
  shows "\<not> sys_waits CHAP_PEER (ch_unit (chap_view s)) (on_chap N (\<lambda>hk. ChapInput hk q n) s)"
proof -
  define hk where "hk = link_chap_hooks (lc_chap (lw_cfg (world s))) N"
  define c where "c = chap_view s"
  obtain hi lo inp remmd name secret where p:
    "q = CHAP_RESPONSE # ch_chal_id c # hi # lo # inp" "uint (join16 hi lo) \<le> n"
    "parse_value inp (uint (join16 hi lo) - CHAP_HEADERLEN) = Ok (remmd, name)"
    "fst (get_secret hk name (ch_chal_name c) True (c\<lparr>ch_chal_timers := ch_chal_timers c - 1\<rparr>)) = Some secret"
    "chap_verify hk secret remmd c"
    using assms(2) unfolding chap_proof_def hk_def c_def by (elim exE conjE)
  have "\<not> uint (join16 hi lo) - CHAP_HEADERLEN < 2" using p(3) by (auto simp: parse_value_def split: if_splits)
  then have l: "\<not> szt n < CHAP_HEADERLEN" "\<not> uint (join16 hi lo) < CHAP_HEADERLEN"
    using p(2) assms(3) by (simp_all add: szt_def CHAP_HEADERLEN_def)
  define c1 where "c1 = c\<lparr>ch_chal_timers := ch_chal_timers c - 1\<rparr>"
  obtain c2 where g: "get_secret hk name (ch_chal_name c) True c1 = (Some secret, c2)"
    using p(4) unfolding c1_def by (metis prod.collapse)
  obtain w where w: "c2 = c1\<lparr>ch_world := w\<rparr>" using lch.secret_frame [OF g [unfolded hk_def]] by blast
  have v: "chap_verify hk secret remmd c2" using p(5) by (simp add: chap_verify_def w c1_def)
  have "CHAP_RESPONSE \<noteq> CHAP_CHALLENGE" by (simp add: chap_code_defs)
  then have "ChapInput hk q n c = chap_answer hk name True c2"
    using assms(1) l p(1-3) g [unfolded c1_def One_nat_def] v
    by (simp add: ChapInput_def ChapReceiveResponse_def Let_def c_def [symmetric] c1_def [symmetric])
  then show ?thesis
    using chap_answer_lets_in [of c2 "lc_chap (lw_cfg (world s))" N name] assms(1)
    by (simp add: on_chap_def hk_def [symmetric] c_def [symmetric] w c1_def)
qed

lemma upap_lift_same:
  assumes "same_auth (world (upap_store u)) (world (g (upap_store u)))"
  shows "upap_lift g u = upap_with (g (upap_store u)) u"
  using assms by (simp add: upap_lift_def upap_view_def same_auth_def)

lemma unit_fields [simp]:
  "us_unit (upap_sresp k i m u) = us_unit u" "u_world (stop_reqtimer u) = u_world u" "us_unit (upap_lowerdown u) = us_unit u"
  by (simp_all add: upap_sresp_def upap_output_def stop_reqtimer_def upap_lowerdown_def Let_def)

lemma upap_checkauth_lets_in:
  assumes "fst (check_passwd (link_upap_hooks N) n p (upap_record n p u)) = UPAP_AUTHACK"
  shows "\<not> sys_waits UPAP_PEER (us_unit u) (u_world (upap_checkauth (link_upap_hooks N) pid n p u))"
proof -
  define r where "r = upap_record n p u"
  obtain code msg t where c: "link_check_passwd N (us_unit r) n p (upap_store r) = (code, msg, t)" by (metis prod_cases3)
  have code: "code = UPAP_AUTHACK"
    using assms c by (simp add: link_upap_hooks_def r_def)
  have "auth_or_down (upap_store r) t" using link_check_passwd_down [of "upap_store r" N "us_unit r" n p] c by simp
  then have unit: "us_unit (lw_upap (world t)) = us_unit u"
    by (auto simp: auth_or_down_def same_auth_def r_def upap_record_def)
  have s: "upap_lift (link_set_userip N m) x = upap_with (link_set_userip N m (upap_store x)) x" for m x
    by (rule upap_lift_same) (simp add: link_set_userip_same)
  have p: "upap_lift (on_world (link_peer_success N l PPP_PAP)) x = upap_with (on_world (link_peer_success N l PPP_PAP) (upap_store x)) x" for x l
    by (rule upap_lift_same) (simp add: same_auth_success)
  show ?thesis
    unfolding upap_checkauth_def upap_record_def [symmetric] r_def [symmetric]
    by (simp add: link_upap_hooks_def c code Let_def s p unit success_clears)
qed

lemma parse_authreq_nonneg:
  assumes "parse_authreq inp len = Ok x"
  shows "0 \<le> len"
proof -
  obtain k rest where "getchar inp = Ok (k, rest)" "\<not> len - (1 + uint k + 1) < 0"
    using assms by (auto simp: parse_authreq_def Let_def bindo_Ok_iff split: if_splits)
  moreover have "0 \<le> uint k" by simp
  ultimately show ?thesis by linarith
qed

lemma upap_proof_lets_in:
  assumes "us_serverstate (upap_view s) = UPAPSS_LISTEN" "upap_proof (link_upap_hooks N) q n (upap_view s)" "n \<le> 2000"
  shows "\<not> sys_waits UPAP_PEER (us_unit (upap_view s)) (on_upap N (\<lambda>hk. upap_input hk q n) s)"
proof -
  obtain pid hi lo inp user passwd where p:
    "q = UPAP_AUTHREQ # pid # hi # lo # inp" "uint (join16 hi lo) \<le> n"
    "parse_authreq inp (uint (join16 hi lo) - UPAP_HEADERLEN) = Ok (user, passwd)"
    "fst (check_passwd (link_upap_hooks N) user passwd (upap_record user passwd (upap_view s))) = UPAP_AUTHACK"
    using assms(2) unfolding upap_proof_def by (elim exE conjE)
  have "0 \<le> uint (join16 hi lo) - UPAP_HEADERLEN"
    using parse_authreq_nonneg [OF p(3)] .
  then have l: "\<not> uint (join16 hi lo) < UPAP_HEADERLEN" "\<not> szt n < UPAP_HEADERLEN"
    using p(2) assms(3) by (simp_all add: szt_def UPAP_HEADERLEN_def)
  then have "upap_input (link_upap_hooks N) q n (upap_view s) = upap_checkauth (link_upap_hooks N) pid user passwd (upap_view s)"
    using p(1-3) assms(1) by (simp add: upap_input_def upap_rauthreq_def Let_def less_upap_server_def)
  then show ?thesis
    using upap_checkauth_lets_in [OF p(4), of pid] by (simp add: on_upap_def)
qed

theorem lets_in_clears:
  assumes "lets_in N b (join16 ph pl) q (len - PPP_HDRLEN) s" "f_state s = OPENED" "len \<le> 2000"
    and "b = CHAP_PEER \<Longrightarrow> ch_serverstate (chap_view s) = CHAPSS_INITIAL_CHAL \<and> ch_unit (chap_view s) = v"
    and "b = UPAP_PEER \<Longrightarrow> us_serverstate (upap_view s) = UPAPSS_LISTEN \<and> us_unit (upap_view s) = v"
  shows "\<not> sys_waits b v (get_input N (a # c # ph # pl # q) len s)"
proof -
  have d: "CHAP_PEER \<noteq> UPAP_PEER" by (simp add: CHAP_PEER_def UPAP_PEER_def)
  have prot: "PPP_CHAP \<noteq> PPP_LCP" "PPP_CHAP \<noteq> PPP_PAP" "PPP_PAP \<noteq> PPP_LCP"
    by (simp_all add: PPP_CHAP_def PPP_LCP_def PPP_PAP_def)
  show ?thesis
  proof (cases "b = CHAP_PEER")
    case True
    then have p: "join16 ph pl = PPP_CHAP"
      "chap_proof (link_chap_hooks (lc_chap (lw_cfg (world s))) N) q (len - PPP_HDRLEN) (chap_view s)"
      using assms(1) d by (simp_all add: lets_in_def)
    then obtain hi lo where "uint (join16 hi lo) \<le> len - PPP_HDRLEN" unfolding chap_proof_def by blast
    then have l: "\<not> len < 4" using order_trans [OF uint_nonnegative] by (fastforce simp: PPP_HDRLEN_def)
    then have "get_input N (a # c # ph # pl # q) len s = on_chap N (\<lambda>hk. ChapInput hk q (len - PPP_HDRLEN)) s"
      using p(1) prot assms(2) by (simp add: get_input_def demux_input_def Let_def PPP_HDRLEN_def)
    then show ?thesis
      using chap_proof_lets_in [OF _ p(2)] assms(3,4) True by (simp add: PPP_HDRLEN_def)
  next
    case False
    then have b: "b = UPAP_PEER" and p: "join16 ph pl = PPP_PAP"
      "upap_proof (link_upap_hooks N) q (len - PPP_HDRLEN) (upap_view s)"
      using assms(1) by (simp_all add: lets_in_def)
    then obtain hi lo where "uint (join16 hi lo) \<le> len - PPP_HDRLEN" unfolding upap_proof_def by blast
    then have l: "\<not> len < 4" using order_trans [OF uint_nonnegative] by (fastforce simp: PPP_HDRLEN_def)
    then have "get_input N (a # c # ph # pl # q) len s = on_upap N (\<lambda>hk. upap_input hk q (len - PPP_HDRLEN)) s"
      using p(1) prot assms(2) by (simp add: get_input_def demux_input_def Let_def PPP_HDRLEN_def)
    then show ?thesis
      using upap_proof_lets_in [OF _ p(2)] assms(3,5) b by (simp add: PPP_HDRLEN_def)
  qed
qed


end
