(* ===== verification/Link_Examples.thy ===== *)
theory Link_Examples
  imports Link_Auth
begin

text \<open>
  A link at which the properties of the whole link are applied: its peer \<open>u\<close> must authenticate itself, the
  secrets files hold one entry, and the network protocols only count their units.
\<close>

section \<open>The state\<close>

definition counting_protent :: "nat protent" where
  "counting_protent =
     \<lparr>pe_enabled = True, pe_getunit = (\<lambda>l n. (0, Suc n)), pe_freeunit = (\<lambda>u n. n - 1), pe_setunit = (\<lambda>u l n. n),
      pe_lowerup = (\<lambda>u n. n), pe_lowerdown = (\<lambda>u n. n), pe_open = (\<lambda>u n. n), pe_close = (\<lambda>u r n. n),
      pe_protrej = (\<lambda>l u n. n), pe_input = (\<lambda>l u p k n. n), pe_datainput = None\<rparr>"

definition example_protents :: "nat protents" where
  "example_protents =
     \<lparr>net_ipcp = counting_protent, net_ipxcp = counting_protent, net_ccp = counting_protent,
      net_ccp_link = counting_protent, net_cbcp = counting_protent,
      net_cbcp_input = (\<lambda>l p k n. (False, n)), net_setifip = (\<lambda>u n. n), net_set_hisaddr = (\<lambda>u a n. n)\<rparr>"

definition example_entries :: "auth_entry list" where
  "example_entries = [\<lparr>ae_client = [117], ae_server = [115], ae_secret = [112, 119], ae_addrs = [[42]]\<rparr>]"

definition example_auth :: auth_config where
  "example_auth =
     \<lparr>au_files = (\<lambda>f. if f \<in> {PATH_UPAPFILE, PATH_CHAPFILE} then Some (auth_text example_entries) else None),
      au_crypt = (\<lambda>p salt. []), au_pwnam = (\<lambda>n. None), au_our_name = [115], au_remote_name = [114],
      au_user = [117], au_passwd = [], au_ask_passwd = False, au_fdpasswd = False, au_uselogin = False,
      au_cryptpap = False, au_required = True\<rparr>"

definition example_chap_env :: chap_env where
  "example_chap_env = \<lparr>md5 = (\<lambda>m. replicate 15 (last m) @ [hd m]), draw_length = (\<lambda>n. 32), draw_byte = (\<lambda>n. 7), ch_hostname = [104]\<rparr>"

definition example_config :: link_config where
  "example_config =
     \<lparr>lc_auth = example_auth, lc_chap = example_chap_env, lc_echo_interval = 0, lc_echo_fails = 3, lc_loopbackfail = 10,
      lc_idle_limit = 0, lc_numdev = 1, lc_useifip = False, lc_usefirstip = False,
      lc_resolver = \<lparr>host_by_name = (\<lambda>n. None), net_by_name = (\<lambda>n. None), inet_addr = (\<lambda>n. 0)\<rparr>,
      lc_user_name = [], lc_userip = (\<lambda>n. None)\<rparr>"

definition example_lns :: "link_phase \<Rightarrow> u8 \<Rightarrow> link_struct" where
  "example_lns ph pd =
     \<lparr>ls_bundle_next = 0, ls_logged_in = False, ls_auth_pending = pd, ls_addresses = None, ls_master = 0,
      ls_lcp_unit = 0, ls_ipcp_unit = -1, ls_ccp_unit = -1, ls_ccp_l_unit = -1, ls_cbcp_unit = -1,
      ls_ipxcp_unit = -1, ls_phase = ph, ls_auth_up_script = False, ls_ifunit = 0, ls_ifname = [], ls_devnam = [],
      ls_peer_authname = [], ls_incoming = False, ls_remote_num = [], ls_attempts = 0\<rparr>"

definition example_upap :: "upap_server \<Rightarrow> upap_client \<Rightarrow> unit upap_sys" where
  "example_upap server client =
     \<lparr>us_unit = 0, us_user = [117], us_ruser = replicate 64 0, us_userlen = 1, us_ruserlen = 0, us_passwd = [112, 119],
      us_rpasswd = replicate 64 0, us_passwdlen = 2, us_rpasswdlen = 0, us_clientstate = client, us_serverstate = server,
      us_id = 0, us_timeouttime = UPAP_DEFTIMEOUT, us_transmits = 1, us_maxtransmits = 10, us_reqtimeout = UPAP_DEFREQTIME,
      u_retrans = 1, u_reqtimers = 1, u_sent = [], u_ub = False, u_world = ()\<rparr>"

definition example_chap :: "chap_server \<Rightarrow> chap_client \<Rightarrow> unit chap_sys" where
  "example_chap server client =
     \<lparr>ch_unit = 0, ch_clientstate = client, ch_serverstate = server, ch_challenge = replicate 64 7, ch_chal_len = 32,
      ch_chal_id = 9, ch_chal_type = CHAP_MD5, ch_id = 9, ch_chal_name = [115], ch_chal_interval = 0,
      ch_timeouttime = CHAP_DEFTIMEOUT, ch_max_transmits = CHAP_DEFTRANSMITS, ch_chal_transmits = 1,
      ch_resp_transmits = 0, ch_response = replicate 64 0, ch_resp_length = 0, ch_resp_id = 0, ch_resp_type = CHAP_MD5,
      ch_resp_name = [117], ch_chal_timers = 1, ch_resp_timers = 1, ch_rechal_timers = 0, ch_sent = [], ch_ub = False,
      ch_draws = 0, ch_world = ()\<rparr>"

definition example_world :: "link_phase \<Rightarrow> u8 \<Rightarrow> unit upap_sys \<Rightarrow> unit chap_sys \<Rightarrow> nat lcp_world" where
  "example_world ph pd u c =
     \<lparr>lw_cfg = example_config, lw_lns = (\<lambda>i. example_lns ph pd), lw_want = (\<lambda>i. zero_lcp_options),
      lw_got = (\<lambda>i. zero_lcp_options), lw_allow = (\<lambda>i. zero_lcp_options), lw_his = (\<lambda>i. zero_lcp_options),
      lw_xmit_accm = (\<lambda>i. 0), lw_upap = u, lw_chap = c, lw_other_upap = (\<lambda>i. upap_state.truncate u),
      lw_magic = (\<lambda>n. 77), lw_drawn = 0, lw_idle = (\<lambda>n. Some 1000), lw_asked = 0, lw_echos_pending = 3,
      lw_echo_number = 0, lw_echo_running = False, lw_echo_timers = 0, lw_idle_running = False, lw_idle_timers = 0,
      lw_aborted = False, lw_net = 0, lw_calls = [], lw_ub = False\<rparr>"

definition example_link :: "link_state \<Rightarrow> nat \<Rightarrow> nat lcp_world \<Rightarrow> nat lcp_sys" where
  "example_link st n w =
     \<lparr>f_unit = 0, f_inuse = True, f_protocol = PPP_LCP, f_state = st, f_flags = 0, f_id = 1, f_reqid = 1,
      f_seen_ack = False, f_timeouttime = DEFTIMEOUT, f_maxconfreqtransmits = DEFMAXCONFREQS, f_retransmits = 9,
      f_maxtermtransmits = DEFMAXTERMREQS, f_nakloops = 0, f_maxnakloops = DEFMAXNAKLOOPS, f_term_reason = [],
      f_term_reason_len = 0, peer_mru = 1500, timers = n, sent = [], ub = False, world = w\<rparr>"

lemmas example_defs = example_link_def example_world_def example_lns_def example_chap_def example_upap_def
  example_config_def example_auth_def

section \<open>Proofs the peer can give\<close>

lemma example_plain: "list_all plain_entry example_entries"
  by (simp add: example_entries_def plain_entry_def plain_word_def plain_char_def isspace_def MAXWORDLEN_def)

lemma example_files:
  "au_files example_auth PATH_UPAPFILE = Some (auth_text example_entries)"
  "au_files example_auth PATH_CHAPFILE = Some (auth_text example_entries)"
  by (simp_all add: example_auth_def)

lemma example_chap_secret: "chap_secret example_auth [117] [115] = Some ([112, 119], Some [[42]])"
  by (simp add: chap_secret_def example_files scan_authfile_finds [OF example_plain])
    (simp add: example_auth_def example_entries_def best_entry_def better_entry_def name_fits_def entry_flag_def MAXSECRETLEN_def)

lemma example_pap_verdict: "fst (pap_verdict example_auth [117] [112, 119]) = UPAP_AUTHACK"
  by (simp add: pap_verdict_def pap_secret_def example_files scan_authfile_finds [OF example_plain])
    (simp add: example_auth_def example_entries_def best_entry_def better_entry_def name_fits_def entry_flag_def)

text \<open>The server waits for the Response (the Authenticate-Request) of the peer.\<close>

definition example_chap_server :: "nat lcp_sys" where
  "example_chap_server = example_link OPENED 0 (example_world PHASE_AUTHENTICATE CHAP_PEER
     (example_upap UPAPSS_CLOSED UPAPCS_CLOSED) (example_chap CHAPSS_INITIAL_CHAL CHAPCS_CLOSED))"

definition example_pap_server :: "nat lcp_sys" where
  "example_pap_server = example_link OPENED 0 (example_world PHASE_AUTHENTICATE UPAP_PEER
     (example_upap UPAPSS_LISTEN UPAPCS_CLOSED) (example_chap CHAPSS_CLOSED CHAPCS_CLOSED))"

definition example_response :: "u8 list" where
  "example_response = [CHAP_RESPONSE, 9, 0, 22, 16] @ replicate 15 7 @ [9, 117]"

definition example_authreq :: "u8 list" where
  "example_authreq = [UPAP_AUTHREQ, 5, 0, 9, 1, 117, 2, 112, 119]"

lemma example_server_parts [simp]:
  "lw_chap (world example_chap_server) = example_chap CHAPSS_INITIAL_CHAL CHAPCS_CLOSED"
  "lw_upap (world example_pap_server) = example_upap UPAPSS_LISTEN UPAPCS_CLOSED"
  "lw_cfg (world example_chap_server) = example_config" "lw_cfg (world example_pap_server) = example_config"
  "lc_auth example_config = example_auth" "lc_chap example_config = example_chap_env"
  "f_state example_chap_server = OPENED" "f_state example_pap_server = OPENED"
  by (simp_all add: example_chap_server_def example_pap_server_def example_link_def example_world_def example_config_def)

lemma example_response_lets_in:
  "lets_in example_protents CHAP_PEER PPP_CHAP example_response 22 example_chap_server"
proof -
  have r: "example_response = CHAP_RESPONSE # 9 # 0 # 22 # (16 # replicate 15 7 @ [9, 117])"
    by (simp add: example_response_def)
  have p: "parse_value (16 # replicate 15 7 @ [9, 117]) (uint (join16 0 22) - CHAP_HEADERLEN) = Ok (replicate 15 7 @ [9], [117])"
    by code_simp
  have l: "uint (join16 0 22) \<le> 22" by code_simp
  have v: "chap_verify example_chap_env [112, 119] (replicate 15 7 @ [9]) (example_chap CHAPSS_INITIAL_CHAL CHAPCS_CLOSED)"
    by code_simp
  have "chap_verify (link_chap_hooks example_chap_env example_protents) [112, 119] (replicate 15 7 @ [9]) (chap_view example_chap_server)"
    using v by (simp add: chap_verify_def chap_digest_def)
  then have "chap_proof (link_chap_hooks example_chap_env example_protents) example_response 22 (chap_view example_chap_server)"
    unfolding chap_proof_def
    by (intro exI [of _ 0] exI [of _ 22] exI [of _ "16 # replicate 15 7 @ [9, 117]"] exI [of _ "replicate 15 7 @ [9]"]
        exI [of _ "[117]"] exI [of _ "[112, 119]"])
      (simp add: r p l link_secret_found example_chap_secret example_chap_def)
  then show ?thesis by (simp add: lets_in_def)
qed

lemma example_authreq_lets_in:
  "lets_in example_protents UPAP_PEER PPP_PAP example_authreq 9 example_pap_server"
proof -
  have r: "example_authreq = UPAP_AUTHREQ # 5 # 0 # 9 # [1, 117, 2, 112, 119]"
    by (simp add: example_authreq_def)
  have p: "parse_authreq [1, 117, 2, 112, 119] (uint (join16 0 9) - UPAP_HEADERLEN) = Ok ([117], [112, 119])"
    by code_simp
  have l: "uint (join16 0 9) \<le> 9" by code_simp
  have "fst (check_passwd (link_upap_hooks example_protents) [117] [112, 119]
      (upap_record [117] [112, 119] (upap_view example_pap_server))) = UPAP_AUTHACK"
    using example_pap_verdict by (simp add: link_upap_hooks_def Let_def case_prod_beta link_check_code upap_record_def cstr_def)
  then have "upap_proof (link_upap_hooks example_protents) example_authreq 9 (upap_view example_pap_server)"
    unfolding upap_proof_def
    by (intro exI [of _ 5] exI [of _ 0] exI [of _ 9] exI [of _ "[1, 117, 2, 112, 119]"] exI [of _ "[117]"] exI [of _ "[112, 119]"])
      (simp add: r p l)
  then show ?thesis by (simp add: lets_in_def)
qed

text \<open>The packets with their PPP header.\<close>

definition example_chap_packet :: link_event where
  "example_chap_packet = LkPacket ([255, 3, 0xc2, 0x23] @ example_response) 26"

definition example_pap_packet :: link_event where
  "example_pap_packet = LkPacket ([255, 3, 0xc0, 0x23] @ example_authreq) 13"

lemma example_protocols: "join16 0xc2 0x23 = PPP_CHAP" "join16 0xc0 0x23 = PPP_PAP" "PPP_CHAP \<noteq> PPP_LCP" "PPP_PAP \<noteq> PPP_LCP"
  by code_simp+

lemma example_packets_no_lcp: "\<not> lcp_packet example_chap_packet" "\<not> lcp_packet example_pap_packet"
  by (simp_all add: lcp_packet_def example_chap_packet_def example_pap_packet_def example_protocols)

lemma example_waits:
  "waits_for CHAP_PEER 0 (world example_chap_server)" "waits_for UPAP_PEER 0 (world example_pap_server)"
  by (simp_all add: waits_for_def example_chap_server_def example_pap_server_def example_link_def example_world_def
      example_lns_def pending_bits)

lemma example_let_in:
  "\<not> waits_for CHAP_PEER 0 (world (link_step example_protents example_chap_packet example_chap_server))"
  "\<not> waits_for UPAP_PEER 0 (world (link_step example_protents example_pap_packet example_pap_server))"
  using lets_in_clears [of example_protents CHAP_PEER "0xc2" "0x23" example_response 26 example_chap_server 0 255 3]
    lets_in_clears [of example_protents UPAP_PEER "0xc0" "0x23" example_authreq 13 example_pap_server 0 255 3]
    example_response_lets_in example_authreq_lets_in
  by (simp_all add: example_chap_packet_def example_pap_packet_def example_protocols PPP_HDRLEN_def example_chap_def
      example_upap_def CHAP_PEER_def UPAP_PEER_def)

end
