(* ===== verification/Link_Armed.thy ===== *)
theory Link_Armed
  imports Link_Inv
begin

text \<open>
  No protocol of a link waits without a timer: LCP, PAP and CHAP each have an entry on the callout list
  whenever they are in a state that waits for an answer, through all events of the link. For PAP and CHAP
  this is an instance of \<open>auth_inv\<close>, and so is that their buffers keep their sizes.
\<close>

section \<open>LCP\<close>

lemma fail_armed:
  "armed s \<Longrightarrow> armed (link_peer_fail N u r s)" "armed s \<Longrightarrow> armed (link_withpeer_fail u r s)"
  "armed s \<Longrightarrow> armed (lcp_close N rs s)"
  by (simp_all add: keepsD(1) [OF link_peer_fail_keeps] keepsD(1) [OF link_withpeer_fail_keeps]
      keepsD(1) [OF lcp_close_keeps])

lemma check_armed: "armed s \<Longrightarrow> armed (snd (snd (link_check_passwd N i n p s)))"
  by (simp add: link_check_passwd_def Let_def case_prod_beta fail_armed)

lemma userip_armed:
  "armed s \<Longrightarrow> armed (link_set_userip N n s)" "armed s \<Longrightarrow> armed (snd (link_get_secret i n m b s))"
  by (simp_all add: link_set_userip_def link_get_secret_def split: option.split)

interpretation luar: upap_world "link_upap_hooks N" armed
  by unfold_locales
    (simp_all add: link_upap_hooks_def upap_lift_def fail_armed check_armed userip_armed case_prod_beta)

interpretation lchar: chap_world "link_chap_hooks env N" armed
  by unfold_locales (simp_all add: chap_lift_def fail_armed userip_armed)

lemma on_auth_armed:
  "armed s \<Longrightarrow> armed (on_upap N (\<lambda>hk. upap_step hk e) s)" "armed s \<Longrightarrow> armed (on_chap N (\<lambda>hk. chap_step hk e') s)"
  by (simp_all add: on_upap_def on_chap_def luar.upap_step_P lchar.chap_step_P del: upap_step.simps chap_step.simps)

lemma on_auth_packet_armed:
  assumes "armed s"
  shows "armed (on_upap N (\<lambda>hk. upap_input hk p l) s)" "armed (on_chap N (\<lambda>hk. ChapInput hk p l) s)"
  using on_auth_armed(1) [OF assms, of N "UpapInput p l"] on_auth_armed(2) [OF assms, of N "ChapPacket p l"]
  by (simp_all add: on_upap_def on_chap_def)

lemma get_input_armed:
  assumes "armed s"
  shows "armed (get_input N p len s)"
proof -
  have d: "armed t" if "demux_input N pr q n s = Some t" for pr q n t
    using that assms on_auth_packet_armed [OF assms] lcpf.input_armed [OF assms]
    by (auto simp: demux_input_def Let_def lcp_input_def net_input_def cbcp_packet_def case_prod_beta fail_armed
        split: if_splits)
  show ?thesis
    using assms d
    by (simp add: get_input_def Let_def lcp_sprotrej_def armed_def [of "t\<lparr>f_id := k\<rparr>" for t k] armed_def [of s]
        split: list.split option.split)
qed

lemma echo_armed: "armed s \<Longrightarrow> armed (LcpEchoTimeout N s)" "armed s \<Longrightarrow> armed (IdleTimeCheck N s)"
  by (simp_all add: LcpEchoTimeout_def IdleTimeCheck_def keepsD(1) [OF LcpEchoCheck_keeps] keepsD(1) [OF RestartIdleTimer_keeps])

lemma link_step_armed: "armed s \<Longrightarrow> armed (link_step N e s)"
proof (cases e)
  case LkFsmTimer
  assume "armed s"
  then show ?thesis using LkFsmTimer lcpf.step_armed [of s N Timeout] by (simp del: fsm_step.simps)
next
  case LkOpen
  assume "armed s"
  then have "armed (s\<lparr>f_flags := k\<rparr>)" for k by (simp add: armed_def)
  then show ?thesis
    unfolding LkOpen link_step.simps lcp_open_def Let_def by (intro keepsD(1) [OF lcpf.open_keeps])
next
  case LkLowerUp
  assume "armed s"
  then show ?thesis
    unfolding LkLowerUp link_step.simps lcp_lowerup_def Let_def by (intro keepsD(1) [OF lcpf.lowerup_keeps]) simp
next
  case LkLowerDown
  assume "armed s"
  then show ?thesis
    unfolding LkLowerDown link_step.simps lcp_lowerdown_def by (intro keepsD(1) [OF lcpf.lowerdown_keeps]) simp
qed (simp_all add: get_input_armed fail_armed echo_armed on_auth_armed del: upap_step.simps chap_step.simps)

section \<open>PAP and CHAP\<close>

lemma lowerdown_armed: "upap_armed (upap_lowerdown u)" "chap_armed (ChapLowerDown c)"
  by (simp_all add: armed_defs chap_armed_def)

lemma armed_with [simp]: "upap_armed (upap_with x u) = upap_armed u" "chap_armed (chap_with x c) = chap_armed c"
  by (simp_all add: armed_defs chap_armed_def)

lemma chap_orders_armed:
  "chap_armed c \<Longrightarrow> chap_armed (ChapLowerUp env c)" "chap_armed c \<Longrightarrow> chap_armed (ChapAuthPeer env n d c)"
  "chap_armed c \<Longrightarrow> chap_armed (ChapAuthWithPeer n d c)"
  by (simp_all add: chap_armed_def ChapLowerUp_def ChapAuthPeer_def ChapAuthWithPeer_def Let_def)

lemma upap_orders_armed:
  "upap_armed u \<Longrightarrow> upap_armed (upap_lowerup u)" "upap_armed u \<Longrightarrow> upap_armed (upap_authpeer u)"
  "upap_armed u \<Longrightarrow> upap_armed (upap_authwithpeer n p u)"
  by (simp_all add: armed_defs upap_lowerup_def upap_authpeer_def upap_authwithpeer_def start_armed Let_def)

interpretation larm: auth_inv N "\<lambda>cfg. True" upap_armed chap_armed
  by unfold_locales
    (simp_all add: lowerdown_armed lua.step_armed lch.step_armed chap_orders_armed upap_orders_armed
      del: upap_step.simps chap_step.simps)

definition link_armed :: "'n lcp_sys \<Rightarrow> bool" where
  "link_armed s \<longleftrightarrow> armed s \<and> upap_armed (lw_upap (world s)) \<and> chap_armed (lw_chap (world s))"

theorem link_reaches_armed: "link_reaches N s0 s \<Longrightarrow> link_armed s0 \<Longrightarrow> link_armed s"
proof (induction rule: link_reaches.induct)
  case (step s e)
  then show ?case
    using link_step_armed [of s N e] larm.link_step_auth [of s N e] by (simp add: link_armed_def auth_holds_def)
qed simp

end
