(* ===== verification/Auth_Buffers.thy ===== *)
theory Auth_Buffers
  imports Link_Inv
begin

text \<open>
  The arrays in the structs of upap.c and chap.c: they keep the sizes of their declarations and the
  lengths stored beside them stay within these. Again the contract is what the functions of auth.c may do,
  here to the buffers; the link discharges it and gets the invariant for all its events from \<open>auth_inv\<close>.
\<close>

definition upap_fits :: "'w upap_sys \<Rightarrow> bool" where
  "upap_fits u \<longleftrightarrow> length (us_ruser u) = 64 \<and> length (us_rpasswd u) = 64
     \<and> 0 \<le> us_ruserlen u \<and> us_ruserlen u \<le> 64 \<and> 0 \<le> us_rpasswdlen u \<and> us_rpasswdlen u \<le> 64"

definition chap_fits :: "'w chap_sys \<Rightarrow> bool" where
  "chap_fits c \<longleftrightarrow> length (ch_challenge c) = MAX_CHALLENGE_LENGTH \<and> length (ch_response c) = 64
     \<and> ch_chal_len c < MAX_CHALLENGE_LENGTH \<and> ch_resp_length c \<le> MD5_SIGNATURE_SIZE"

text \<open>The digests and challenge lengths that md5.c and the expression over \<open>drand48\<close> give.\<close>

definition chap_env_ok :: "'e chap_env_scheme \<Rightarrow> bool" where
  "chap_env_ok env \<longleftrightarrow> (\<forall>m. length (md5 env m) = MD5_SIGNATURE_SIZE)
     \<and> (\<forall>n. MIN_CHALLENGE_LENGTH \<le> draw_length env n \<and> draw_length env n < MAX_CHALLENGE_LENGTH)"

section \<open>PAP\<close>

lemma strncpy_length: "n \<le> length dst \<Longrightarrow> length (strncpy_into dst src n) = length dst"
proof -
  assume n: "n \<le> length dst"
  have "length (takeWhile (\<lambda>c. c \<noteq> 0) (take n src)) \<le> length (take n src)" by (rule length_takeWhile_le)
  then have "length (takeWhile (\<lambda>c. c \<noteq> 0) (take n src)) \<le> n" by (auto simp: min_def split: if_splits)
  then show ?thesis using n by (simp add: strncpy_into_def Let_def)
qed

lemma upap_fits_frame [simp]:
  "upap_fits (upap_output b u) = upap_fits u" "upap_fits (upap_sresp c i m u) = upap_fits u"
  "upap_fits (upap_sauthreq u) = upap_fits u" "upap_fits (start_reqtimer u) = upap_fits u"
  "upap_fits (stop_reqtimer u) = upap_fits u" "upap_fits (upap_lowerdown u) = upap_fits u"
  "upap_fits (u\<lparr>us_clientstate := x\<rparr>) = upap_fits u" "upap_fits (u\<lparr>us_serverstate := y\<rparr>) = upap_fits u"
  "upap_fits (u\<lparr>u_ub := b'\<rparr>) = upap_fits u" "upap_fits (u\<lparr>u_retrans := k\<rparr>) = upap_fits u"
  "upap_fits (u\<lparr>u_reqtimers := k\<rparr>) = upap_fits u"
  by (simp_all add: upap_fits_def upap_output_def upap_sresp_def upap_sauthreq_def start_reqtimer_def stop_reqtimer_def
      upap_lowerdown_def Let_def)

lemma upap_record_fits:
  "upap_fits u \<Longrightarrow> length n \<le> 64 \<Longrightarrow> length p \<le> 64 \<Longrightarrow> upap_fits (upap_record n p u)"
  by (simp add: upap_fits_def upap_record_def strncpy_length)

lemma parse_authreq_short:
  "parse_authreq inp len = Ok (n, p) \<Longrightarrow> length n \<le> 64 \<and> length p \<le> 64"
  by (auto simp: parse_authreq_def Let_def bindo_Ok_iff split: if_splits)

locale upap_buffers =
  fixes hk :: "'w upap_hooks"
  assumes withpeer_fail_fits: "upap_fits u \<Longrightarrow> upap_fits (auth_withpeer_fail hk r u)"
    and withpeer_success_fits: "upap_fits u \<Longrightarrow> upap_fits (auth_withpeer_success hk u)"
    and peer_fail_fits: "upap_fits u \<Longrightarrow> upap_fits (auth_peer_fail hk r u)"
    and peer_success_fits: "upap_fits u \<Longrightarrow> upap_fits (auth_peer_success hk u)"
    and check_fits: "upap_fits u \<Longrightarrow> upap_fits (snd (snd (check_passwd hk n p u)))"
    and userip_fits: "upap_fits u \<Longrightarrow> upap_fits (set_userip hk n k u)"
begin

lemmas hook_fits = withpeer_fail_fits withpeer_success_fits peer_fail_fits peer_success_fits check_fits userip_fits

lemma checkauth_fits:
  assumes "upap_fits u" "length n \<le> 64" "length p \<le> 64"
  shows "upap_fits (upap_checkauth hk pid n p u)"
  using upap_record_fits [OF assms]
  by (simp add: upap_checkauth_def Let_def case_prod_beta hook_fits upap_record_def)

lemma input_fits: "upap_fits u \<Longrightarrow> upap_fits (upap_input hk pkt l u)"
proof -
  assume u: "upap_fits u"
  have "upap_fits (upap_rauthreq hk inp pid len u)" for inp pid len
    using u checkauth_fits parse_authreq_short [of inp len]
    by (cases "parse_authreq inp len") (auto simp: upap_rauthreq_def)
  then show ?thesis
    using u by (simp add: upap_input_def upap_rauthack_def upap_rauthnak_def Let_def hook_fits split: list.split outcome.split)
qed

lemma step_fits: "upap_fits u \<Longrightarrow> upap_fits (upap_step hk e u)"
proof (cases e)
  case (UpapAuthWithPeer n p)
  assume "upap_fits u"
  then show ?thesis using UpapAuthWithPeer by (simp add: upap_authwithpeer_def upap_fits_def [of "u\<lparr>us_user := a\<rparr>" for a] Let_def)
      (simp add: upap_fits_def)
qed (simp_all add: input_fits upap_authpeer_def upap_lowerup_def upap_protrej_def upap_timeout_def upap_reqtimeout_def
    hook_fits Let_def)

end

section \<open>CHAP\<close>

lemma chap_fits_frame [simp]:
  "chap_fits (chap_output b c) = chap_fits c" "chap_fits (ChapSendStatus hk k c) = chap_fits c"
  "chap_fits (ChapSendChallenge c) = chap_fits c" "chap_fits (ChapSendResponse c) = chap_fits c"
  "chap_fits (chap_message q l c) = chap_fits c" "chap_fits (ChapLowerDown c) = chap_fits c"
  "chap_fits (c\<lparr>ch_clientstate := x\<rparr>) = chap_fits c" "chap_fits (c\<lparr>ch_serverstate := y\<rparr>) = chap_fits c"
  "chap_fits (c\<lparr>ch_ub := b'\<rparr>) = chap_fits c" "chap_fits (c\<lparr>ch_chal_timers := n\<rparr>) = chap_fits c"
  "chap_fits (c\<lparr>ch_resp_timers := n\<rparr>) = chap_fits c" "chap_fits (c\<lparr>ch_rechal_timers := n\<rparr>) = chap_fits c"
  "chap_fits (c\<lparr>ch_resp_name := nm, ch_resp_type := d\<rparr>) = chap_fits c"
  "chap_fits (c\<lparr>ch_chal_name := nm, ch_chal_type := d\<rparr>) = chap_fits c"
  "chap_fits (c\<lparr>ch_resp_id := d, ch_resp_transmits := t\<rparr>) = chap_fits c"
  by (simp_all add: chap_fits_def chap_output_def ChapSendStatus_def ChapSendChallenge_def ChapSendResponse_def
      chap_message_def ChapLowerDown_def Let_def)

lemma chap_gen_fits:
  assumes "chap_env_ok env" "chap_fits c"
  shows "chap_fits (ChapGenChallenge env c)"
proof -
  have "draw_length env k < MAX_CHALLENGE_LENGTH" for k using assms(1) by (simp add: chap_env_ok_def)
  then show ?thesis
    using assms(2) by (auto simp: chap_fits_def ChapGenChallenge_def Let_def less_imp_le)
qed

lemma chap_response_fits:
  "chap_env_ok env \<Longrightarrow> chap_fits c \<Longrightarrow>
     chap_fits (c\<lparr>ch_response := chap_digest env pid secret ch @ drop MD5_SIGNATURE_SIZE (ch_response c),
                  ch_resp_length := MD5_SIGNATURE_SIZE\<rparr>)"
  by (simp add: chap_env_ok_def chap_fits_def chap_digest_def MD5_SIGNATURE_SIZE_def)

locale chap_buffers =
  fixes hk :: "'w chap_hooks"
  assumes withpeer_fail_fits: "chap_fits c \<Longrightarrow> chap_fits (ch_withpeer_fail hk r c)"
    and withpeer_success_fits: "chap_fits c \<Longrightarrow> chap_fits (ch_withpeer_success hk c)"
    and peer_fail_fits: "chap_fits c \<Longrightarrow> chap_fits (ch_peer_fail hk r c)"
    and peer_success_fits: "chap_fits c \<Longrightarrow> chap_fits (ch_peer_success hk c)"
    and secret_fits: "chap_fits c \<Longrightarrow> chap_fits (snd (get_secret hk n m b c))"
    and userip_fits: "chap_fits c \<Longrightarrow> chap_fits (ch_set_userip hk n k c)"
begin

lemmas hook_fits = withpeer_fail_fits withpeer_success_fits peer_fail_fits peer_success_fits secret_fits userip_fits

lemma challenge_fits:
  assumes "chap_env_ok hk" "chap_fits c"
  shows "chap_fits (ChapReceiveChallenge hk inp pid len c)"
proof (cases "parse_value inp len")
  case (Ok x)
  obtain rch rh where x: "x = (rch, rh)" by (cases x)
  obtain found c1 where g: "get_secret hk (ch_resp_name c) rh False c = (found, c1)" by (metis surj_pair)
  have c1: "chap_fits c1" using secret_fits [OF assms(2)] g by (metis snd_conv)
  define c2 where "c2 = (if ch_clientstate c1 = CHAPCS_RESPONSE then c1\<lparr>ch_resp_timers := ch_resp_timers c1 - 1\<rparr> else c1)
      \<lparr>ch_resp_id := pid, ch_resp_transmits := 0\<rparr>"
  have "chap_fits c2" using c1 by (simp add: c2_def)
  then show ?thesis
    using assms(2) chap_response_fits [OF assms(1), of c2]
    by (simp add: ChapReceiveChallenge_def Ok x g Let_def c2_def [symmetric])
qed (use assms(2) in \<open>simp_all add: ChapReceiveChallenge_def\<close>)

lemma answer_fits: "chap_fits c \<Longrightarrow> chap_fits (chap_answer hk n good c)"
  by (simp add: chap_answer_def Let_def hook_fits)

lemma input_fits:
  assumes "chap_env_ok hk" "chap_fits c"
  shows "chap_fits (ChapInput hk pkt l c)"
proof -
  have r: "chap_fits (ChapReceiveResponse hk inp pid len c)" for inp pid len
    using assms(2)
    by (simp add: ChapReceiveResponse_def Let_def case_prod_beta answer_fits secret_fits split: outcome.split)
  show ?thesis
    using assms challenge_fits r
    by (simp add: ChapInput_def ChapReceiveSuccess_def ChapReceiveFailure_def Let_def hook_fits split: list.split)
qed

lemma step_fits:
  assumes "chap_env_ok hk" "chap_fits c"
  shows "chap_fits (chap_step hk e c)"
  using assms
  by (cases e)
    (simp_all add: input_fits ChapAuthWithPeer_def ChapAuthPeer_def ChapLowerUp_def ChapProtocolReject_def
      ChapChallengeTimeout_def ChapResponseTimeout_def ChapRechallenge_def chap_gen_fits hook_fits Let_def)

end

section \<open>On the link\<close>

lemma fits_with [simp]: "upap_fits (upap_with x u) = upap_fits u" "chap_fits (chap_with x c) = chap_fits c"
  by (simp_all add: upap_fits_def chap_fits_def upap_with_def chap_with_def upap_state.defs upap_sys.defs
      chap_state.defs chap_sys.defs)

lemma fits_view:
  "auth_or_down (upap_store u) s \<Longrightarrow> upap_fits u \<Longrightarrow> upap_fits (upap_view s)"
  "auth_or_down (chap_store c) s \<Longrightarrow> chap_fits c \<Longrightarrow> chap_fits (chap_view s)"
  by (auto simp: auth_or_down_def same_auth_def upap_view_def chap_view_def)

interpretation lub: upap_buffers "link_upap_hooks N"
  by unfold_locales
    (simp_all add: link_upap_hooks_def upap_lift_def fits_view(1) [OF auth_hook_rules(1)] fits_view(1) [OF auth_hook_rules(2)]
      fits_view(1) [OF auth_hook_rules(5)] fits_view(1) [OF auth_hook_rules(6)] fits_view(1) [OF auth_hook_rules(7)]
      fits_view(1) [OF auth_hook_rules(8)] case_prod_beta)

interpretation lcb: chap_buffers "link_chap_hooks env N"
  by unfold_locales
    (simp_all add: chap_lift_def fits_view(2) [OF auth_hook_rules(1)]
      fits_view(2) [OF auth_hook_rules(5)] fits_view(2) [OF auth_hook_rules(6)] fits_view(2) [OF auth_hook_rules(7)]
      fits_view(2) [OF auth_hook_rules(8)] fits_view(2) [OF auth_hook_rules(9)])

lemma env_ok_hooks [simp]: "chap_env_ok (link_chap_hooks env N) = chap_env_ok env"
  by (simp add: chap_env_ok_def)

lemma orders_fit:
  "upap_fits u \<Longrightarrow> upap_fits (upap_lowerup u)" "upap_fits u \<Longrightarrow> upap_fits (upap_authpeer u)"
  "upap_fits u \<Longrightarrow> upap_fits (upap_authwithpeer n p u)"
  "chap_env_ok env \<Longrightarrow> chap_fits c \<Longrightarrow> chap_fits (ChapLowerUp env c)"
  "chap_env_ok env \<Longrightarrow> chap_fits c \<Longrightarrow> chap_fits (ChapAuthPeer env n d c)"
  "chap_fits c \<Longrightarrow> chap_fits (ChapAuthWithPeer n d c)"
  by (simp_all add: upap_lowerup_def upap_authpeer_def upap_authwithpeer_def ChapLowerUp_def ChapAuthPeer_def
      ChapAuthWithPeer_def chap_gen_fits Let_def) (simp add: upap_fits_def)

interpretation lfit: auth_inv N "\<lambda>cfg. chap_env_ok (lc_chap cfg)" upap_fits chap_fits
  by unfold_locales
    (simp_all add: orders_fit lub.step_fits lcb.step_fits del: upap_step.simps chap_step.simps)

end
