(* ===== verification/Link_Properties.thy ===== *)
theory Link_Properties
  imports Link_Examples Link_Armed Auth_Buffers
begin

text \<open>
  Properties of a link as a whole: who is let in, that nothing waits forever, and what closing does. They
  are applied to the link of \<open>Link_Examples\<close>.
\<close>

section \<open>Who is let in\<close>

text \<open>
  C1: whatever packets, timers and orders a link sees, neither it nor any other link is in the network or
  callback phase while it still waits for an authentication.
\<close>

theorem link_no_network_before_auth:
  assumes "link_reaches N s0 s" "phases_ok (world s0)" "ls_phase (lw_lns (world s) v) \<in> {PHASE_NETWORK, PHASE_CALLBACK}"
  shows "ls_auth_pending (lw_lns (world s) v) = 0"
  using link_reaches_phases [OF assms(1,2)] assms(3) by (auto simp: phases_ok_def)

theorem link_no_network_before_auth_witness:
  "ls_auth_pending (lw_lns (world (link_step example_protents LkUpapTimer (example_link OPENED 0
     (example_world PHASE_NETWORK 0 (example_upap UPAPSS_OPEN UPAPCS_CLOSED) (example_chap CHAPSS_CLOSED CHAPCS_CLOSED))))) 0) = 0"
proof (rule link_no_network_before_auth [OF link_reaches.step [OF link_reaches.start]])
  show "phases_ok (world (example_link OPENED 0
     (example_world PHASE_NETWORK 0 (example_upap UPAPSS_OPEN UPAPCS_CLOSED) (example_chap CHAPSS_CLOSED CHAPCS_CLOSED))))"
    by (simp add: phases_ok_def example_link_def example_world_def example_lns_def)
  show "ls_phase (lw_lns (world (link_step example_protents LkUpapTimer (example_link OPENED 0
     (example_world PHASE_NETWORK 0 (example_upap UPAPSS_OPEN UPAPCS_CLOSED) (example_chap CHAPSS_CLOSED CHAPCS_CLOSED))))) 0)
     \<in> {PHASE_NETWORK, PHASE_CALLBACK}"
    by (simp add: on_upap_def upap_timeout_def upap_store_def upap_view_def example_link_def example_world_def
        example_lns_def example_upap_def)
qed





text \<open>
  C4: the other direction: while the server of CHAP (of PAP) waits, a correct Response (an accepted
  Authenticate-Request) on an open link takes the bit of the peer off the pending authentications.
\<close>

theorem proof_lets_in:
  assumes "lets_in N b (join16 ph pl) q (len - PPP_HDRLEN) s" "f_state s = OPENED" "len \<le> PPP_MRU + PPP_HDRLEN"
    and "b = CHAP_PEER \<Longrightarrow> ch_serverstate (lw_chap (world s)) = CHAPSS_INITIAL_CHAL \<and> ch_unit (lw_chap (world s)) = v"
    and "b = UPAP_PEER \<Longrightarrow> us_serverstate (lw_upap (world s)) = UPAPSS_LISTEN \<and> us_unit (lw_upap (world s)) = v"
  shows "ls_auth_pending (lw_lns (world (link_step N (LkPacket (a # c # ph # pl # q) len) s)) v) AND b = 0"
  using lets_in_clears [of N b ph pl q len s v a c] assms by (simp add: waits_for_def PPP_MRU_def PPP_HDRLEN_def)

theorem proof_lets_in_witness:
  "ls_auth_pending (lw_lns (world (link_step example_protents
     (LkPacket (255 # 3 # 0xc2 # 0x23 # example_response) 26) example_chap_server)) 0) AND CHAP_PEER = 0"
  by (rule proof_lets_in)
    (use example_response_lets_in in \<open>simp_all add: example_protocols PPP_MRU_def PPP_HDRLEN_def example_chap_def
      CHAP_PEER_def UPAP_PEER_def\<close>)



section \<open>Nothing waits forever\<close>



text \<open>
  C7: the buffers of PAP and CHAP keep the sizes of their declarations through all events, and the lengths
  of names, passwords, challenges and digests stored beside them stay within these sizes.
\<close>

theorem auth_buffers_fit:
  assumes "link_reaches N s0 s" "chap_env_ok (lc_chap (lw_cfg (world s0)))"
    and "upap_fits (lw_upap (world s0))" "chap_fits (lw_chap (world s0))"
  shows "length (us_ruser (lw_upap (world s))) = 64 \<and> us_ruserlen (lw_upap (world s)) \<le> 64
    \<and> length (us_rpasswd (lw_upap (world s))) = 64 \<and> us_rpasswdlen (lw_upap (world s)) \<le> 64
    \<and> length (ch_challenge (lw_chap (world s))) = MAX_CHALLENGE_LENGTH \<and> ch_chal_len (lw_chap (world s)) < MAX_CHALLENGE_LENGTH
    \<and> length (ch_response (lw_chap (world s))) = 64 \<and> ch_resp_length (lw_chap (world s)) \<le> 16"
  using lfit.link_reaches_auth [OF assms(1)] assms(2-4)
  by (simp add: auth_holds_def upap_fits_def chap_fits_def MD5_SIGNATURE_SIZE_def)

theorem auth_buffers_fit_witness:
  "length (us_ruser (lw_upap (world (link_step example_protents example_pap_packet example_pap_server)))) = 64"
proof -
  have p: "lw_chap (world example_pap_server) = example_chap CHAPSS_CLOSED CHAPCS_CLOSED"
    by (simp add: example_pap_server_def example_defs)
  have "chap_env_ok (lc_chap (lw_cfg (world example_pap_server)))" "upap_fits (lw_upap (world example_pap_server))"
    "chap_fits (lw_chap (world example_pap_server))"
    by (simp_all add: p chap_env_ok_def example_chap_env_def upap_fits_def chap_fits_def MD5_SIGNATURE_SIZE_def
        MIN_CHALLENGE_LENGTH_def MAX_CHALLENGE_LENGTH_def) (simp_all add: example_upap_def example_chap_def)
  from auth_buffers_fit [OF link_reaches.step [OF link_reaches.start] this, of example_protents example_pap_packet]
  show ?thesis by (elim conjE)
qed

end
