(* ===== verification/Auth_Properties.thy ===== *)
theory Auth_Properties
  imports Link_Examples Auth_Buffers
begin

text \<open>
  Properties of the authentication protocols and of the secrets files, and of how LCP closes a link. They
  are applied to the link of \<open>Link_Examples\<close>.
\<close>

section \<open>The protocols\<close>


definition example_chap_client :: "nat lcp_sys" where
  "example_chap_client = example_link OPENED 0 (example_world PHASE_AUTHENTICATE CHAP_WITHPEER
     (example_upap UPAPSS_CLOSED UPAPCS_CLOSED) (example_chap CHAPSS_CLOSED CHAPCS_LISTEN))"

lemma example_client_parts [simp]:
  "lw_chap (world example_chap_client) = example_chap CHAPSS_CLOSED CHAPCS_LISTEN" "lw_cfg (world example_chap_client) = example_config"
  by (simp_all add: example_chap_client_def example_link_def example_world_def)


lemma client_view_fields [simp]:
  "ch_clientstate (chap_view s) = ch_clientstate (lw_chap (world s))" "ch_resp_type (chap_view s) = ch_resp_type (lw_chap (world s))"
  "ch_resp_name (chap_view s) = ch_resp_name (lw_chap (world s))"
  by (simp_all add: chap_view_def chap_with_def chap_state.defs chap_sys.defs)


text \<open>
  C9: with a secrets file of ordinary lines, \<open>scan_authfile\<close> finds the entry that the administrator means: among
  those that fit the two names the first of the most specific ones, where naming the client counts more
  than naming the server.
\<close>

theorem secrets_best_entry:
  assumes "list_all plain_entry es"
  shows "scan_authfile files client server (auth_text es) = best_entry client server es"
  using assms by (rule scan_authfile_finds)

theorem secrets_best_entry_witness:
  "scan_authfile (\<lambda>f. None) (Some [117]) (Some [115]) (auth_text example_entries) = (3, Some [112, 119], [[42]])"
  by (subst secrets_best_entry [OF example_plain])
    (simp add: example_entries_def best_entry_def better_entry_def name_fits_def entry_flag_def)

text \<open>
  C10: a word written in double quotes, with a backslash before each quote and backslash, is read back
  by \<open>getword\<close> as it was, whatever blanks, comment signs or newlines are in it.
\<close>

theorem getword_reads_quoted:
  assumes "length w < MAXWORDLEN"
  shows "getword old (quote w @ f) = (True, w, False, f)"
  using assms by (rule getword_quoted)

theorem getword_reads_quoted_witness:
  "getword [] (quote [34, 32, 92, 35] @ [10]) = (True, [34, 32, 92, 35], False, [10])"
  by (rule getword_reads_quoted) (simp add: MAXWORDLEN_def)

text \<open>
  C11: a PAP client whose peer keeps silent sends its request again at each timeout and, once it has been sent
  \<open>us_maxtransmits\<close> times, gives up.
\<close>

theorem pap_client_gives_up:
  assumes "us_clientstate u = UPAPCS_AUTHREQ" "u_retrans u = 1" "us_maxtransmits u = us_transmits u + int k"
  shows "us_clientstate ((upap_step (link_upap_hooks N) UpapTimeout ^^ k) u) = UPAPCS_AUTHREQ
    \<and> length (u_sent ((upap_step (link_upap_hooks N) UpapTimeout ^^ k) u)) = length (u_sent u) + k
    \<and> us_clientstate ((upap_step (link_upap_hooks N) UpapTimeout ^^ Suc k) u) = UPAPCS_BADAUTH"
  using assms
proof (induction k arbitrary: u)
  case 0
  have w: "upap_lift (link_withpeer_fail l r) v = upap_with (link_withpeer_fail l r (upap_store v)) v" for v l r
    by (rule upap_lift_same) (simp add: link_withpeer_fail_down)
  show ?case using 0 by (simp add: upap_timeout_def link_upap_hooks_def w)
next
  case (Suc k)
  have "us_transmits u < us_maxtransmits u" using Suc.prems by simp
  with lua.silent_step [of u N] Suc.prems
  have s: "upap_step (link_upap_hooks N) UpapTimeout u = upap_sauthreq (u\<lparr>u_retrans := 0\<rparr>)" by simp
  have "length (u_sent (upap_sauthreq (u\<lparr>u_retrans := 0\<rparr>))) = Suc (length (u_sent u))"
    by (simp add: upap_sauthreq_def upap_output_def Let_def)
  moreover have "us_maxtransmits (upap_sauthreq (u\<lparr>u_retrans := 0\<rparr>)) = us_transmits (upap_sauthreq (u\<lparr>u_retrans := 0\<rparr>)) + int k"
    using Suc.prems by simp
  ultimately show ?case
    using Suc.IH [of "upap_sauthreq (u\<lparr>u_retrans := 0\<rparr>)"] by (simp add: funpow_swap1 s del: funpow.simps upap_step.simps) (simp add: funpow_swap1 s del: upap_step.simps)
qed

theorem pap_client_gives_up_witness:
  "us_clientstate ((upap_step (link_upap_hooks example_protents) UpapTimeout ^^ Suc 9)
     (upap_view (example_link OPENED 0 (example_world PHASE_AUTHENTICATE 1 (example_upap UPAPSS_CLOSED UPAPCS_AUTHREQ)
       (example_chap CHAPSS_CLOSED CHAPCS_CLOSED))))) = UPAPCS_BADAUTH"
  by (rule pap_client_gives_up [THEN conjunct2, THEN conjunct2])
    (simp_all add: upap_view_def example_defs upap_with_def upap_state.defs upap_sys.defs)

text \<open>
  C12: a user name of 64 characters or more in an accepted PAP request makes \<open>set_userip\<close> write behind its
  buffer \<open>name[64]\<close>: it puts the final NUL behind the up to 64 characters that the request keeps.
\<close>

theorem set_userip_overrun:
  assumes "us_serverstate (lw_upap (world s)) = UPAPSS_LISTEN" "64 \<le> length user" "length user < 256" "length password < 256"
    and "fst (pap_verdict (lc_auth (lw_cfg (world s))) (cstr (take 64 user)) (cstr (take 64 password))) = UPAP_AUTHACK"
  shows "u_ub (upap_rauthreq (link_upap_hooks N) (authreq_body user password) pid
     (int (length (authreq_body user password))) (upap_view s))"
proof -
  define n where "n = take 64 user"
  define r where "r = upap_record n (take 64 password) (upap_view s)"
  obtain code msg t where c: "link_check_passwd N (us_unit r) n (take 64 password) (upap_store r) = (code, msg, t)" by (metis prod_cases3)
  have "fst (link_check_passwd N (us_unit r) n (take 64 password) (upap_store r)) = UPAP_AUTHACK"
    using assms(5) by (simp add: link_check_code r_def n_def upap_record_def)
  then have code: "code = UPAP_AUTHACK" using c by simp
  have len: "length n = 64" using assms(2) by (simp add: n_def)
  have s: "upap_lift (link_set_userip N m) x = upap_with (link_set_userip N m (upap_store x)) x" for m x
    by (rule upap_lift_same) (simp add: link_set_userip_same)
  have p: "upap_lift (on_world (link_peer_success N l PPP_PAP)) x = upap_with (on_world (link_peer_success N l PPP_PAP) (upap_store x)) x" for x l
    by (rule upap_lift_same) (simp add: same_auth_success)
  have "u_ub (upap_checkauth (link_upap_hooks N) pid n (take 64 password) (upap_view s))"
    unfolding upap_checkauth_def upap_record_def [symmetric] r_def [symmetric]
    by (simp add: link_upap_hooks_def c code Let_def s p len stop_reqtimer_def)
  then show ?thesis
    using assms(1) parse_authreq_body [OF assms(3,4)] by (simp add: upap_rauthreq_def less_upap_server_def n_def)
qed

text \<open>A daemon that accepts the system's users, one of whom has no password.\<close>

definition example_login :: "nat lcp_sys" where
  "example_login = on_world (\<lambda>w. w\<lparr>lw_cfg := example_config\<lparr>lc_auth := example_auth\<lparr>au_files := \<lambda>f. None,
     au_uselogin := True, au_pwnam := \<lambda>n. Some \<lparr>pw_passwd = [], pw_expired = False\<rparr>\<rparr>\<rparr>\<rparr>) example_pap_server"

theorem set_userip_overrun_witness:
  "u_ub (upap_rauthreq (link_upap_hooks example_protents) (authreq_body (replicate 70 97) [112]) 5
     (int (length (authreq_body (replicate 70 97) [112]))) (upap_view example_login))"
  by (rule set_userip_overrun)
    (simp_all add: example_login_def pap_verdict_def pap_secret_def check_login_def Let_def, simp add: example_upap_def)

section \<open>LCP closes and opens\<close>

text \<open>
  C13: with \<open>lcp_echo_fails\<close> echo requests unanswered, the next echo timeout on an idle line takes the link
  down: LCP goes to Closing, PAP and CHAP are taken down and the link is in the terminate phase. But the
  timer has been armed again, by the function that has just let it be stopped.
\<close>

theorem echo_failure_closes:
  assumes "f_state s = OPENED" "lw_echo_running (world s)" "0 < lw_echo_timers (world s)" "0 \<le> lcp_unit s"
    and "lc_echo_fails (lw_cfg (world s)) \<noteq> 0" "lc_echo_fails (lw_cfg (world s)) \<le> lw_echos_pending (world s)"
    and "lw_idle (world s) (lw_asked (world s)) = Some idle" "lc_echo_interval (lw_cfg (world s)) < idle"
  shows "f_state (link_step N LkEchoTimer s) = CLOSING
    \<and> ls_phase (lw_lns (world (link_step N LkEchoTimer s)) (f_unit s)) = PHASE_TERMINATE
    \<and> us_clientstate (lw_upap (world (link_step N LkEchoTimer s))) = UPAPCS_INITIAL
    \<and> ch_serverstate (lw_chap (world (link_step N LkEchoTimer s))) = CHAPSS_INITIAL
    \<and> lw_echo_running (world (link_step N LkEchoTimer s)) \<and> 0 < lw_echo_timers (world (link_step N LkEchoTimer s))"
proof -
  define t where "t = on_world (\<lambda>w. w\<lparr>lw_echo_timers := lw_echo_timers w - 1, lw_echo_running := False,
      lw_asked := Suc (lw_asked w), lw_echos_pending := lw_echos_pending w + 1\<rparr>) s"
  have t: "f_state t = OPENED" "0 \<le> lcp_unit t" "\<not> lw_echo_running (world t)" "f_unit t = f_unit s"
    using assms by (simp_all add: t_def lcp_unit_def)
  define c where "c = lcp_close N ''Excessive lack of response to LCP echo frames.'' t"
  have run: "lw_echo_running (link_down N i w) = lw_echo_running w" for i w
    by (simp add: link_down_def link_last_down_def link_unbundle_def Let_def set_link_def net_do_def set_phase_def split: option.split)
  have c: "f_state c = CLOSING" "ls_phase (lw_lns (world c) (f_unit s)) = PHASE_TERMINATE" "\<not> lw_echo_running (world c)"
    "us_clientstate (lw_upap (world c)) = UPAPCS_INITIAL" "ch_serverstate (lw_chap (world c)) = CHAPSS_INITIAL"
    using t unfolding c_def
    by (simp_all add: lcp_close_def fsm_close_def lcp_base_def lcp_down_def lcp_echo_lowerdown_def lcp_do_def run Let_def)
      (simp_all add: link_down_def set_phase_def set_link_def Let_def)
  have "link_step N LkEchoTimer s = on_world arm_echo (on_world (\<lambda>w. w\<lparr>lw_echos_pending := 0\<rparr>) c)"
    using assms c(1) by (simp add: LcpEchoTimeout_def LcpEchoCheck_def ask_idle_def LcpSendEchoRequest_def LcpLinkFailure_def
        on_world_def c_def t_def Let_def)
  then show ?thesis
    using c by (simp add: arm_echo_def)
qed

definition example_silent :: "nat lcp_sys" where
  "example_silent = on_world (\<lambda>w. w\<lparr>lw_echo_running := True, lw_echo_timers := 1\<rparr>) example_pap_server"

theorem echo_failure_closes_witness:
  "f_state (link_step example_protents LkEchoTimer example_silent) = CLOSING"
  by (rule echo_failure_closes [where idle = 1000, THEN conjunct1])
    (simp_all add: example_silent_def lcp_unit_def, simp_all add: example_pap_server_def example_defs)

text \<open>What closing LCP leaves alone.\<close>

definition same_options :: "'n lcp_world \<Rightarrow> 'n lcp_world \<Rightarrow> bool" where
  "same_options w x \<longleftrightarrow> lw_got x = lw_got w \<and> lw_his x = lw_his w \<and> lw_want x = lw_want w \<and> lw_cfg x = lw_cfg w
     \<and> (\<forall>v. ls_lcp_unit (lw_lns x v) = ls_lcp_unit (lw_lns w v) \<and> ls_incoming (lw_lns x v) = ls_incoming (lw_lns w v))"

lemma same_options_simps [simp]:
  "(\<And>l. ls_lcp_unit (g l) = ls_lcp_unit l \<and> ls_incoming (g l) = ls_incoming l) \<Longrightarrow>
     same_options v (set_link i g w) = same_options v w"
  "same_options v (set_phase i ph w) = same_options v w" "same_options v (lcp_do cl w) = same_options v w"
  "same_options v (net_do h w) = same_options v w" "same_options v (w\<lparr>lw_ub := b\<rparr>) = same_options v w"
  "same_options v (w\<lparr>lw_upap := u\<rparr>) = same_options v w" "same_options v (w\<lparr>lw_chap := c\<rparr>) = same_options v w"
  "same_options v (lcp_echo_lowerdown w) = same_options v w"
  by (auto simp: same_options_def set_link_def set_phase_def lcp_do_def net_do_def lcp_echo_lowerdown_def Let_def)

lemma close_opened:
  assumes "f_state s = OPENED" "0 \<le> lcp_unit s"
  shows "f_state (lcp_close N r s) = CLOSING \<and> f_unit (lcp_close N r s) = f_unit s
    \<and> same_options (world s) (world (lcp_close N r s))"
proof -
  have d: "same_options v (link_down N i w) = same_options v w" for v i w
    by (simp add: link_down_def link_last_down_def link_unbundle_def Let_def split: option.split)
  have r: "same_options w w" for w by (simp add: same_options_def)
  show ?thesis
    using assms by (simp add: lcp_close_def fsm_close_def fsm_stermreq_def lcp_base_def lcp_down_def d r Let_def)
      (simp add: fsm_sdata_def TIMEOUT_def Let_def)
qed

lemma network_phase_enters:
  fixes w :: "'n lcp_world"
  assumes "\<not> (l_neg_mp (mp_flags (lw_got w (ls_lcp_unit (lw_lns w l)))) \<and> l_neg_mp (mp_flags (lw_his w (ls_lcp_unit (lw_lns w l)))))"
  shows "ls_phase (lw_lns (network_phase N l w) l) = PHASE_NETWORK"
proof -
  have o: "ls_phase (lw_lns (link_other_up pe (\<lambda>u l. l\<lparr>ls_ccp_l_unit := u\<rparr>) l x) l) = ls_phase (lw_lns x l)" for pe and x :: "'n lcp_world"
    using same_phases_up(2) [of "\<lambda>u l. l\<lparr>ls_ccp_l_unit := u\<rparr>" x pe l x] by (simp add: same_phases_def)
  have p: "ls_phase (lw_lns (set_phase l ph x) l) = ph" for ph and x :: "'n lcp_world"
    by (simp add: set_phase_def set_link_def)
  show ?thesis
    using assms
    by (cases "l_neg_mp (mp_flags (lw_got w (ls_lcp_unit (lw_lns w l))))") (simp_all add: network_phase_def Let_def o p)
qed

text \<open>A link on which nothing was negotiated goes straight to the network phase.\<close>

lemma established_nobody:
  fixes t :: "'n lcp_sys"
  assumes "lw_got (world t) (lcp_unit t) = zero_lcp_options" "lw_his (world t) (lcp_unit t) = zero_lcp_options"
    and "\<not> au_required (lc_auth (lw_cfg (world t)))"
  shows "f_state (link_established N t) = f_state t
    \<and> ls_phase (lw_lns (world (link_established N t)) (f_unit t)) = PHASE_NETWORK"
proof -
  have z: "\<not> l_neg_chap zero_lcp_options" "\<not> l_neg_upap zero_lcp_options" "\<not> l_neg_callback zero_lcp_options"
    "mp_flags zero_lcp_options = zero_lcp_options" "\<not> l_neg_mp zero_lcp_options"
    by (simp_all add: zero_lcp_options_def mp_flags_def)
  define t2 where "t2 = on_world (set_phase (f_unit t) PHASE_AUTHENTICATE) t"
  define x where "x = set_link (f_unit t) (\<lambda>l. l\<lparr>ls_auth_pending := 0\<rparr>) (world t2)"
  have r: "link_refused t = (False, t)"
    using assms(3) by (simp add: link_refused_def)
  have "lw_got (world t2) (lcp_unit t2) = zero_lcp_options" "lw_his (world t2) (lcp_unit t2) = zero_lcp_options"
    using assms(1,2) by (simp_all add: t2_def set_phase_def set_link_def lcp_unit_def)
  then have a: "link_auth t2 = (t2, 0)"
    using z by (simp add: link_auth_def)
  have x: "lw_got x (ls_lcp_unit (lw_lns x (f_unit t))) = zero_lcp_options"
    "lw_his x (ls_lcp_unit (lw_lns x (f_unit t))) = zero_lcp_options"
    using assms(1,2) by (simp_all add: x_def t2_def set_phase_def set_link_def lcp_unit_def)
  have cb: "callback_phase N (f_unit t) x = network_phase N (f_unit t) x"
    using x z by (simp add: callback_phase_def)
  have e: "link_established N t = t2\<lparr>world := network_phase N (f_unit t) x\<rparr>"
    unfolding link_established_def r Let_def t2_def [symmetric] prod.case a
    by (simp add: on_world_def x_def [symmetric] cb)
  have "ls_phase (lw_lns (network_phase N (f_unit t) x) (f_unit t)) = PHASE_NETWORK"
    by (rule network_phase_enters) (simp add: x z)
  then show ?thesis by (simp add: e) (simp add: t2_def)
qed

text \<open>The idle check at the start closes a line that has been idle for too long.\<close>

lemma idle_at_start:
  fixes s :: "'n lcp_sys" and N :: "'n protents"
  assumes "f_state s = OPENED" "0 \<le> lcp_unit s"
    and "lc_echo_interval (lw_cfg (world s)) = 0" "lc_idle_limit (lw_cfg (world s)) \<noteq> 0"
    and "lw_idle (world s) (lw_asked (world s)) = Some idle" "lc_idle_limit (lw_cfg (world s)) \<le> idle"
  defines "t \<equiv> lcp_echo_lowerup N s"
  shows "f_state t = CLOSING" "f_unit t = f_unit s" "same_options (world s) (world t)"
proof -
  define s1 where "s1 = s\<lparr>world := (world s)\<lparr>lw_echos_pending := 0, lw_echo_number := 0, lw_echo_running := False,
    lw_asked := Suc (lw_asked (world s))\<rparr>\<rparr>"
  define c where "c = lcp_close N ''No IP frames received within idle time limit'' s1"
  have t: "t = on_world (set_phase (f_unit s) PHASE_TERMINATE) c"
    using assms(1,3,4,5,6) by (simp add: t_def lcp_echo_lowerup_def RestartIdleTimer_def ask_idle_def c_def s1_def on_world_def Let_def)
  have s1: "f_state s1 = OPENED" "0 \<le> lcp_unit s1" "f_unit s1 = f_unit s"
    using assms(1,2) by (simp_all add: s1_def lcp_unit_def)
  from close_opened [OF s1(1,2), of N] have c: "f_state c = CLOSING" "f_unit c = f_unit s" "same_options (world s1) (world c)"
    using s1(3) by (simp_all add: c_def)
  show "f_state t = CLOSING" "f_unit t = f_unit s"
    using c(1,2) by (simp_all add: t)
  show "same_options (world s) (world t)"
    using c(3) by (simp add: t s1_def same_options_def set_phase_def set_link_def)
qed

text \<open>
  \<open>lcp_up\<close> does not notice when the idle check closes the link: with a line idle for longer than the
  limit, LCP is in Closing, and yet the link enters the network phase (here with nobody to authenticate).
\<close>

theorem lcp_up_goes_on:
  assumes "f_state s = OPENED" "0 \<le> lcp_unit s"
    and "lc_echo_interval (lw_cfg (world s)) = 0" "lc_idle_limit (lw_cfg (world s)) \<noteq> 0"
    and "lw_idle (world s) (lw_asked (world s)) = Some idle" "lc_idle_limit (lw_cfg (world s)) \<le> idle"
    and "\<not> au_required (lc_auth (lw_cfg (world s)))"
    and go: "lw_got (world s) (lcp_unit s) = zero_lcp_options" and ho: "lw_his (world s) (lcp_unit s) = zero_lcp_options"
  shows "f_state (lcp_up N s) = CLOSING \<and> ls_phase (lw_lns (world (lcp_up N s)) (f_unit s)) = PHASE_NETWORK"
proof -
  define w where "w = lcp_up_config (f_unit s) (lcp_unit s) (lcp_up_magic (lcp_unit s) (world s))"
  define s0 where "s0 = s\<lparr>world := w\<lparr>lw_chap := ChapLowerUp (lc_chap (lw_cfg w)) (lw_chap w), lw_upap := upap_lowerup (lw_upap w)\<rparr>\<rparr>"
  define t where "t = lcp_echo_lowerup N s0"
  have w: "lw_got w (lcp_unit s) = zero_lcp_options" "lw_his w (lcp_unit s) = zero_lcp_options" "lw_cfg w = lw_cfg (world s)"
    "lw_idle w = lw_idle (world s)" "lw_asked w = lw_asked (world s)" "lw_lns w = lw_lns (world s)"
    using go ho by (simp_all add: w_def lcp_up_config_def lcp_up_magic_def lcp_do_def Let_def zero_lcp_options_def)
  have up: "lcp_up N s = link_established N t"
    using w(2) by (simp add: lcp_up_def Let_def t_def s0_def w_def [symmetric] on_world_def zero_lcp_options_def)
  have u: "lcp_unit s0 = lcp_unit s" "f_unit s0 = f_unit s"
    by (simp_all add: s0_def lcp_unit_def w)
  have t: "f_state t = CLOSING" "f_unit t = f_unit s" "same_options (world s0) (world t)"
    using idle_at_start [of s0 idle N] assms(1-6) u by (simp_all add: s0_def w t_def)
  have "lcp_unit t = lcp_unit s" "lw_got (world t) = lw_got w" "lw_his (world t) = lw_his w" "lw_cfg (world t) = lw_cfg w"
    using t(2,3) by (simp_all add: same_options_def s0_def lcp_unit_def w)
  then show ?thesis
    using established_nobody [of t N] t(1,2) assms(7) by (simp add: up w)
qed

definition example_idle :: "nat lcp_sys" where
  "example_idle = on_world (\<lambda>w. w\<lparr>lw_cfg := example_config\<lparr>lc_idle_limit := 60, lc_auth := example_auth\<lparr>au_required := False\<rparr>\<rparr>\<rparr>)
     example_pap_server"

theorem lcp_up_goes_on_witness:
  "f_state (lcp_up example_protents example_idle) = CLOSING
   \<and> ls_phase (lw_lns (world (lcp_up example_protents example_idle)) (f_unit example_idle)) = PHASE_NETWORK"
  by (rule lcp_up_goes_on [where idle = 1000])
    (simp_all add: example_idle_def lcp_unit_def, simp_all add: example_pap_server_def example_defs)

text \<open>
  A CHAP Failure stops the timer of the client but leaves it in the state that waits for the server's
  answer, and nothing is sent any more.
\<close>

theorem chap_failure_waits:
  fixes N :: "'n protents"
  assumes "ch_clientstate c = CHAPCS_RESPONSE" "ch_resp_timers c = 1"
  shows "ch_clientstate (ChapReceiveFailure (link_chap_hooks env N) inp len c) = CHAPCS_RESPONSE
    \<and> ch_resp_timers (ChapReceiveFailure (link_chap_hooks env N) inp len c) = 0"
proof (rule lch.failure_waits [OF assms])
  fix t :: "'n lcp_sys chap_sys"
  have "chap_lift (link_withpeer_fail l r) t = t\<lparr>ch_world := link_withpeer_fail l r (chap_store t)\<rparr>" for l r
    by (rule chap_lift_same) (simp add: link_withpeer_fail_down)
  then show "ch_clientstate (ch_withpeer_fail (link_chap_hooks env N) AUTH_ERR_USER t) = ch_clientstate t
      \<and> ch_resp_timers (ch_withpeer_fail (link_chap_hooks env N) AUTH_ERR_USER t) = ch_resp_timers t"
    by simp
qed

theorem chap_failure_waits_witness:
  "ch_resp_timers (ChapReceiveFailure (link_chap_hooks example_chap_env example_protents) [110, 111] 2
     (chap_view (example_link OPENED 0 (example_world PHASE_AUTHENTICATE 4 (example_upap UPAPSS_CLOSED UPAPCS_CLOSED)
       (example_chap CHAPSS_CLOSED CHAPCS_RESPONSE))))) = 0"
  by (rule chap_failure_waits [THEN conjunct2])
    (simp_all add: example_link_def example_world_def chap_view_def, simp_all add: example_chap_def)

definition if_unit :: "'n protent \<Rightarrow> bool \<Rightarrow> int \<Rightarrow> 'n \<Rightarrow> 'n" where
  "if_unit pe frees u n = (if 0 \<le> u then proto_down pe frees u n else n)"

text \<open>
  When the last link of a bundle goes down, each network protocol that has a unit is told that the layer
  below is down, closed, and its unit given back (that of the callback protocol stays), in the order link
  CCP, CCP, IPCP, CBCP, IPXCP; the link keeps no unit and is in the terminate phase.
\<close>

theorem link_down_last:
  fixes N :: "'n protents" and w :: "'n lcp_world"
  assumes "link_lastlink i w"
  defines "l \<equiv> lw_lns w i" and "l' \<equiv> lw_lns (link_down N i w) i"
  shows "lw_net (link_down N i w) =
      if_unit (net_ipxcp N) True (ls_ipxcp_unit l) (if_unit (net_cbcp N) False (ls_cbcp_unit l)
        (if_unit (net_ipcp N) True (ls_ipcp_unit l) (if_unit (net_ccp N) True (ls_ccp_unit l)
          (if_unit (net_ccp_link N) True (ls_ccp_l_unit l) (lw_net w)))))
    \<and> ls_phase l' = PHASE_TERMINATE
    \<and> ls_ipcp_unit l' < 0 \<and> ls_ccp_unit l' < 0 \<and> ls_ccp_l_unit l' < 0 \<and> ls_cbcp_unit l' < 0 \<and> ls_ipxcp_unit l' < 0"
proof -
  define w1 where "w1 = (if ls_ccp_l_unit l \<ge> 0
      then set_link i (\<lambda>l. l\<lparr>ls_ccp_l_unit := -1\<rparr>) (net_do (proto_down (net_ccp_link N) True (ls_ccp_l_unit l)) w) else w)"
  have d: "link_down N i w = set_phase i PHASE_TERMINATE (link_last_down N i w1)"
    using assms(1) unfolding w1_def l_def by (simp add: link_down_def link_lastlink_def Let_def set_link_def net_do_def)
  have w1: "lw_net w1 = if_unit (net_ccp_link N) True (ls_ccp_l_unit l) (lw_net w)" "ls_ccp_l_unit (lw_lns w1 i) < 0"
    "ls_ccp_unit (lw_lns w1 i) = ls_ccp_unit l" "ls_ipcp_unit (lw_lns w1 i) = ls_ipcp_unit l"
    "ls_cbcp_unit (lw_lns w1 i) = ls_cbcp_unit l" "ls_ipxcp_unit (lw_lns w1 i) = ls_ipxcp_unit l"
    by (simp_all add: w1_def l_def if_unit_def set_link_def net_do_def)
  show ?thesis
    unfolding l'_def d
    by (simp add: link_last_down_def Let_def set_phase_def set_link_def net_do_def if_unit_def w1 w1(1) [unfolded if_unit_def])
qed

theorem link_down_last_witness:
  "ls_phase (lw_lns (link_down example_protents 0 (world example_pap_server)) 0) = PHASE_TERMINATE"
  by (rule link_down_last [THEN conjunct2, THEN conjunct1])
    (simp add: link_lastlink_def example_pap_server_def example_link_def example_world_def example_lns_def)

end
