(* ===== verification/Timer_Properties.thy ===== *)
theory Timer_Properties
  imports Callout
begin

text \<open>
  Properties of the callout list of main.c, over the definitions of \<open>Callout\<close>.
\<close>

text \<open>C14: setting and cancelling timers keeps the callout list sorted by seconds.\<close>

theorem callout_sorted:
  assumes "by_second q"
  shows "by_second (timeout now k secs q) \<and> by_second (untimeout k q)"
  using assms by (simp add: timeout_def by_second_link by_second_untimeout)

definition two_calls :: "nat callout list" where
  "two_calls = [\<lparr>c_time = \<lparr>tv_sec = 1000, tv_usec = 400\<rparr>, c_key = 1\<rparr>,
                \<lparr>c_time = \<lparr>tv_sec = 1002, tv_usec = 0\<rparr>, c_key = 2\<rparr>]"

theorem callout_sorted_witness:
  "by_second (timeout \<lparr>tv_sec = 998, tv_usec = 7\<rparr> 1 3 two_calls) \<and> by_second (untimeout 1 two_calls)"
  by (rule callout_sorted) (simp add: two_calls_def by_second_def)

text \<open>
  A timer that is cancelled and set again, as the protocols do to restart it, is pending exactly
  once, and the other timers are untouched.
\<close>

theorem callout_restart:
  assumes "pending k q \<le> 1"
  shows "pending k' (timeout now k secs (untimeout k q)) = (if k' = k then 1 else pending k' q)"
  using assms by (simp add: co.rearm co.count_disarm_arm co.arm_other co.disarm_other)

theorem callout_restart_witness:
  "pending 2 (timeout \<lparr>tv_sec = 998, tv_usec = 7\<rparr> 1 3 (untimeout 1 two_calls)) = (1 :: nat)"
  using callout_restart [of 1 two_calls 2 "\<lparr>tv_sec = 998, tv_usec = 7\<rparr>" 3]
  by (simp add: two_calls_def pending_def)



text \<open>
  C16: \<open>calltimeout\<close> returns, within as many rounds as there are entries, if the routines set at most
  as many timers as they cancel.
\<close>

theorem calltimeout_terminates:
  assumes "\<And>k q s. length (fst (call k (q, s))) \<le> length q"
  shows "\<exists>r. calltimeout (Suc (length q)) clock call i (q, s) = Some r"
  by (rule calltimeout_ends) (use assms in auto)

theorem calltimeout_terminates_witness:
  "\<exists>r. calltimeout (Suc (length two_calls)) (\<lambda>j. \<lparr>tv_sec = 2000, tv_usec = 0\<rparr>)
     (\<lambda>k (q, s). (untimeout 2 q, k # s)) 0 (two_calls, []) = Some r"
proof (rule calltimeout_terminates)
  have "length (untimeout k q) \<le> length q" for k and q :: "nat callout list"
    by (induction q) auto
  then show "length (fst ((\<lambda>(q, s). (untimeout 2 q, k # s)) (q, s))) \<le> length q" for k s and q :: "nat callout list"
    by simp
qed

text \<open>
  Two timers for the same second run in the wrong order: the new one goes in front of an older one
  whatever their microseconds are, because \<open>timeout\<close> compares \<open>tv_usec\<close> with \<open>tv_sec\<close>.
\<close>

theorem callout_same_second:
  assumes "tv_sec now + secs = tv_sec (c_time p)" "tv_usec (c_time p) \<le> tv_usec now"
    "tv_usec now < 1000000" "1000000 \<le> tv_sec (c_time p)"
  shows "c_key (hd (timeout now k secs [p])) = k
    \<and> (tv_usec (c_time p) < tv_usec now \<longrightarrow> \<not> by_time (timeout now k secs [p]))"
  using assms by (simp add: timeout_def by_time_def)

theorem callout_same_second_witness:
  "\<not> by_time (timeout \<lparr>tv_sec = 1700000000, tv_usec = 900\<rparr> (2 :: nat) 3
      [\<lparr>c_time = \<lparr>tv_sec = 1700000003, tv_usec = 100\<rparr>, c_key = 1\<rparr>])"
  using callout_same_second [of "\<lparr>tv_sec = 1700000000, tv_usec = 900\<rparr>" 3
      "\<lparr>c_time = \<lparr>tv_sec = 1700000003, tv_usec = 100\<rparr>, c_key = 1\<rparr>" "2 :: nat"] by simp

end
