(* ===== verification/Ipcp_Properties.thy ===== *)
theory Ipcp_Properties
  imports Ipcp
begin

text \<open>
  Properties of the control-protocol automaton with the callback table of IPCP, of the IPCP options
  on the wire, and of the list of addresses a peer may use. \<open>example_ipcp\<close> is a state of a unit
  at which the properties are applied.
\<close>

definition example_resolver :: resolver where
  "example_resolver = \<lparr>host_by_name = (\<lambda>n. if n = ''gw'' then Some 0x0100A8C0 else None),
     net_by_name = (\<lambda>n. None), inet_addr = (\<lambda>n. 0xFFFFFFFF)\<rparr>"

definition example_ipcp :: "link_state \<Rightarrow> nat \<Rightarrow> ipcp_sys" where
  "example_ipcp st n =
     \<lparr>f_unit = 0, f_inuse = True, f_protocol = PPP_IPCP, f_state = st, f_flags = 0, f_id = 1,
      f_reqid = 1, f_seen_ack = False, f_timeouttime = DEFTIMEOUT, f_maxconfreqtransmits = DEFMAXCONFREQS,
      f_retransmits = 9, f_maxtermtransmits = DEFMAXTERMREQS, f_nakloops = 0,
      f_maxnakloops = DEFMAXNAKLOOPS, f_term_reason = [], f_term_reason_len = 0,
      peer_mru = 1500, timers = n, sent = [], ub = False,
      world = \<lparr>w_want = ipcp_init_wantoptions,
         w_got = ipcp_init_wantoptions\<lparr>i_ouraddr := 0x0200A8C0\<rparr>, w_allow = ipcp_init_allowoptions,
         w_his = zero_ipcp_options\<lparr>i_neg_addr := True, i_hisaddr := 0x0100A8C0\<rparr>,
         w_cis_received = (\<lambda>u. False), w_ipcp_unit = 0, w_resolver = example_resolver,
         w_addresses = Some [''gw''], w_getmask = (\<lambda>a. 0x00FFFFFF), w_driver = (\<lambda>cs c. True),
         w_ifname = ''ippp0'', w_devnam = ''ippp0'', w_ipparam = '''', w_baud_rate = 64000,
         w_calls = [], w_hung = False\<rparr>\<rparr>"

section \<open>The automaton\<close>

text \<open>
  C17: after any sequence of events, IPCP has a retransmission timer pending in each state in which it
  waits for the peer, so it cannot wait forever.
\<close>

theorem ipcp_run_armed:
  assumes "armed s"
  shows "armed (fsm_run ipcp_callbacks es s)"
  using assms by (rule ipcpf.run_armed)

theorem ipcp_run_armed_witness:
  "armed (fsm_run ipcp_callbacks [LowerUp, Open, Input [1, 7, 0, 4] 4, Timeout] (example_ipcp INITIAL 0))"
  by (rule ipcp_run_armed) (simp add: armed_def example_ipcp_def)

text \<open>
  C18: every event, except a Terminate-Ack in \<open>OPENED\<close>, keeps exactly one timer pending in the states that
  wait for the peer and none in the others.
\<close>

theorem ipcp_one_timer:
  assumes "one_timer s" "\<not> stray_event e s"
  shows "one_timer (fsm_step ipcp_callbacks e s)"
  using assms(2,1) by (rule ipcpf.step_one_timer)

theorem ipcp_one_timer_witness:
  "one_timer (fsm_step ipcp_callbacks (Input [1, 7, 0, 4] 4) (example_ipcp REQSENT 1))"
  by (rule ipcp_one_timer) (simp_all add: one_timer_def example_ipcp_def stray_termack_def)



text \<open>
  C20: with a silent peer IPCP sends its Configure-Request as often as its counter allows, then stops,
  with no timer left.
\<close>

theorem ipcp_gives_up:
  assumes "f_state s \<in> {REQSENT, ACKRCVD, ACKSENT}" "timers s = 1" "f_retransmits s = int n"
    "f_flags s AND OPT_PASSIVE = 0"
  shows "let t = fsm_run ipcp_callbacks (replicate (Suc n) Timeout) s
    in f_state t = STOPPED \<and> timers t = 0 \<and> sent_codes t = sent_codes s @ replicate n CONFREQ"
  using assms by (intro ipcpf.silent_peer) (simp add: ipcpf.waiting_def)

theorem ipcp_gives_up_witness:
  "let t = fsm_run ipcp_callbacks (replicate (Suc 9) Timeout) (example_ipcp REQSENT 1)
    in f_state t = STOPPED \<and> timers t = 0
      \<and> sent_codes t = sent_codes (example_ipcp REQSENT 1) @ replicate 9 CONFREQ"
  by (rule ipcp_gives_up) (simp_all add: example_ipcp_def)

text \<open>
  C21: a Terminate-Ack in \<open>OPENED\<close> sends a Configure-Request and leaves a timer behind, but the state
  stays \<open>OPENED\<close>; RFC 1661 goes to Req-Sent.
\<close>

theorem ipcp_termack_opened:
  assumes "f_state s = OPENED"
  shows "let t = fsm_input ipcp_callbacks (TERMACK # pid # putshort 4) 4 s
    in f_state t = OPENED \<and> timers t = Suc (timers s) \<and> sent_codes t = sent_codes s @ [CONFREQ]
      \<and> snd (rfc1661 RTA (f_state s)) = REQSENT"
proof -
  have "fsm_input ipcp_callbacks (TERMACK # pid # putshort 4) 4 s = fsm_rtermack ipcp_callbacks s"
    using assms by (simp add: fsm_input_def putshort_def join16_def HEADERLEN_def code_defs)
  then show ?thesis using ipcpf.termack_opened [OF assms] assms by (simp add: Let_def)
qed

theorem ipcp_termack_opened_witness:
  "f_state (fsm_input ipcp_callbacks (TERMACK # 9 # putshort 4) 4 (example_ipcp OPENED 0)) = OPENED"
  using ipcp_termack_opened [of "example_ipcp OPENED 0" 9] by (simp add: example_ipcp_def Let_def)

text \<open>
  \<open>fsm_sdata\<close> stays inside \<open>outpacket_buf\<close> and its data when the data is as long as told and the
  peer's MRU is at most 1500.
\<close>

theorem fsm_sdata_in_bounds:
  assumes "0 \<le> n" "n \<le> int (length d)" "HEADERLEN \<le> peer_mru s" "peer_mru s \<le> PPP_MRU" "n < 2 ^ 31"
  shows "ub (fsm_sdata c i d n s) = ub (s :: 'w sys)"
  using assms by (auto simp: sdata_ub outbuf_fits_def Let_def HEADERLEN_def PPP_MRU_def PPP_HDRLEN_def)

theorem fsm_sdata_in_bounds_witness:
  "\<not> ub (fsm_sdata CODEREJ 2 (replicate 1700 0) 1700 (example_ipcp OPENED 0))"
  using fsm_sdata_in_bounds [of 1700 "replicate 1700 0" "example_ipcp OPENED 0" CODEREJ 2]
  by (simp add: example_ipcp_def HEADERLEN_def PPP_MRU_def)



text \<open>
  C23: when \<open>ipcp_up\<close> leaves IPCP open, both addresses are known, the peer is authorized to use its
  address, and the driver has accepted the addresses and brought the interface up.
\<close>

theorem ipcp_up_authorized:
  assumes "f_state s = OPENED" "0 \<le> w_ipcp_unit (world s)" "f_state (ipcp_up s) = OPENED"
  shows "let w = world (ipcp_up s) in i_hisaddr (w_his w) \<noteq> 0 \<and> i_ouraddr (w_got w) \<noteq> 0
    \<and> auth_ip_addr (w_resolver w) (w_addresses w) (i_hisaddr (w_his w))
    \<and> accepted_since (length (w_calls (world s))) w
        (Sifaddr (f_unit s) (i_ouraddr (w_got w)) (i_hisaddr (w_his w)) (w_getmask w (i_ouraddr (w_got w))))
    \<and> accepted_since (length (w_calls (world s))) w (Sifup (f_unit s))"
  using ipcp_up_stays_open [OF assms] unfolding Let_def .

lemma example_auth: "auth_ip_addr example_resolver (Some [''gw'']) 0x0100A8C0"
  by code_simp

lemma example_up: "f_state (ipcp_up (example_ipcp OPENED 0)) = OPENED"
  using example_auth
  by (simp add: ipcp_up_def ipcp_up_iface_def Let_def example_ipcp_def ipcp_up_env_def do_call_def
      setenv_server_def try_call_def ipcp_init_wantoptions_def zero_ipcp_options_def)

theorem ipcp_up_authorized_witness:
  "let w = world (ipcp_up (example_ipcp OPENED 0)) in auth_ip_addr (w_resolver w) (w_addresses w) (i_hisaddr (w_his w))"
  using ipcp_up_authorized [OF _ _ example_up] by (simp add: example_ipcp_def Let_def)

end
