(* ===== verification/Ipcp_Option_Properties.thy ===== *)
theory Ipcp_Option_Properties
  imports Ipcp_Replies Ipcp_Requests Auth_Addr
begin

text \<open>
  Properties of the IPCP options on the wire (\<open>ipcp_addci\<close>, \<open>ipcp_ackci\<close>, \<open>ipcp_rejci\<close>, \<open>ipcp_nakci\<close>,
  \<open>ipcp_reqci\<close>) and of the list of addresses a peer may use (\<open>auth_ip_addr\<close>).
\<close>

section \<open>Our request\<close>

text \<open>
  The peer's Configure-Ack is accepted exactly if its options are, byte for byte, the ones that
  \<open>ipcp_addci\<close> puts into the request; no packet makes the check read outside the packet.
\<close>

theorem ipcp_ack_exact:
  assumes "within (p, len)"
  shows "ipcp_ackci go (p, len) =
    (if take (nat len) p = fst (ipcp_addci go (ipcp_cilen_sum go)) then Ok () else Bad)"
  using ipcp.ack_iff [OF TrueI assms] by (simp add: ipcp_ci_bytes_def)

theorem ipcp_ack_exact_witness:
  "ipcp_ackci (zero_ipcp_options\<lparr>i_neg_addr := True\<rparr>) ([3, 6, 0, 0, 0, 1, 9], 6) = Bad"
  using ipcp_ack_exact [of "[3, 6, 0, 0, 0, 1, 9]" 6 "zero_ipcp_options\<lparr>i_neg_addr := True\<rparr>"]
  by (simp add: within_def ipcp_addci_def ADDCIADDR_def ADDCIVJ_def ipcp_cilen_sum_def LENCIADDR_def
      LENCIVJ_def zero_ipcp_options_def ipcp_ci_defs ipcp_cilen_defs putlong_def ntohl_def)

text \<open>
  A Configure-Reject is good only if its options and those of the next request, interleaved, make up
  the request we have sent: nothing else is dropped, and nothing is invented.
\<close>

theorem ipcp_reject_splits:
  assumes "room 2 (p, len)" "ipcp_rejci_try go (p, len) = Ok tr"
  shows "fst (ipcp_addci go (ipcp_cilen_sum go))
    \<in> shuffles (take (nat len) p) (fst (ipcp_addci tr (ipcp_cilen_sum tr)))"
  using ipcp_rejci_shuffle [OF assms] by (simp add: ipcp_ci_bytes_def)

lemma reject_example:
  "ipcp_rejci_try (zero_ipcp_options\<lparr>i_neg_addr := True, i_neg_dns1 := True\<rparr>) ([129, 6, 0, 0, 0, 0, 9, 9], 6)
     = Ok (zero_ipcp_options\<lparr>i_neg_addr := True\<rparr>)"
  by code_simp

theorem ipcp_reject_splits_witness:
  "fst (ipcp_addci (zero_ipcp_options\<lparr>i_neg_addr := True, i_neg_dns1 := True\<rparr>) 12)
    \<in> shuffles [129, 6, 0, 0, 0, 0] (fst (ipcp_addci (zero_ipcp_options\<lparr>i_neg_addr := True\<rparr>) 6))"
  using ipcp_reject_splits [OF _ reject_example]
  by (simp add: room_def ipcp_cilen_sum_def LENCIADDR_def LENCIVJ_def zero_ipcp_options_def ipcp_cilen_defs)

text \<open>
  Each non-empty good Configure-Reject shortens the next request by its length, so there are at
  most as many of them in a row as our options have bytes: the exchange of Rejects ends.
\<close>

theorem ipcp_rejects_end:
  assumes "rej_run 2 ipcp_rejci_try go packets"
  shows "int (length packets) \<le> ipcp_cilen_sum go"
  using assms by (rule ipcpr.rej_run_bound [OF TrueI])

theorem ipcp_rejects_end_witness:
  "int (length [([129 :: u8, 6, 0, 0, 0, 0, 9, 9], 6 :: int)])
    \<le> ipcp_cilen_sum (zero_ipcp_options\<lparr>i_neg_addr := True, i_neg_dns1 := True\<rparr>)"
  by (rule ipcp_rejects_end) (simp add: reject_example room_def)

text \<open>
  C24: a Configure-Nak changes our address only with \<open>accept_local\<close>, the peer's only with
  \<open>accept_remote\<close>, a server address only if we asked for it, and never asks for compression anew;
  a good one is consumed to its end, and no byte is read more than two behind the packet.
\<close>

theorem ipcp_nak_safe:
  assumes "room 2 (p, len)" "ipcp_nakci_parse fuel go (p, len) = Some r"
  shows "case r of NakUndef \<Rightarrow> False | NakBad st \<Rightarrow> True | NakOk st \<Rightarrow> inak_ok go (m_try st) \<and> m_len st = 0"
  using ipcp_nakci_holds [OF assms] by (cases r) (simp_all add: inak_inv_def)

definition nak_example :: "inak_state nak_result" where
  "nak_example = the (ipcp_nakci_parse 7 (zero_ipcp_options\<lparr>i_neg_addr := True, i_accept_local := True\<rparr>)
     ([3, 6, 192, 168, 0, 2, 9, 9], 6))"

lemma nak_example_parse:
  "ipcp_nakci_parse 7 (zero_ipcp_options\<lparr>i_neg_addr := True, i_accept_local := True\<rparr>)
     ([3, 6, 192, 168, 0, 2, 9, 9], 6) = Some nak_example"
proof -
  have "ipcp_nakci_parse 7 (zero_ipcp_options\<lparr>i_neg_addr := True, i_accept_local := True\<rparr>)
     ([3, 6, 192, 168, 0, 2, 9, 9], 6) \<noteq> None"
    by code_simp
  then show ?thesis by (simp add: nak_example_def)
qed

theorem ipcp_nak_safe_witness:
  "case nak_example of NakUndef \<Rightarrow> False | NakBad st \<Rightarrow> True
    | NakOk st \<Rightarrow> inak_ok (zero_ipcp_options\<lparr>i_neg_addr := True, i_accept_local := True\<rparr>) (m_try st) \<and> m_len st = 0"
  by (rule ipcp_nak_safe [OF _ nak_example_parse]) (simp add: room_def)

text \<open>
  The loop over the extra options of a Configure-Nak ends, within as many rounds as the packet has
  bytes left, if no option has length byte 0.
\<close>

theorem ipcp_nak_ends:
  assumes "nonzero_lens (Suc (nat (m_len st))) (m_p st, m_len st)"
  shows "\<exists>r. ipcp_nak_extra (Suc (nat (m_len st))) go st = Some r"
  using ipcp_nak_extra_ends [OF _ assms] by simp

definition extra_options :: inak_state where
  "extra_options = \<lparr>m_p = [2, 6, 0, 45, 15, 1], m_len = 6, m_no = zero_ipcp_options, m_try = zero_ipcp_options\<rparr>"

theorem ipcp_nak_ends_witness:
  "\<exists>r. ipcp_nak_extra 7 zero_ipcp_options extra_options = Some r"
proof -
  have "nonzero_lens (Suc (nat (m_len extra_options))) (m_p extra_options, m_len extra_options)" by code_simp
  moreover have "Suc (nat (m_len extra_options)) = 7" by (simp add: extra_options_def)
  ultimately show ?thesis using ipcp_nak_ends [of extra_options zero_ipcp_options] by (simp only:)
qed



section \<open>The peer's request\<close>

definition peer_request :: "u8 list" where
  "peer_request = [3, 6, 192, 168, 0, 1]"

definition room_for_append :: "u8 list" where
  "room_for_append = peer_request @ replicate 6 0"

text \<open>
  C26: \<open>ipcp_reqci\<close> answers every request, stays inside the buffer if there is room for the one
  option it may append, changes of our own wishes only that it no longer asks for the peer's address,
  and of our own options only our address, and that only with \<open>accept_local\<close>.
\<close>

theorem ipcp_request_answered:
  assumes "within (inp, len)" "len < 65536" "len + CILEN_ADDR \<le> int (length inp)"
  shows "\<exists>st. ipcp_reqci ao wo go inp len rid = Ok st \<and> wo_kept wo (q_wo st) \<and> go_kept wo go (q_go st)"
  using assms by (rule ipcp_reqci_defined)

lemma example_room: "within (room_for_append, 6)" "6 + CILEN_ADDR \<le> int (length room_for_append)"
  by (simp_all add: room_for_append_def peer_request_def within_def CILEN_ADDR_def)

theorem ipcp_request_answered_witness:
  "\<exists>st. ipcp_reqci ipcp_init_allowoptions ipcp_init_wantoptions ipcp_init_wantoptions room_for_append 6 False = Ok st
    \<and> wo_kept ipcp_init_wantoptions (q_wo st) \<and> go_kept ipcp_init_wantoptions ipcp_init_wantoptions (q_go st)"
  by (rule ipcp_request_answered) (simp_all add: example_room)

text \<open>
  C27: a Configure-Ack returns the request unchanged, and grants only options we allow: an address that
  is not 0.0.0.0 and is ours to give or that we accept, and compression with at most our slots.
\<close>

theorem ipcp_request_acked:
  assumes "within (inp, len)" "len < 65536" "len + CILEN_ADDR \<le> int (length inp)"
    "ipcp_reqci ao wo go inp len rid = Ok st" "q_rc st = CONFACK"
  shows "q_buf st = inp \<and> int (q_ucp st) = len \<and> ipcp_granted ao wo (q_ho st)
    \<and> (\<exists>opts. list_all is_ci opts \<and> take (nat len) inp = concat opts)"
  using assms by (rule ipcp_reqci_ack)

definition accept_any :: ipcp_options where
  "accept_any = ipcp_init_wantoptions\<lparr>i_accept_remote := True\<rparr>"

lemma acked_example:
  "\<exists>st. ipcp_reqci ipcp_init_allowoptions accept_any accept_any room_for_append 6 False = Ok st \<and> q_rc st = CONFACK"
proof -
  have "(case ipcp_reqci ipcp_init_allowoptions accept_any accept_any room_for_append 6 False of
     Ok st \<Rightarrow> q_rc st = CONFACK | _ \<Rightarrow> False)"
    by code_simp
  then show ?thesis by (auto split: outcome.splits)
qed

theorem ipcp_request_acked_witness:
  "\<exists>st. ipcp_reqci ipcp_init_allowoptions accept_any accept_any room_for_append 6 False = Ok st
    \<and> ipcp_granted ipcp_init_allowoptions accept_any (q_ho st)"
  using acked_example ipcp_request_acked [OF example_room(1) _ example_room(2)] by fastforce

text \<open>
  A Configure-Reject carries some of the peer's options, in their order, and perhaps the malformed
  rest of the packet; the options are unchanged unless a name server is configured and
  \<open>reject_if_disagree\<close> is set.
\<close>

theorem ipcp_request_rejected:
  assumes "within (inp, len)" "len < 65536" "len + CILEN_ADDR \<le> int (length inp)"
    "ipcp_reqci ao wo go inp len rid = Ok st" "q_rc st = CONFREJ"
  shows "\<exists>opts bad rej. list_all is_ci opts \<and> take (nat len) inp = concat opts @ bad
    \<and> take (q_ucp st) (q_buf st) = concat rej @ bad \<and> answer_about (rid \<longrightarrow> no_servers ao) CONFREJ rej opts"
  using assms by (rule ipcp_reqci_reject)

definition ask_dns :: "u8 list" where
  "ask_dns = [129, 6, 10, 0, 0, 1] @ replicate 6 0"

lemma ask_dns_room: "within (ask_dns, 6)" "6 + CILEN_ADDR \<le> int (length ask_dns)"
  by (simp_all add: ask_dns_def within_def CILEN_ADDR_def)

lemma rejected_example:
  "\<exists>st. ipcp_reqci ipcp_init_allowoptions accept_any accept_any ask_dns 6 False = Ok st \<and> q_rc st = CONFREJ"
proof -
  have "(case ipcp_reqci ipcp_init_allowoptions accept_any accept_any ask_dns 6 False of
     Ok st \<Rightarrow> q_rc st = CONFREJ | _ \<Rightarrow> False)"
    by code_simp
  then show ?thesis by (auto split: outcome.splits)
qed

theorem ipcp_request_rejected_witness:
  "\<exists>st opts bad rej. ipcp_reqci ipcp_init_allowoptions accept_any accept_any ask_dns 6 False = Ok st
    \<and> take (nat 6) ask_dns = concat opts @ bad \<and> take (q_ucp st) (q_buf st) = concat rej @ bad"
  using rejected_example ipcp_request_rejected [OF ask_dns_room(1) _ ask_dns_room(2)] by fastforce

text \<open>
  A Configure-Nak is sent only without \<open>reject_if_disagree\<close>; it repeats types and lengths of some
  of the peer's options, in their order, perhaps followed by a \<open>CI_ADDR\<close> option with our wish, and is
  not empty.
\<close>

theorem ipcp_request_naked:
  assumes "within (inp, len)" "len < 65536" "len + CILEN_ADDR \<le> int (length inp)"
    "ipcp_reqci ao wo go inp len rid = Ok st" "q_rc st = CONFNAK"
  shows "\<not> rid \<and> (\<exists>opts naks extra. list_all is_ci opts \<and> take (nat len) inp = concat opts
    \<and> take (q_ucp st) (q_buf st) = concat naks @ extra \<and> extra \<in> {[], append_ci wo}
    \<and> naks @ [extra] \<noteq> [[]] \<and> answer_about False CONFNAK naks opts)"
  using assms by (rule ipcp_reqci_nak)

definition want_gateway :: ipcp_options where
  "want_gateway = ipcp_init_wantoptions\<lparr>i_hisaddr := 0x0900A8C0\<rparr>"

lemma naked_example:
  "\<exists>st. ipcp_reqci ipcp_init_allowoptions want_gateway want_gateway room_for_append 6 False = Ok st \<and> q_rc st = CONFNAK"
proof -
  have "(case ipcp_reqci ipcp_init_allowoptions want_gateway want_gateway room_for_append 6 False of
     Ok st \<Rightarrow> q_rc st = CONFNAK | _ \<Rightarrow> False)"
    by code_simp
  then show ?thesis by (auto split: outcome.splits)
qed

theorem ipcp_request_naked_witness:
  "\<exists>st naks extra. ipcp_reqci ipcp_init_allowoptions want_gateway want_gateway room_for_append 6 False = Ok st
    \<and> take (q_ucp st) (q_buf st) = concat naks @ extra \<and> extra \<in> {[], append_ci want_gateway}"
  using naked_example ipcp_request_naked [OF example_room(1) _ example_room(2)] by fastforce

text \<open>
  With \<open>reject_if_disagree\<close> set and a name server configured, the Configure-Reject for a request of
  another server does not carry the peer's option but our own address.
\<close>

theorem ipcp_reject_edited:
  assumes "i_dnsaddr0 ao = d" "d \<noteq> 0" "htonl x \<noteq> d"
  shows "\<exists>st. ipcp_reqci ao wo go ([CI_MS_DNS1, 6] @ putlong x) 6 True = Ok st \<and> q_rc st = CONFREJ
    \<and> take (q_ucp st) (q_buf st) = [CI_MS_DNS1, 6] @ putlong (ntohl d) \<and> ntohl d \<noteq> x"
proof -
  define inp where "inp = [CI_MS_DNS1, 6] @ putlong x"
  define ans where "ans = [CI_MS_DNS1, 6] @ putlong (ntohl d)"
  have g: "getlong (putlong x) = Ok (x, [])" by (simp add: getlong_def putlong_def)
  have "ipcp_req_step ao True (ipcp_req_start wo go inp 6) =
      Ok ((ipcp_req_start wo go inp 6)\<lparr>q_buf := ans, q_next := 6, q_ucp := 6, q_l := 0, q_rc := CONFREJ\<rparr>)"
    using assms g
    by (simp add: ipcp_req_step_def ipcp_req_start_def inp_def ans_def ipcp_req_ci_def ipcp_ci_defs
        ipcp_req_server_def ipcp_cilen_defs ipcp_req_answer_def ipcp_req_move_def code_defs)
  then have "ipcp_reqci ao wo go inp 6 True =
      Ok ((ipcp_req_start wo go inp 6)\<lparr>q_buf := ans, q_next := 6, q_ucp := 6, q_l := 0, q_rc := CONFREJ\<rparr>)"
    by (simp add: ipcp_reqci_def ipcp_req_loop.simps)
      (simp add: ipcp_req_start_def ipcp_req_append_def)
  moreover have "ntohl d \<noteq> x" using assms(3) by (auto simp: ntohl_def)
  moreover have "take 6 ans = ans" by (simp add: ans_def)
  ultimately show ?thesis by (simp add: inp_def ans_def)
qed

theorem ipcp_reject_edited_witness:
  "\<exists>st. ipcp_reqci (ipcp_init_allowoptions\<lparr>i_dnsaddr0 := 0x0100000A\<rparr>) accept_any accept_any
      ([CI_MS_DNS1, 6] @ putlong 0x0A000002) 6 True = Ok st \<and> q_rc st = CONFREJ"
proof -
  have "htonl 0x0A000002 \<noteq> 0x0100000A" by code_simp
  from ipcp_reject_edited [OF _ _ this, of "ipcp_init_allowoptions\<lparr>i_dnsaddr0 := 0x0100000A\<rparr>"]
  show ?thesis by auto
qed

section \<open>The addresses the peer may use\<close>

definition no_resolver :: resolver where
  "no_resolver = \<lparr>host_by_name = (\<lambda>n. if n = ''gw'' then Some 0x0100A8C0 else None),
     net_by_name = (\<lambda>n. None), inet_addr = (\<lambda>n. 0xFFFFFFFF)\<rparr>"

lemma high_class:
  fixes a :: u32
  assumes "224 \<le> drop_bit 24 a"
  shows "a AND 0xf0000000 = 0xe0000000 \<or> a AND 0xf0000000 = 0xf0000000"
proof -
  have "224 \<le> uint (drop_bit 24 a)" using assms by (simp add: word_le_def)
  then have "14 \<le> uint a div 2 ^ 28" by (simp add: drop_bit_eq_div uint_div_distrib)
  moreover have "uint a < 2 ^ 32" using uint_lt2p [of a] by simp
  then have "uint a div 2 ^ 28 < 16" by (simp add: div_less_iff_less_mult less_mult_imp_div_less)
  ultimately have "uint a div 2 ^ 28 = 14 \<or> uint a div 2 ^ 28 = 15" by linarith
  then have "uint (drop_bit 28 a) = uint (14 :: u32) \<or> uint (drop_bit 28 a) = uint (15 :: u32)"
    by (simp add: drop_bit_eq_div uint_div_distrib)
  then have d: "drop_bit 28 a = 14 \<or> drop_bit 28 a = 15" by (simp only: word_uint_eq_iff)
  have "(0xf0000000 :: u32) = NOT (mask 28)" by code_simp
  moreover have "a AND NOT (mask 28) = push_bit 28 (drop_bit 28 a)"
    by (rule bit_eqI) (auto simp: bit_simps)
  ultimately have "a AND 0xf0000000 = push_bit 28 (drop_bit 28 a)" by (simp only:)
  with d show ?thesis by auto
qed

text \<open>
  A loopback, multicast or class E address is refused whatever the secrets file says.
\<close>

theorem auth_bad_address_refused:
  assumes "drop_bit 24 (ntohl addr) = 127 \<or> 224 \<le> drop_bit 24 (ntohl addr)"
  shows "\<not> auth_ip_addr rs addresses addr"
  using assms high_class by (auto simp: auth_ip_addr_def bad_ip_adrs_def Let_def)

theorem auth_bad_address_refused_witness:
  "\<not> auth_ip_addr no_resolver (Some [''*'']) 0x050000E0"
proof -
  have "224 \<le> drop_bit 24 (ntohl 0x050000E0)" by code_simp
  then show ?thesis using auth_bad_address_refused by blast
qed

text \<open>
  An entry with a network mask, anywhere in the list, has no effect: \<open>strtol\<close> is given the string
  that the code has just cut off at the slash.
\<close>

theorem auth_mask_ignored:
  assumes "CHR ''/'' \<in> set word"
  shows "auth_ip_addr rs (Some (pre @ word # post)) addr = auth_ip_addr rs (Some (pre @ post)) addr"
  using auth_scan_slash [OF assms] by (simp add: auth_ip_addr_def)

theorem auth_mask_ignored_witness:
  "auth_ip_addr no_resolver (Some ([''gw''] @ ''10.0.0.0/8'' # [])) 0x0100000A
    = auth_ip_addr no_resolver (Some ([''gw''] @ [])) 0x0100000A"
  by (rule auth_mask_ignored) simp

text \<open>
  Of a list of plain entries, the first one that names the address decides, by its \<open>!\<close>; an address
  that no entry names is refused.
\<close>

theorem auth_first_entry_decides:
  assumes "list_all (plain_entry rs) ws" "\<not> bad_ip_adrs addr"
  shows "auth_ip_addr rs (Some ws) addr \<longleftrightarrow>
    (case find (names rs addr) ws of None \<Rightarrow> False | Some w \<Rightarrow> take 1 w \<noteq> ''!'')"
  using auth_scan_first [OF assms(1)] assms(2) by (simp add: auth_ip_addr_def)

theorem auth_first_entry_decides_witness:
  "\<not> auth_ip_addr no_resolver (Some [''other'', ''!gw'', ''gw'']) 0x0100A8C0"
proof -
  have "list_all (plain_entry no_resolver) [''other'', ''!gw'', ''gw'']" "\<not> bad_ip_adrs 0x0100A8C0"
    "find (names no_resolver 0x0100A8C0) [''other'', ''!gw'', ''gw''] = Some ''!gw''"
    by code_simp+
  then show ?thesis using auth_first_entry_decides [of no_resolver "[''other'', ''!gw'', ''gw'']" "0x0100A8C0"] by simp
qed

end
