(* ===== verification/Lcp_Properties.thy ===== *)
theory Lcp_Properties
  imports Lcp_Replies Lcp_Requests
begin

text \<open>
  Properties of the LCP options: what we request (\<open>lcp_cilen\<close>, \<open>lcp_addci\<close>), how the peer's answers
  are checked and used (\<open>lcp_ackci\<close>, \<open>lcp_rejci\<close>, \<open>lcp_nakci\<close>), and how the peer's request is
  answered (\<open>lcp_reqci\<close>).
\<close>

section \<open>Our request\<close>

definition lcp_example :: lcp_options where
  "lcp_example = zero_lcp_options\<lparr>l_neg_mru := True, l_mru := 1524, l_neg_magicnumber := True,
     l_magicnumber := 0x12345678, l_neg_pcompression := True\<rparr>"

lemma example_ok: "lcp_ok lcp_example"
  by (simp add: lcp_ok_def lcp_example_def zero_lcp_options_def)

text \<open>
  \<open>lcp_cilen\<close> announces exactly the number of bytes that \<open>lcp_addci\<close> puts, for all option settings
  whose callback message and discriminator have the lengths they claim.
\<close>

theorem lcp_cilen_is_length:
  assumes "lcp_ok go"
  shows "int (length (lcp_addci go)) = lcp_cilen go"
  using assms by (rule lcp.length_addci)

theorem lcp_cilen_is_length_witness: "int (length (lcp_addci lcp_example)) = lcp_cilen lcp_example"
  by (rule lcp_cilen_is_length [OF example_ok])

text \<open>
  C28: the peer's Configure-Ack is accepted exactly if it repeats our options byte for byte, and a packet
  of any length is checked without reading outside it.
\<close>

theorem lcp_ack_exact:
  assumes "lcp_ok go" "within (p, len)"
  shows "lcp_ackci go (p, len) = (if take (nat len) p = lcp_addci go then Ok () else Bad)"
  using assms by (rule lcp.ack_iff)

theorem lcp_ack_exact_witness: "lcp_ackci lcp_example ([1, 4, 5, 220], 4) = Bad"
  using lcp_ack_exact [OF example_ok, of "[1, 4, 5, 220]" 4]
  by (simp add: within_def lcp_example_def lcp_addci_def addci_defs zero_lcp_options_def putshort_def)

text \<open>Our own request, sent back as a Configure-Ack, is accepted.\<close>

theorem lcp_ack_round_trip:
  assumes "lcp_ok go"
  shows "lcp_ackci go (lcp_addci go, lcp_cilen go) = Ok ()"
  using assms by (rule lcp.ack_own)

theorem lcp_ack_round_trip_witness: "lcp_ackci lcp_example (lcp_addci lcp_example, lcp_cilen lcp_example) = Ok ()"
  by (rule lcp_ack_round_trip [OF example_ok])

text \<open>
  The round trip fails for a callback request by authentication (\<open>CB_AUTH\<close>) with a message
  configured: \<open>ACKCICB\<close> tests the option number where \<open>ADDCICB\<close> tests the callback type.
\<close>

theorem lcp_ack_callback_refused:
  assumes "go = zero_lcp_options\<lparr>l_neg_callback := True,
     l_cbopt := (l_cbopt zero_lcp_options)\<lparr>cb_type := CB_AUTH, cb_message := msg, cb_mlen := int (length msg)\<rparr>\<rparr>"
    "msg \<noteq> []"
  shows "lcp_ackci go (lcp_addci go, int (length (lcp_addci go))) = Bad"
proof -
  have "lcp_addci go = [CI_CALLBACK, 3, 0]"
    using assms(1) by (simp add: lcp_addci_def addci_defs zero_lcp_options_def CB_AUTH_def CB_CBCP_def)
  then show ?thesis
    using assms by (simp add: lcp_ackci_def lcp_ackci_steps_def zero_lcp_options_def CB_AUTH_def CB_CBCP_def CI_CALLBACK_def)
qed

theorem lcp_ack_callback_refused_witness:
  "lcp_ackci (zero_lcp_options\<lparr>l_neg_callback := True,
     l_cbopt := (l_cbopt zero_lcp_options)\<lparr>cb_type := CB_AUTH, cb_message := [49], cb_mlen := 1\<rparr>\<rparr>)
     ([13, 3, 0], 3) = Bad"
proof -
  let ?go = "zero_lcp_options\<lparr>l_neg_callback := True,
     l_cbopt := (l_cbopt zero_lcp_options)\<lparr>cb_type := CB_AUTH, cb_message := [49], cb_mlen := 1\<rparr>\<rparr>"
  have "lcp_addci ?go = [13, 3, 0]" by code_simp
  then show ?thesis using lcp_ack_callback_refused [of ?go "[49]"] by simp
qed

section \<open>Rejects and Naks of our request\<close>

text \<open>
  A good Configure-Reject and the next request, interleaved, make up the request we have sent; the
  values of the options stay what they were.
\<close>

theorem lcp_reject_splits:
  assumes "lcp_ok go" "room 0 (p, len)" "lcp_rejci_try go (p, len) = Ok tr"
  shows "lcp_addci go \<in> shuffles (take (nat len) p) (lcp_addci tr) \<and> same_values tr go \<and> lcp_ok tr"
  using assms by (rule lcp_rejci_shuffle)

lemma lcp_reject_example:
  "lcp_rejci_try lcp_example ([7, 2], 2) = Ok (lcp_example\<lparr>l_neg_pcompression := False\<rparr>)"
  by code_simp

theorem lcp_reject_splits_witness:
  "lcp_addci lcp_example \<in> shuffles [7, 2] (lcp_addci (lcp_example\<lparr>l_neg_pcompression := False\<rparr>))"
  using lcp_reject_splits [OF example_ok _ lcp_reject_example] by (simp add: room_def)

text \<open>
  In a row of non-empty good Configure-Rejects there are at most as many packets as our options have
  bytes: the exchange of Rejects ends.
\<close>

theorem lcp_rejects_end:
  assumes "lcp_ok go" "rej_run 0 lcp_rejci_try go packets"
  shows "int (length packets) \<le> lcp_cilen go"
  using assms by (rule lcpr.rej_run_bound)

theorem lcp_rejects_end_witness: "int (length [([7 :: u8, 2], 2 :: int)]) \<le> lcp_cilen lcp_example"
  by (rule lcp_rejects_end [OF example_ok]) (simp add: lcp_reject_example room_def)

text \<open>
  C29: a good Configure-Nak never makes us request an option we have not requested, nor map fewer
  characters, and leaves options that can be sent; no packet makes \<open>lcp_nakci\<close> read outside of it.
\<close>

theorem lcp_nak_weakens:
  assumes "within (p, len)" "cb_ok (l_cbopt wo) go" "lcp_ok go"
  shows "case lcp_nakci_parse go wo mg (p, len) of
      NakUndef \<Rightarrow> False | NakBad st \<Rightarrow> True
    | NakOk st \<Rightarrow> asks_less (n_try st) go \<and> lcp_ok (n_try st) \<and> cb_ok (l_cbopt wo) (n_try st)"
proof -
  have "unat (l_mp_alen go) \<le> 252" using assms(3) by (simp add: lcp_ok_def)
  from lcp_nakci_holds [OF assms(1,2) this, of mg] lcp_nakci_ok [OF assms, of mg] show ?thesis
    by (auto split: nak_result.splits)
qed

lemma example_cb_ok: "cb_ok (l_cbopt lcp_example) lcp_example"
  by (simp add: cb_ok_def lcp_example_def zero_lcp_options_def)

theorem lcp_nak_weakens_witness:
  "case lcp_nakci_parse lcp_example lcp_example 77 ([1, 4, 2, 0], 4) of
      NakUndef \<Rightarrow> False | NakBad st \<Rightarrow> True
    | NakOk st \<Rightarrow> asks_less (n_try st) lcp_example \<and> lcp_ok (n_try st) \<and> cb_ok (l_cbopt lcp_example) (n_try st)"
  by (rule lcp_nak_weakens [OF _ example_cb_ok example_ok]) (simp add: within_def)

text \<open>
  A Configure-Nak that is found bad can still change our options: for another CHAP digest the code
  clears \<open>neg_chap\<close> in \<open>*go\<close>, not in \<open>try\<close>.
\<close>

theorem lcp_bad_nak_changes_options:
  "\<exists>st. lcp_nakci_parse (zero_lcp_options\<lparr>l_neg_chap := True, l_chap_mdtype := 5\<rparr>) zero_lcp_options 77
      ([3, 5, 0xc2, 0x23, 0x80, 99], 6) = NakBad st
    \<and> n_go st = zero_lcp_options\<lparr>l_chap_mdtype := 5\<rparr>"
proof -
  have "(case lcp_nakci_parse (zero_lcp_options\<lparr>l_neg_chap := True, l_chap_mdtype := 5\<rparr>) zero_lcp_options 77
      ([3, 5, 0xc2, 0x23, 0x80, 99], 6) of
     NakBad st \<Rightarrow> n_go st = zero_lcp_options\<lparr>l_chap_mdtype := 5\<rparr> | _ \<Rightarrow> False)"
    by code_simp
  then show ?thesis by (auto split: nak_result.splits)
qed

section \<open>The peer's request\<close>

text \<open>
  C30: whatever the request, the peer is granted only options we allow: an MRU of at least 128, no
  fewer mapped characters than ours, one authentication protocol with our digest, a magic number that
  differs from ours.
\<close>

theorem lcp_request_grants:
  assumes "lcp_reqci ao go mg inp len rid = Ok (code, out, len', ho, d)"
  shows "lcp_granted ao go ho"
  using assms by (rule lcp_reqci_granted)

definition lcp_request :: "u8 list" where
  "lcp_request = [1, 4, 5, 220, 7, 2]"

definition allow_mru :: lcp_options where
  "allow_mru = zero_lcp_options\<lparr>l_neg_mru := True, l_mru := 1600\<rparr>"

lemma lcp_request_result:
  "\<exists>ho d. lcp_reqci allow_mru lcp_example (\<lambda>i. 0) lcp_request 6 False = Ok (CONFREJ, [7, 2, 5, 220, 7, 2], 2, ho, d)"
proof -
  have "(case lcp_reqci allow_mru lcp_example (\<lambda>i. 0) lcp_request 6 False of
      Ok (code, out, len', ho, d) \<Rightarrow> code = CONFREJ \<and> out = [7, 2, 5, 220, 7, 2] \<and> len' = 2 | _ \<Rightarrow> False)"
    by code_simp
  then show ?thesis by (auto split: outcome.splits prod.splits)
qed

theorem lcp_request_grants_witness:
  "\<exists>ho d. lcp_reqci allow_mru lcp_example (\<lambda>i. 0) lcp_request 6 False = Ok (CONFREJ, [7, 2, 5, 220, 7, 2], 2, ho, d)
    \<and> lcp_granted allow_mru lcp_example ho"
  using lcp_request_result lcp_request_grants by blast

text \<open>
  The answer is a Configure-Ack of the unchanged request, or a Configure-Nak made of well-formed
  options (of magic numbers only, with \<open>reject_if_disagree\<close>), or a Configure-Reject of some of the
  peer's options, in their order and unchanged, and perhaps the malformed rest of the packet.
\<close>

theorem lcp_request_answer:
  assumes "within (inp, len)" "lcp_reqci ao go mg inp len rid = Ok (code, out, len', ho, d)"
  shows "(\<exists>opts. code = CONFACK \<and> out = inp \<and> len' = len \<and> list_all is_ci opts \<and> take (nat len) inp = concat opts)
    \<or> (\<exists>naks. code = CONFNAK \<and> take (nat len') out = concat naks \<and> naks \<noteq> [] \<and> list_all is_ci naks
         \<and> (rid \<longrightarrow> list_all (\<lambda>c. hd c = CI_MAGICNUMBER) naks))
    \<or> (\<exists>opts rej bad. code = CONFREJ \<and> take (nat len) inp = concat opts @ bad \<and> list_all is_ci opts
         \<and> subseq rej opts \<and> take (nat len') out = concat rej @ reject_tail bad)"
  using assms by (rule lcp_reqci_shape)

theorem lcp_request_answer_witness:
  "\<exists>opts rej bad. take (nat 6) lcp_request = concat opts @ bad \<and> list_all is_ci opts
     \<and> subseq rej opts \<and> take (nat 2) [7, 2, 5, 220, 7, 2] = concat rej @ reject_tail bad"
proof -
  obtain ho d where "lcp_reqci allow_mru lcp_example (\<lambda>i. 0) lcp_request 6 False
      = Ok (CONFREJ, [7, 2, 5, 220, 7, 2], 2, ho, d)"
    using lcp_request_result by blast
  from lcp_request_answer [OF _ this] show ?thesis
    by (simp add: within_def lcp_request_def code_defs)
qed



text \<open>
  C32: with the discriminator allowed, the default, a discriminator option of more than 23 bytes
  overruns \<open>mp_addr\<close>.
\<close>

theorem lcp_discriminator_overrun:
  assumes "l_neg_mpdiscr ao" "21 \<le> length addr" "length addr \<le> 252"
  shows "lcp_reqci ao go mg ([CI_MPDISCRIMINATOR, word_of_nat (length addr + 3), cls] @ addr)
    (int (length addr) + 3) rid = Undef"
proof -
  have "k < 256 \<Longrightarrow> uint (word_of_nat k :: u8) = int k" for k
    by (simp add: unsigned_of_nat take_bit_eq_mod)
  from this [of "length addr + 3"] have u: "uint (word_of_nat (length addr + 3) :: u8) = int (length addr) + 3"
    using assms(3) by (simp del: of_nat_add)
  have "lcp_req_ci ao go m ho CI_MPDISCRIMINATOR (int (length addr) + 3) (cls # addr) = Undef" for m ho
    using assms by (simp add: lcp_req_ci_def ci_defs lcp_req_mpdiscr_def)
  then show ?thesis
    using assms(2) u by (simp add: lcp_reqci_def lcp_req_loop.simps lcp_req_step_def)
qed

theorem lcp_discriminator_overrun_witness:
  "lcp_reqci (zero_lcp_options\<lparr>l_neg_mpdiscr := True\<rparr>) lcp_example (\<lambda>i. 0)
     ([CI_MPDISCRIMINATOR, word_of_nat (21 + 3), 1] @ replicate 21 7) 24 False = Undef"
  using lcp_discriminator_overrun [of "zero_lcp_options\<lparr>l_neg_mpdiscr := True\<rparr>" "replicate 21 7"] by simp

end
