(* ===== verification/Md5.thy ===== *)
theory Md5
  imports Prelude
begin

text \<open>
  The message digest of ipppd (md5.c): \<open>MD5Init_ppp\<close>, \<open>MD5Update_ppp\<close>, \<open>MD5Final_ppp\<close> over the context
  \<open>MD5_CTX_ppp\<close>, and the transformation of one block. The 16 words \<open>in\<close> of a block are the list \<open>xs\<close>,
  the four words of \<open>buf\<close> a tuple.

  The second half states the digest of a whole message after RFC 1321 (padding, blocks, 64 steps driven
  by a table) and shows that the incremental code computes it, however the message is cut into pieces.
\<close>

section \<open>The transformation of a block\<close>

type_synonym md5_buf = "u32 \<times> u32 \<times> u32 \<times> u32"

definition md5_F :: "u32 \<Rightarrow> u32 \<Rightarrow> u32 \<Rightarrow> u32" where "md5_F x y z = (x AND y) OR (NOT x AND z)"
definition md5_G :: "u32 \<Rightarrow> u32 \<Rightarrow> u32 \<Rightarrow> u32" where "md5_G x y z = (x AND z) OR (y AND NOT z)"
definition md5_H :: "u32 \<Rightarrow> u32 \<Rightarrow> u32 \<Rightarrow> u32" where "md5_H x y z = x XOR y XOR z"
definition md5_I :: "u32 \<Rightarrow> u32 \<Rightarrow> u32 \<Rightarrow> u32" where "md5_I x y z = y XOR (x OR NOT z)"

definition ROTATE_LEFT :: "u32 \<Rightarrow> nat \<Rightarrow> u32" where
  "ROTATE_LEFT x n = push_bit n x OR drop_bit (32 - n) x"

text \<open>The macros assign to their first argument; here they return its new value.\<close>

definition FF :: "u32 \<Rightarrow> u32 \<Rightarrow> u32 \<Rightarrow> u32 \<Rightarrow> u32 \<Rightarrow> nat \<Rightarrow> u32 \<Rightarrow> u32" where
  "FF a b c d x s ac = ROTATE_LEFT (a + (md5_F b c d + x + ac)) s + b"

definition GG :: "u32 \<Rightarrow> u32 \<Rightarrow> u32 \<Rightarrow> u32 \<Rightarrow> u32 \<Rightarrow> nat \<Rightarrow> u32 \<Rightarrow> u32" where
  "GG a b c d x s ac = ROTATE_LEFT (a + (md5_G b c d + x + ac)) s + b"

definition HH :: "u32 \<Rightarrow> u32 \<Rightarrow> u32 \<Rightarrow> u32 \<Rightarrow> u32 \<Rightarrow> nat \<Rightarrow> u32 \<Rightarrow> u32" where
  "HH a b c d x s ac = ROTATE_LEFT (a + (md5_H b c d + x + ac)) s + b"

definition II :: "u32 \<Rightarrow> u32 \<Rightarrow> u32 \<Rightarrow> u32 \<Rightarrow> u32 \<Rightarrow> nat \<Rightarrow> u32 \<Rightarrow> u32" where
  "II a b c d x s ac = ROTATE_LEFT (a + (md5_I b c d + x + ac)) s + b"

definition md5_round1 :: "u32 list \<Rightarrow> md5_buf \<Rightarrow> md5_buf" where
  "md5_round1 xs = (\<lambda>(a, b, c, d).
     let
       a = FF a b c d (xs ! 0) 7 3614090360; d = FF d a b c (xs ! 1) 12 3905402710;
       c = FF c d a b (xs ! 2) 17 606105819; b = FF b c d a (xs ! 3) 22 3250441966;
       a = FF a b c d (xs ! 4) 7 4118548399; d = FF d a b c (xs ! 5) 12 1200080426;
       c = FF c d a b (xs ! 6) 17 2821735955; b = FF b c d a (xs ! 7) 22 4249261313;
       a = FF a b c d (xs ! 8) 7 1770035416; d = FF d a b c (xs ! 9) 12 2336552879;
       c = FF c d a b (xs ! 10) 17 4294925233; b = FF b c d a (xs ! 11) 22 2304563134;
       a = FF a b c d (xs ! 12) 7 1804603682; d = FF d a b c (xs ! 13) 12 4254626195;
       c = FF c d a b (xs ! 14) 17 2792965006; b = FF b c d a (xs ! 15) 22 1236535329
     in (a, b, c, d))"

definition md5_round2 :: "u32 list \<Rightarrow> md5_buf \<Rightarrow> md5_buf" where
  "md5_round2 xs = (\<lambda>(a, b, c, d).
     let
       a = GG a b c d (xs ! 1) 5 4129170786; d = GG d a b c (xs ! 6) 9 3225465664;
       c = GG c d a b (xs ! 11) 14 643717713; b = GG b c d a (xs ! 0) 20 3921069994;
       a = GG a b c d (xs ! 5) 5 3593408605; d = GG d a b c (xs ! 10) 9 38016083;
       c = GG c d a b (xs ! 15) 14 3634488961; b = GG b c d a (xs ! 4) 20 3889429448;
       a = GG a b c d (xs ! 9) 5 568446438; d = GG d a b c (xs ! 14) 9 3275163606;
       c = GG c d a b (xs ! 3) 14 4107603335; b = GG b c d a (xs ! 8) 20 1163531501;
       a = GG a b c d (xs ! 13) 5 2850285829; d = GG d a b c (xs ! 2) 9 4243563512;
       c = GG c d a b (xs ! 7) 14 1735328473; b = GG b c d a (xs ! 12) 20 2368359562
     in (a, b, c, d))"

definition md5_round3 :: "u32 list \<Rightarrow> md5_buf \<Rightarrow> md5_buf" where
  "md5_round3 xs = (\<lambda>(a, b, c, d).
     let
       a = HH a b c d (xs ! 5) 4 4294588738; d = HH d a b c (xs ! 8) 11 2272392833;
       c = HH c d a b (xs ! 11) 16 1839030562; b = HH b c d a (xs ! 14) 23 4259657740;
       a = HH a b c d (xs ! 1) 4 2763975236; d = HH d a b c (xs ! 4) 11 1272893353;
       c = HH c d a b (xs ! 7) 16 4139469664; b = HH b c d a (xs ! 10) 23 3200236656;
       a = HH a b c d (xs ! 13) 4 681279174; d = HH d a b c (xs ! 0) 11 3936430074;
       c = HH c d a b (xs ! 3) 16 3572445317; b = HH b c d a (xs ! 6) 23 76029189;
       a = HH a b c d (xs ! 9) 4 3654602809; d = HH d a b c (xs ! 12) 11 3873151461;
       c = HH c d a b (xs ! 15) 16 530742520; b = HH b c d a (xs ! 2) 23 3299628645
     in (a, b, c, d))"

definition md5_round4 :: "u32 list \<Rightarrow> md5_buf \<Rightarrow> md5_buf" where
  "md5_round4 xs = (\<lambda>(a, b, c, d).
     let
       a = II a b c d (xs ! 0) 6 4096336452; d = II d a b c (xs ! 7) 10 1126891415;
       c = II c d a b (xs ! 14) 15 2878612391; b = II b c d a (xs ! 5) 21 4237533241;
       a = II a b c d (xs ! 12) 6 1700485571; d = II d a b c (xs ! 3) 10 2399980690;
       c = II c d a b (xs ! 10) 15 4293915773; b = II b c d a (xs ! 1) 21 2240044497;
       a = II a b c d (xs ! 8) 6 1873313359; d = II d a b c (xs ! 15) 10 4264355552;
       c = II c d a b (xs ! 6) 15 2734768916; b = II b c d a (xs ! 13) 21 1309151649;
       a = II a b c d (xs ! 4) 6 4149444226; d = II d a b c (xs ! 11) 10 3174756917;
       c = II c d a b (xs ! 2) 15 718787259; b = II b c d a (xs ! 9) 21 3951481745
     in (a, b, c, d))"

fun buf_add :: "md5_buf \<Rightarrow> md5_buf \<Rightarrow> md5_buf" where
  "buf_add (a, b, c, d) (a', b', c', d') = (a + a', b + b', c + c', d + d')"

definition Transform :: "md5_buf \<Rightarrow> u32 list \<Rightarrow> md5_buf" where
  "Transform buf xs = buf_add buf (md5_round4 xs (md5_round3 xs (md5_round2 xs (md5_round1 xs buf))))"

section \<open>The context\<close>

record md5_ctx =
  md_i0 :: u32
  md_i1 :: u32
  md_buf :: md5_buf
  md_in :: "u8 list"
  md_digest :: "u8 list"

text \<open>What a context holds before \<open>MD5Init_ppp\<close> is arbitrary: \<open>old\<close>.\<close>

definition MD5Init :: "md5_ctx \<Rightarrow> md5_ctx" where
  "MD5Init old = old\<lparr>md_i0 := 0, md_i1 := 0, md_buf := (0x67452301, 0xefcdab89, 0x98badcfe, 0x10325476)\<rparr>"

text \<open>The word of four bytes of the buffer, and all words of a block.\<close>

definition in_word :: "u8 list \<Rightarrow> nat \<Rightarrow> u32" where
  "in_word bs ii = push_bit 24 (ucast (bs ! (ii + 3))) OR push_bit 16 (ucast (bs ! (ii + 2)))
     OR push_bit 8 (ucast (bs ! (ii + 1))) OR ucast (bs ! ii)"

definition in_words :: "nat \<Rightarrow> u8 list \<Rightarrow> u32 list" where
  "in_words n bs = map (\<lambda>i. in_word bs (4 * i)) [0..<n]"

text \<open>The loop of \<open>MD5Update_ppp\<close> over the characters.\<close>

fun md5_loop :: "u8 list \<Rightarrow> nat \<Rightarrow> md5_ctx \<Rightarrow> md5_ctx" where
  "md5_loop [] mdi c = c"
| "md5_loop (x # inBuf) mdi c =
     (let c = c\<lparr>md_in := (md_in c)[mdi := x]\<rparr>; mdi = mdi + 1
      in if mdi = 0x40 then md5_loop inBuf 0 (c\<lparr>md_buf := Transform (md_buf c) (in_words 16 (md_in c))\<rparr>)
         else md5_loop inBuf mdi c)"

text \<open>The number of bytes modulo 64.\<close>

definition md5_mdi :: "md5_ctx \<Rightarrow> nat" where
  "md5_mdi c = unat (drop_bit 3 (md_i0 c) AND 0x3F)"

definition MD5Update :: "u8 list \<Rightarrow> md5_ctx \<Rightarrow> md5_ctx" where
  "MD5Update inBuf c =
     (let inLen = of_nat (length inBuf) :: u32;
          mdi = md5_mdi c;
          c = (if md_i0 c + push_bit 3 inLen < md_i0 c then c\<lparr>md_i1 := md_i1 c + 1\<rparr> else c);
          c = c\<lparr>md_i0 := md_i0 c + push_bit 3 inLen\<rparr>;
          c = c\<lparr>md_i1 := md_i1 c + drop_bit 29 inLen\<rparr>
      in md5_loop inBuf mdi c)"

definition PADDING :: "u8 list" where "PADDING = 0x80 # replicate 63 0"

text \<open>The bytes of a word, as the end of \<open>MD5Final_ppp\<close> stores them.\<close>

definition store_word :: "u32 \<Rightarrow> u8 list" where
  "store_word w = [ucast (w AND 0xFF), ucast (drop_bit 8 w AND 0xFF), ucast (drop_bit 16 w AND 0xFF), ucast (drop_bit 24 w AND 0xFF)]"

fun md5_output :: "md5_buf \<Rightarrow> u8 list" where
  "md5_output (a, b, c, d) = store_word a @ store_word b @ store_word c @ store_word d"

definition MD5Final :: "md5_ctx \<Rightarrow> md5_ctx" where
  "MD5Final c =
     (let in14 = md_i0 c; in15 = md_i1 c; mdi = md5_mdi c;
          padLen = (if mdi < 56 then 56 - mdi else 120 - mdi);
          c = MD5Update (take padLen PADDING) c;
          c = c\<lparr>md_buf := Transform (md_buf c) (in_words 14 (md_in c) @ [in14, in15])\<rparr>
      in c\<lparr>md_digest := md5_output (md_buf c)\<rparr>)"

text \<open>A digest as chap.c computes it: the message comes in pieces.\<close>

definition md5_pieces :: "md5_ctx \<Rightarrow> u8 list list \<Rightarrow> u8 list" where
  "md5_pieces old ms = md_digest (MD5Final (fold MD5Update ms (MD5Init old)))"

section \<open>The digest of RFC 1321\<close>

text \<open>A step: the registers rotate; the index of the word, the shift and the constant come from a table.\<close>

fun rfc_step :: "(u32 \<Rightarrow> u32 \<Rightarrow> u32 \<Rightarrow> u32) \<Rightarrow> u32 list \<Rightarrow> md5_buf \<Rightarrow> nat \<times> nat \<times> u32 \<Rightarrow> md5_buf" where
  "rfc_step f xs (a, b, c, d) (k, s, t) = (d, b + word_rotl s (a + f b c d + xs ! k + t), b, c)"

definition table1 :: "(nat \<times> nat \<times> u32) list" where
  "table1 = [
   (0, 7, 3614090360), (1, 12, 3905402710), (2, 17, 606105819), (3, 22, 3250441966),
   (4, 7, 4118548399), (5, 12, 1200080426), (6, 17, 2821735955), (7, 22, 4249261313),
   (8, 7, 1770035416), (9, 12, 2336552879), (10, 17, 4294925233), (11, 22, 2304563134),
   (12, 7, 1804603682), (13, 12, 4254626195), (14, 17, 2792965006), (15, 22, 1236535329)]"

definition table2 :: "(nat \<times> nat \<times> u32) list" where
  "table2 = [
   (1, 5, 4129170786), (6, 9, 3225465664), (11, 14, 643717713), (0, 20, 3921069994),
   (5, 5, 3593408605), (10, 9, 38016083), (15, 14, 3634488961), (4, 20, 3889429448),
   (9, 5, 568446438), (14, 9, 3275163606), (3, 14, 4107603335), (8, 20, 1163531501),
   (13, 5, 2850285829), (2, 9, 4243563512), (7, 14, 1735328473), (12, 20, 2368359562)]"

definition table3 :: "(nat \<times> nat \<times> u32) list" where
  "table3 = [
   (5, 4, 4294588738), (8, 11, 2272392833), (11, 16, 1839030562), (14, 23, 4259657740),
   (1, 4, 2763975236), (4, 11, 1272893353), (7, 16, 4139469664), (10, 23, 3200236656),
   (13, 4, 681279174), (0, 11, 3936430074), (3, 16, 3572445317), (6, 23, 76029189),
   (9, 4, 3654602809), (12, 11, 3873151461), (15, 16, 530742520), (2, 23, 3299628645)]"

definition table4 :: "(nat \<times> nat \<times> u32) list" where
  "table4 = [
   (0, 6, 4096336452), (7, 10, 1126891415), (14, 15, 2878612391), (5, 21, 4237533241),
   (12, 6, 1700485571), (3, 10, 2399980690), (10, 15, 4293915773), (1, 21, 2240044497),
   (8, 6, 1873313359), (15, 10, 4264355552), (6, 15, 2734768916), (13, 21, 1309151649),
   (4, 6, 4149444226), (11, 10, 3174756917), (2, 15, 718787259), (9, 21, 3951481745)]"

definition rfc_block :: "md5_buf \<Rightarrow> u32 list \<Rightarrow> md5_buf" where
  "rfc_block buf xs = buf_add buf
     (foldl (rfc_step md5_I xs) (foldl (rfc_step md5_H xs) (foldl (rfc_step md5_G xs) (foldl (rfc_step md5_F xs)
       buf table1) table2) table3) table4)"

text \<open>The padding: one bit, zeros up to 56 modulo 64 bytes, and the number of bits modulo \<open>2 ^ 64\<close>.\<close>

definition bytes64 :: "nat \<Rightarrow> u8 list" where
  "bytes64 n = map (\<lambda>i. of_nat (n div 256 ^ i)) [0..<8]"

definition rfc_pad :: "u8 list \<Rightarrow> u8 list" where
  "rfc_pad m = m @ [0x80] @ replicate ((119 - length m mod 64) mod 64) 0 @ bytes64 (8 * length m mod 2 ^ 64)"

definition blocks64 :: "'a list \<Rightarrow> 'a list list" where
  "blocks64 m = map (\<lambda>i. take 64 (drop (64 * i) m)) [0..<length m div 64]"

definition rfc_run :: "u8 list \<Rightarrow> md5_buf" where
  "rfc_run m = foldl (\<lambda>buf block. rfc_block buf (in_words 16 block)) (0x67452301, 0xefcdab89, 0x98badcfe, 0x10325476) (blocks64 m)"

definition rfc_md5 :: "u8 list \<Rightarrow> u8 list" where
  "rfc_md5 m = md5_output (rfc_run (rfc_pad m))"

section \<open>The transformation is that of the RFC\<close>

lemma ROTATE_LEFT_rotl:
  assumes "n < 32"
  shows "ROTATE_LEFT x n = word_rotl n x"
proof (rule bit_eqI)
  fix i
  show "bit (ROTATE_LEFT x n) i = bit (word_rotl n x) i"
  proof (cases "i < 32")
    case i: True
    show ?thesis
    proof (cases "n \<le> i")
      case True
      then have "(i + 32 - n) mod 32 = i - n" using i by (simp add: mod_if)
      then show ?thesis
        using assms i True by (auto simp: ROTATE_LEFT_def bit_simps bit_word_rotl_iff dest: bit_imp_le_length)
    next
      case False
      then have "(i + 32 - n) mod 32 = 32 + i - n" using i by simp
      then show ?thesis
        using assms i False by (auto simp: ROTATE_LEFT_def bit_simps bit_word_rotl_iff)
    qed
  next
    case False
    then show ?thesis by (auto simp: bit_word_rotl_iff dest: bit_imp_le_length)
  qed
qed

lemma step_FF:
  "s < 32 \<Longrightarrow> foldl (rfc_step md5_F xs) (a, b, c, d) ((k, s, t) # r)
     = (let a = FF a b c d (xs ! k) s t in foldl (rfc_step md5_F xs) (d, a, b, c) r)"
  "s < 32 \<Longrightarrow> foldl (rfc_step md5_G xs) (a, b, c, d) ((k, s, t) # r)
     = (let a = GG a b c d (xs ! k) s t in foldl (rfc_step md5_G xs) (d, a, b, c) r)"
  "s < 32 \<Longrightarrow> foldl (rfc_step md5_H xs) (a, b, c, d) ((k, s, t) # r)
     = (let a = HH a b c d (xs ! k) s t in foldl (rfc_step md5_H xs) (d, a, b, c) r)"
  "s < 32 \<Longrightarrow> foldl (rfc_step md5_I xs) (a, b, c, d) ((k, s, t) # r)
     = (let a = II a b c d (xs ! k) s t in foldl (rfc_step md5_I xs) (d, a, b, c) r)"
  by (simp_all add: FF_def GG_def HH_def II_def ROTATE_LEFT_rotl algebra_simps)

lemma rounds:
  "foldl (rfc_step md5_F xs) buf table1 = md5_round1 xs buf"
  "foldl (rfc_step md5_G xs) buf table2 = md5_round2 xs buf"
  "foldl (rfc_step md5_H xs) buf table3 = md5_round3 xs buf"
  "foldl (rfc_step md5_I xs) buf table4 = md5_round4 xs buf"
proof -
  have s: "(4 :: nat) < 32" "(5 :: nat) < 32" "(6 :: nat) < 32" "(7 :: nat) < 32" "(9 :: nat) < 32" "(10 :: nat) < 32"
    "(11 :: nat) < 32" "(12 :: nat) < 32" "(14 :: nat) < 32" "(15 :: nat) < 32" "(16 :: nat) < 32" "(17 :: nat) < 32"
    "(20 :: nat) < 32" "(21 :: nat) < 32" "(22 :: nat) < 32" "(23 :: nat) < 32"
    by simp_all
  obtain a b c d where buf: "buf = (a, b, c, d)" by (metis prod_cases4)
  show "foldl (rfc_step md5_F xs) buf table1 = md5_round1 xs buf"
    unfolding table1_def md5_round1_def buf by (simp only: step_FF s foldl_Nil prod.case)
  show "foldl (rfc_step md5_G xs) buf table2 = md5_round2 xs buf"
    unfolding table2_def md5_round2_def buf by (simp only: step_FF s foldl_Nil prod.case)
  show "foldl (rfc_step md5_H xs) buf table3 = md5_round3 xs buf"
    unfolding table3_def md5_round3_def buf by (simp only: step_FF s foldl_Nil prod.case)
  show "foldl (rfc_step md5_I xs) buf table4 = md5_round4 xs buf"
    unfolding table4_def md5_round4_def buf by (simp only: step_FF s foldl_Nil prod.case)
qed

lemma Transform_rfc: "Transform buf xs = rfc_block buf xs"
  by (simp add: Transform_def rfc_block_def rounds)

section \<open>The loop\<close>

text \<open>The context has taken in the message \<open>m\<close>, the counters aside.\<close>

definition taken_in :: "u8 list \<Rightarrow> md5_ctx \<Rightarrow> bool" where
  "taken_in m c \<longleftrightarrow> length (md_in c) = 64
     \<and> take (length m mod 64) (md_in c) = drop (64 * (length m div 64)) m \<and> md_buf c = rfc_run m"

lemma blocks64_same:
  "length m div 64 = length (m @ xs) div 64 \<Longrightarrow> blocks64 (m @ xs) = blocks64 m"
  by (auto simp: blocks64_def)

lemma take_block: "i < k \<Longrightarrow> take 64 (drop (64 * i) (take (64 * k) m)) = take 64 (drop (64 * i) m)"
proof -
  assume "i < k"
  then have "64 \<le> 64 * k - 64 * i" by simp
  then show ?thesis by (simp add: drop_take min_def)
qed

lemma blocks64_last:
  assumes "length m = 64 * k + 64"
  shows "blocks64 m = blocks64 (take (64 * k) m) @ [drop (64 * k) m]"
proof -
  have "length m div 64 = Suc k" "length (take (64 * k) m) div 64 = k"
    using assms by simp_all
  then show ?thesis
    using assms by (simp add: blocks64_def take_block)
qed

lemma taken_in_char:
  fixes x :: u8
  assumes t: "taken_in m c" and i: "length m mod 64 = i"
  defines "c1 \<equiv> c\<lparr>md_in := (md_in c)[i := x]\<rparr>"
  shows "i + 1 \<noteq> 64 \<Longrightarrow> taken_in (m @ [x]) c1"
    and "i + 1 = 64 \<Longrightarrow> taken_in (m @ [x]) (c1\<lparr>md_buf := Transform (md_buf c1) (in_words 16 (md_in c1))\<rparr>)"
proof -
  define k where "k = length m div 64"
  have m: "length m = 64 * k + i" "i < 64"
    using i by (simp_all add: k_def flip: i) 
  have len: "length (md_in c) = 64" and tk: "take i (md_in c) = drop (64 * k) m" and buf: "md_buf c = rfc_run m"
    using t by (simp_all add: taken_in_def i k_def)
  have tk': "take (i + 1) (md_in c1) = drop (64 * k) (m @ [x])"
    using m len tk by (simp add: c1_def take_Suc_conv_app_nth)
  show "taken_in (m @ [x]) c1" if "i + 1 \<noteq> 64"
  proof -
    have d: "Suc (length m) div 64 = k" "Suc (length m) mod 64 = i + 1"
      using m that by simp_all
    have "rfc_run (m @ [x]) = rfc_run m"
      using blocks64_same [of m "[x]"] d by (simp add: rfc_run_def k_def)
    then show ?thesis
      using tk' len buf d by (simp add: taken_in_def c1_def)
  qed
  show "taken_in (m @ [x]) (c1\<lparr>md_buf := Transform (md_buf c1) (in_words 16 (md_in c1))\<rparr>)" if e: "i + 1 = 64"
  proof -
    have l: "length (m @ [x]) = 64 * k + 64" using m e by simp
    have d: "Suc (length m) div 64 = Suc k" "Suc (length m) mod 64 = 0"
      using m e by simp_all
    have "blocks64 (take (64 * k) (m @ [x])) = blocks64 m"
      using m by (simp add: blocks64_def take_block)
    moreover have "drop (64 * k) (m @ [x]) = md_in c1"
      using tk' e len by (simp add: c1_def)
    ultimately have "rfc_run (m @ [x]) = Transform (md_buf c1) (in_words 16 (md_in c1))"
      using blocks64_last [OF l] buf by (simp add: rfc_run_def Transform_rfc c1_def)
    then show ?thesis
      using len d l by (simp add: taken_in_def c1_def)
  qed
qed

lemma md5_loop_taken:
  "taken_in m c \<Longrightarrow> taken_in (m @ xs) (md5_loop xs (length m mod 64) c)"
proof (induction xs arbitrary: m c)
  case (Cons x xs)
  from taken_in_char [OF Cons.prems refl, of x] Cons.IH [of "m @ [x]"] show ?case
    by (auto simp: Let_def mod_Suc)
qed simp

lemma md5_loop_count [simp]: "md_i0 (md5_loop xs mdi c) = md_i0 c" "md_i1 (md5_loop xs mdi c) = md_i1 c"
  by (induction xs mdi c rule: md5_loop.induct) (simp_all add: Let_def)

section \<open>The counters\<close>

definition counts :: "nat \<Rightarrow> md5_ctx \<Rightarrow> bool" where
  "counts n c \<longleftrightarrow> unat (md_i0 c) + 2 ^ 32 * unat (md_i1 c) = 8 * n mod 2 ^ 64"

lemma u32_less: "unat (x :: u32) < 2 ^ 32"
  by (rule order.strict_trans2 [OF unsigned_less]) simp

lemma counts_mdi:
  assumes "counts n c"
  shows "md5_mdi c = n mod 64"
proof -
  have "unat (md_i0 c) = (unat (md_i0 c) + 2 ^ 32 * unat (md_i1 c)) mod 2 ^ 32"
    using u32_less [of "md_i0 c"] by simp
  also have "\<dots> = 8 * n mod 2 ^ 32"
    using assms by (simp add: counts_def mod_mod_cancel)
  finally have "unat (md_i0 c) = 8 * n mod 2 ^ 32" .
  moreover have "md5_mdi c = unat (md_i0 c) div 8 mod 64"
  proof -
    have m: "w AND 0x3F = take_bit 6 w" for w :: u32
      by (simp add: take_bit_eq_mask mask_eq_exp_minus_1)
    show ?thesis
      unfolding md5_mdi_def m unsigned_take_bit_eq unat_drop_bit_eq by (simp add: take_bit_eq_mod drop_bit_eq_div)
  qed
  moreover have "8 * n mod 2 ^ 32 = 8 * (n mod 2 ^ 29)"
    using mult_mod_right [of 8 n "2 ^ 29"] by simp
  ultimately show ?thesis
    by (simp add: mod_mod_cancel)
qed

lemma counts_update:
  assumes "counts n c" "length xs < 2 ^ 32"
  shows "counts (n + length xs) (MD5Update xs c)"
proof -
  define k where "k = length xs"
  define a where "a = unat (md_i0 c)"
  define b where "b = unat (md_i1 c)"
  have ab: "a < 2 ^ 32" "b < 2 ^ 32" "a + 2 ^ 32 * b = 8 * n mod 2 ^ 64"
    using assms(1) u32_less [of "md_i0 c"] u32_less [of "md_i1 c"] by (simp_all add: a_def b_def counts_def)
  have k: "unat (of_nat k :: u32) = k"
    using assms(2) by (simp add: k_def unat_of_nat)
  have p: "unat (push_bit 3 (of_nat k :: u32)) = 8 * k mod 2 ^ 32"
    unfolding push_bit_eq_mult by (simp add: unat_word_ariths k mult.commute)
  have d: "unat (drop_bit 29 (of_nat k :: u32)) = k div 2 ^ 29"
    unfolding unat_drop_bit_eq k by (simp add: drop_bit_eq_div)
  define i0 where "i0 = (a + 8 * k mod 2 ^ 32) mod 2 ^ 32"
  have i0: "unat (md_i0 (MD5Update xs c)) = i0"
    by (simp add: MD5Update_def Let_def unat_word_ariths p k_def [symmetric] i0_def a_def)
  have carry: "md_i0 c + push_bit 3 (of_nat k) < md_i0 c \<longleftrightarrow> i0 < a"
    by (simp add: word_less_nat_alt unat_word_ariths p i0_def a_def)
  have i1: "unat (md_i1 (MD5Update xs c)) = (b + (if i0 < a then 1 else 0) + k div 2 ^ 29) mod 2 ^ 32"
    using carry by (simp add: MD5Update_def Let_def unat_word_ariths d k_def [symmetric] b_def mod_simps)
  define z where "z = b + (if i0 < a then 1 else 0) + k div 2 ^ 29"
  define r where "r = 8 * k mod 4294967296"
  have r: "r < 4294967296" "8 * k = 4294967296 * (k div 536870912) + r"
  proof -
    obtain q t where k: "k = 536870912 * q + t" and t: "t < 536870912"
      by (rule that [of "k div 536870912" "k mod 536870912"]) simp_all
    have "k div 536870912 = q" "8 * k mod 4294967296 = 8 * t"
      using t by (simp_all add: k)
    then show "8 * k = 4294967296 * (k div 536870912) + r"
      by (simp add: r_def) (simp add: k)
  qed (simp add: r_def)
  have i0r: "i0 = (a + r) mod 4294967296" by (simp add: i0_def r_def)
  have "i0 + 4294967296 * z = a + 4294967296 * b + 8 * k"
  proof (cases "a + r < 4294967296")
    case True
    then have "i0 = a + r" by (simp add: i0r)
    moreover from this have "z = b + k div 536870912" unfolding z_def by simp
    ultimately show ?thesis using r(2) by linarith
  next
    case False
    then have "i0 = a + r - 4294967296" using ab(1) r(1) by (simp add: i0r le_mod_geq)
    moreover from this have "z = b + 1 + k div 536870912" using False r(1) unfolding z_def by simp
    ultimately show ?thesis using False r(2) by linarith
  qed
  moreover have "(i0 + 2 ^ 32 * z) mod (2 ^ 32 * 2 ^ 32) = 2 ^ 32 * (z mod 2 ^ 32) + i0"
    unfolding mod_mult2_eq by (simp add: i0_def)
  ultimately have "i0 + 2 ^ 32 * (z mod 2 ^ 32) = (8 * n mod 2 ^ 64 + 8 * k) mod 2 ^ 64"
    using ab(3) by simp
  then show ?thesis
    unfolding counts_def i0 i1 z_def [symmetric] by (simp add: k_def [symmetric] mod_simps algebra_simps)
qed

section \<open>The digest\<close>

definition digests :: "u8 list \<Rightarrow> md5_ctx \<Rightarrow> bool" where
  "digests m c \<longleftrightarrow> taken_in m c \<and> counts (length m) c"

lemma digests_init: "length (md_in old) = 64 \<Longrightarrow> digests [] (MD5Init old)"
  by (simp add: digests_def taken_in_def counts_def MD5Init_def rfc_run_def blocks64_def)

lemma taken_in_counters [simp]:
  "taken_in m (c\<lparr>md_i0 := i\<rparr>) = taken_in m c" "taken_in m (c\<lparr>md_i1 := i\<rparr>) = taken_in m c"
  by (simp_all add: taken_in_def)

lemma digests_update:
  assumes "digests m c" "length xs < 2 ^ 32"
  shows "digests (m @ xs) (MD5Update xs c)"
proof -
  have "counts (length (m @ xs)) (MD5Update xs c)"
    using counts_update [of "length m" c xs] assms by (simp add: digests_def)
  moreover have "taken_in (m @ xs) (MD5Update xs c)"
    using assms(1) counts_mdi [of "length m" c]
    by (simp add: digests_def MD5Update_def Let_def md5_loop_taken del: One_nat_def)
  ultimately show ?thesis by (simp add: digests_def)
qed

lemma digests_fold:
  "digests m c \<Longrightarrow> (\<And>x. x \<in> set ms \<Longrightarrow> length x < 2 ^ 32) \<Longrightarrow> digests (m @ concat ms) (fold MD5Update ms c)"
proof (induction ms arbitrary: m c)
  case (Cons x ms)
  then have "digests (m @ x) (MD5Update x c)" by (simp add: digests_update)
  from Cons.IH [OF this] Cons.prems(2) show ?case by simp
qed simp

text \<open>The last block: 14 words of the buffer and the two counters.\<close>

lemma in_words_bytes:
  "length bs = 56 \<Longrightarrow> in_words 14 (bs @ cs) = in_words 14 bs"
  by (simp add: in_words_def in_word_def nth_append)

lemma in_word_join: "in_word bs i = join32 (bs ! (i + 3)) (bs ! (i + 2)) (bs ! (i + 1)) (bs ! i)"
  by (rule bit_eqI) (auto simp: in_word_def join32_def Let_def bit_simps)

lemma of_nat_byte: "(of_nat x :: u8) = ucast (w :: u32) \<longleftrightarrow> x mod 256 = unat w mod 256"
  using word_of_nat_eq_iff [of x "unat w", where 'a = 8] by (simp add: take_bit_eq_mod)

lemma unat_drop_bit_div: "unat (drop_bit k (w :: u32)) = unat w div 2 ^ k"
  unfolding unat_drop_bit_eq by (rule drop_bit_eq_div)

lemma bytes64_split:
  assumes "unat (a :: u32) + 2 ^ 32 * unat (b :: u32) = n"
  shows "bytes64 n = [ucast a, ucast (drop_bit 8 a), ucast (drop_bit 16 a), ucast (drop_bit 24 a),
    ucast b, ucast (drop_bit 8 b), ucast (drop_bit 16 b), ucast (drop_bit 24 b)]"
proof -
  have lo: "n div 2 ^ k mod 256 = unat a div 2 ^ k mod 256" if "k \<le> 24" for k
  proof -
    have "(2 :: nat) ^ k * 2 ^ (24 - k) = 2 ^ 24"
      using that by (simp flip: power_add)
    moreover have "2 ^ k * (256 * (2 ^ (24 - k) * unat b)) = 256 * ((2 ^ k * 2 ^ (24 - k)) * unat b)"
      by (simp only: mult_ac)
    ultimately have "2 ^ 32 * unat b = 2 ^ k * (256 * (2 ^ (24 - k) * unat b))"
      by (simp only:) simp
    then have "n = unat a + 2 ^ k * (256 * (2 ^ (24 - k) * unat b))"
      using assms by (simp only:)
    then show ?thesis by simp
  qed
  have hi: "n div 2 ^ (32 + k) = unat b div 2 ^ k" for k
  proof -
    have "n div 2 ^ 32 = unat b"
      using assms [symmetric] u32_less [of a] by simp
    then show ?thesis by (simp only: power_add div_mult2_eq)
  qed
  have la: "of_nat (n div 2 ^ k) = (ucast (drop_bit k a) :: u8)" if "k \<le> 24" for k
    unfolding of_nat_byte unat_drop_bit_div by (rule lo [OF that])
  have lb: "of_nat (n div 2 ^ (32 + k)) = (ucast (drop_bit k b) :: u8)" for k
    unfolding of_nat_byte unat_drop_bit_div hi ..
  have "bytes64 n = [of_nat (n div 2 ^ 0), of_nat (n div 2 ^ 8), of_nat (n div 2 ^ 16), of_nat (n div 2 ^ 24),
    of_nat (n div 2 ^ (32 + 0)), of_nat (n div 2 ^ (32 + 8)), of_nat (n div 2 ^ (32 + 16)), of_nat (n div 2 ^ (32 + 24))]"
    by (simp add: bytes64_def upt_rec)
  then show ?thesis
    unfolding lb using la [of 0] la [of 8] la [of 16] la [of 24] by (simp only: drop_bit_0 id_apply)
qed

lemma last_block:
  assumes "length bs = 56" "unat a + 2 ^ 32 * unat b = n"
  shows "in_words 16 (bs @ bytes64 n) = in_words 14 bs @ [a, b]"
proof -
  have "in_words 16 (bs @ bytes64 n) = in_words 14 (bs @ bytes64 n) @ [in_word (bs @ bytes64 n) 56, in_word (bs @ bytes64 n) 60]"
    by (simp add: in_words_def upt_rec)
  also have "in_words 14 (bs @ bytes64 n) = in_words 14 bs"
    by (rule in_words_bytes [OF assms(1)])
  finally show ?thesis
    by (simp add: in_word_join nth_append assms(1) bytes64_split [OF assms(2)])
qed

lemma rfc_md5_final:
  assumes "digests m c"
  shows "md_digest (MD5Final c) = rfc_md5 m"
proof -
  define n where "n = length m mod 64"
  define k where "k = (if n < 56 then 56 - n else 120 - n)"
  define c1 where "c1 = MD5Update (take k PADDING) c"
  define q where "q = m @ take k PADDING"
  define bits where "bits = 8 * length m mod 2 ^ 64"
  have n: "n < 64" by (simp add: n_def)
  have c: "counts (length m) c" "md5_mdi c = n"
    using assms counts_mdi by (simp_all add: digests_def n_def)
  have k: "0 < k" "k \<le> 64" "k = Suc ((119 - n) mod 64)"
    using n by (auto simp: k_def mod_if)
  have pad: "take k PADDING = 0x80 # replicate ((119 - n) mod 64) 0"
    using k by (simp add: PADDING_def take_Cons')
  have lq: "length q mod 64 = 56"
  proof -
    have "length q = 64 * (length m div 64) + (n + k)"
      using k(2) by (simp add: q_def PADDING_def n_def)
    moreover have "n + k = 56 \<or> n + k = 120" using n by (auto simp: k_def)
    ultimately show ?thesis by auto
  qed
  have "digests q c1"
    unfolding q_def c1_def by (rule digests_update [OF assms]) (simp add: PADDING_def)
  then have t: "length (md_in c1) = 64" "take 56 (md_in c1) = drop (64 * (length q div 64)) q" "md_buf c1 = rfc_run q"
    using lq by (simp_all add: digests_def taken_in_def)
  have r: "rfc_pad m = q @ bytes64 bits"
    by (simp add: rfc_pad_def q_def pad n_def bits_def)
  have lr: "length (q @ bytes64 bits) = 64 * (length q div 64) + 64"
    using lq mult_div_mod_eq [of 64 "length q"] by (simp add: bytes64_def)
  have last: "drop (64 * (length q div 64)) (q @ bytes64 bits) = take 56 (md_in c1) @ bytes64 bits"
    using t(2) by (simp add: minus_mod_eq_mult_div [symmetric])
  have front: "blocks64 (take (64 * (length q div 64)) (q @ bytes64 bits)) = blocks64 q"
    by (simp add: blocks64_def take_block)
  have w: "in_words 16 (take 56 (md_in c1) @ bytes64 bits) = in_words 14 (md_in c1) @ [md_i0 c, md_i1 c]"
    using last_block [of "take 56 (md_in c1)" "md_i0 c" "md_i1 c" bits] t(1) c(1)
      in_words_bytes [of "take 56 (md_in c1)" "drop 56 (md_in c1)"] by (simp add: counts_def bits_def)
  have "rfc_run (rfc_pad m) = Transform (md_buf c1) (in_words 14 (md_in c1) @ [md_i0 c, md_i1 c])"
    unfolding rfc_run_def r blocks64_last [OF lr] front last by (simp add: w t(3) rfc_run_def Transform_rfc)
  then show ?thesis
    by (simp add: MD5Final_def Let_def c(2) rfc_md5_def c1_def k_def)
qed

lemma md5_pieces_rfc:
  assumes "length (md_in old) = 64" "\<And>x. x \<in> set ms \<Longrightarrow> length x < 2 ^ 32"
  shows "md5_pieces old ms = rfc_md5 (concat ms)"
  using rfc_md5_final [OF digests_fold [OF digests_init [OF assms(1)] assms(2)]] by (simp add: md5_pieces_def)

lemma rfc_md5_length: "length (rfc_md5 m) = 16"
  by (cases "rfc_run (rfc_pad m)") (simp add: rfc_md5_def store_word_def)

end
