(* ===== verification/Digest_Properties.thy ===== *)
theory Digest_Properties
  imports Chap Md5
begin

text \<open>
  md5.c computes the digest of RFC 1321, so the value chap.c compares is the one of RFC 1994: the digest of
  the identifier, the secret and the challenge. It satisfies what the CHAP machines assume of their digest.
\<close>

lemma chap_digest_md5:
  assumes "md5 hk = rfc_md5" and "length (md_in old) = 64" and "length secret < 2 ^ 32" and "length challenge < 2 ^ 32"
  shows "chap_digest hk pid secret challenge = md5_pieces old [[pid], secret, challenge]"
  using assms by (subst md5_pieces_rfc) (auto simp: chap_digest_def)

text \<open>The digest of "abc", the test value of RFC 1321, round by round.\<close>

lemma abc_round1:
  "foldl (rfc_step md5_F [0x80636261, 0, 0, 0, 0, 0, 0, 0, 0, 0, 0, 0, 0, 0, 24, 0])
     (0x67452301, 0xefcdab89, 0x98badcfe, 0x10325476) table1 = (0xdda9b9a6, 0x72aff2e0, 0xe396856b, 0xa1051895)"
  by (simp add: table1_def md5_F_def ROTATE_LEFT_rotl [symmetric] ROTATE_LEFT_def)

lemma abc_round2:
  "foldl (rfc_step md5_G [0x80636261, 0, 0, 0, 0, 0, 0, 0, 0, 0, 0, 0, 0, 0, 24, 0])
     (0xdda9b9a6, 0x72aff2e0, 0xe396856b, 0xa1051895) table2 = (0x790a77fb, 0x726342d3, 0xa62884aa, 0x9f47e4f8)"
  by (simp add: table2_def md5_G_def ROTATE_LEFT_rotl [symmetric] ROTATE_LEFT_def)

lemma abc_round3:
  "foldl (rfc_step md5_H [0x80636261, 0, 0, 0, 0, 0, 0, 0, 0, 0, 0, 0, 0, 0, 24, 0])
     (0x790a77fb, 0x726342d3, 0xa62884aa, 0x9f47e4f8) table3 = (0x7f2e507b, 0x7beb9700, 0x8fae6399, 0x99d9679d)"
  by (simp add: table3_def md5_H_def ROTATE_LEFT_rotl [symmetric] ROTATE_LEFT_def)

lemma abc_round4:
  "foldl (rfc_step md5_I [0x80636261, 0, 0, 0, 0, 0, 0, 0, 0, 0, 0, 0, 0, 0, 24, 0])
     (0x7f2e507b, 0x7beb9700, 0x8fae6399, 0x99d9679d) table4 = (0x310ade8f, 0xc08226b3, 0xe484b9d8, 0x624d8cb2)"
  by (simp add: table4_def md5_I_def ROTATE_LEFT_rotl [symmetric] ROTATE_LEFT_def)

lemma rfc_md5_abc:
  "rfc_md5 [97, 98, 99] =
     [0x90, 0x01, 0x50, 0x98, 0x3c, 0xd2, 0x4f, 0xb0, 0xd6, 0x96, 0x3f, 0x7d, 0x28, 0xe1, 0x7f, 0x72]"
proof -
  have "rfc_pad [97, 98, 99] = [97, 98, 99, 0x80] @ replicate 52 0 @ [24, 0, 0, 0, 0, 0, 0, 0]"
    by (simp add: rfc_pad_def bytes64_def upt_rec)
  moreover have "blocks64 ([97, 98, 99, 0x80] @ replicate 52 0 @ [24, 0, 0, 0, 0, 0, 0, 0 :: u8])
      = [[97, 98, 99, 0x80] @ replicate 52 0 @ [24, 0, 0, 0, 0, 0, 0, 0]]"
    by (simp add: blocks64_def)
  moreover have "in_words 16 ([97, 98, 99, 0x80] @ replicate 52 0 @ [24, 0, 0, 0, 0, 0, 0, 0])
      = [0x80636261, 0, 0, 0, 0, 0, 0, 0, 0, 0, 0, 0, 0, 0, 24, 0]"
    by (simp add: in_words_def in_word_def upt_rec nth_append)
  ultimately show ?thesis
    by (simp add: rfc_md5_def rfc_run_def rfc_block_def abc_round1 abc_round2 abc_round3 abc_round4 store_word_def)
qed

text \<open>
  C36: Whatever pieces a message comes in and whatever the context held before, \<open>MD5Init\<close>, \<open>MD5Update\<close> for each
  piece and \<open>MD5Final\<close> leave the digest that RFC 1321 defines.
\<close>

theorem md5_digest_rfc:
  assumes "length (md_in old) = 64" and "\<And>piece. piece \<in> set pieces \<Longrightarrow> length piece < 2 ^ 32"
  shows "md5_pieces old pieces = rfc_md5 (concat pieces)"
  using assms by (rule md5_pieces_rfc)

definition fresh_ctx :: md5_ctx where
  "fresh_ctx = \<lparr>md_i0 = 77, md_i1 = 0, md_buf = (1, 2, 3, 4), md_in = replicate 64 9, md_digest = []\<rparr>"

theorem md5_digest_rfc_witness:
  "md5_pieces fresh_ctx [[97], [98, 99]] =
     [0x90, 0x01, 0x50, 0x98, 0x3c, 0xd2, 0x4f, 0xb0, 0xd6, 0x96, 0x3f, 0x7d, 0x28, 0xe1, 0x7f, 0x72]"
  by (subst md5_digest_rfc) (auto simp: fresh_ctx_def rfc_md5_abc)

end
