(* ===== verification/Cbcp.thy ===== *)
theory Cbcp
  imports Link_Machine
begin

text \<open>
  The callback control protocol of cbcp.c: the server of the peer asks with a Request which kinds of
  callback are possible, the daemon answers with a Response, and an Ack ends the link, to be called back.
  \<open>cbcp_state\<close> is the C struct; \<open>us_type\<close> and \<open>us_allowed\<close> are sets of bits. A function returns \<open>Undef\<close> when
  the C function reads or writes outside a buffer or array, or shifts an \<open>int\<close> by 32 and more.

  \<open>with_cbcp\<close> puts the protocol into the table of the network protocols of a link.
\<close>

section \<open>State\<close>

definition CBCP_MINLEN :: int where "CBCP_MINLEN = 4"
definition CBCP_REQ :: u8 where "CBCP_REQ = 1"
definition CBCP_RESP :: u8 where "CBCP_RESP = 2"
definition CBCP_ACK :: u8 where "CBCP_ACK = 3"

definition CB_CONF_NO :: u8 where "CB_CONF_NO = 1"
definition CB_CONF_USER :: u8 where "CB_CONF_USER = 2"
definition CB_CONF_ADMIN :: u8 where "CB_CONF_ADMIN = 3"
definition CB_CONF_LIST :: u8 where "CB_CONF_LIST = 4"

lemmas cbcp_defs = CBCP_MINLEN_def CBCP_REQ_def CBCP_RESP_def CBCP_ACK_def
  CB_CONF_NO_def CB_CONF_USER_def CB_CONF_ADMIN_def CB_CONF_LIST_def

record cbcp_state =
  bc_unit :: int
  bc_id :: u8
  bc_type :: u32
  bc_allowed :: u32

definition conf_bit :: "u8 \<Rightarrow> u32" where
  "conf_bit t = push_bit (unat t) 1"

definition cbcp_init :: cbcp_state where
  "cbcp_init = \<lparr>bc_unit = -1, bc_id = 0,
     bc_type = conf_bit CB_CONF_NO OR conf_bit CB_CONF_USER OR conf_bit CB_CONF_LIST OR conf_bit CB_CONF_ADMIN,
     bc_allowed = 0\<rparr>"

section \<open>Sending\<close>

definition cbcp_send :: "u8 \<Rightarrow> u8 list \<Rightarrow> cbcp_state \<Rightarrow> u8 list" where
  "cbcp_send code buf us =
     [0xff, 0x03] @ putshort PPP_CBCP @ [code, bc_id us] @ putshort (of_nat (4 + length buf)) @ buf"

text \<open>
  \<open>cbopt\<close> is \<open>lcp_wantoptions[lns[us->us_unit].lcp_unit].cbopt\<close>, its message the bytes from the pointer on
  with the NUL, empty for a null pointer. The buffer has 256 bytes, four of them in front of the number.
\<close>

definition cbcp_resp :: "callback_opts \<Rightarrow> cbcp_state \<Rightarrow> (cbcp_state \<times> u8 list list) outcome" where
  "cbcp_resp cbopt us =
     (if bc_unit us < 0 then Undef
      else
        let us = us\<lparr>bc_type := bc_type us OR conf_bit CB_CONF_NO OR conf_bit CB_CONF_ADMIN\<rparr>;
            us = (if cb_message cbopt \<noteq> [] \<and> cb_mlen cbopt \<noteq> 0
                  then us\<lparr>bc_type := bc_type us OR conf_bit CB_CONF_USER OR conf_bit CB_CONF_LIST\<rparr> else us);
            cb_type = ucast (bc_allowed us AND bc_type us) :: u8;
            cb_type = (if cb_type = 0 then ucast (conf_bit CB_CONF_NO) else cb_type);
            offered = (\<lambda>t. cb_type AND ucast (conf_bit t) \<noteq> 0);
            delay = of_int (cb_delay cbopt) :: u8;
            n = nat (cb_mlen cbopt + 1)
        in if offered CB_CONF_USER
           then if 4 + n \<le> 256 \<and> n \<le> length (cb_message cbopt)
                then Ok (us, [cbcp_send CBCP_RESP
                       ([CB_CONF_USER, of_nat (4 + n), delay, 1] @ take n (cb_message cbopt)) us])
                else Undef
           else if offered CB_CONF_ADMIN then Ok (us, [cbcp_send CBCP_RESP [CB_CONF_ADMIN, 3, delay] us])
           else if offered CB_CONF_NO then Ok (us, [cbcp_send CBCP_RESP [CB_CONF_NO, 2] us])
           else Ok (us, []))"

section \<open>Receiving\<close>

definition copy_from :: "nat \<Rightarrow> u8 list \<Rightarrow> u8 list outcome" where
  "copy_from n p = (if n \<le> length p then Ok p else Undef)"

lemma copy_from_length: "copy_from n p = Ok q \<Longrightarrow> q = p"
  by (simp add: copy_from_def split: if_splits)

text \<open>
  The loop of \<open>cbcp_recvreq\<close>. The pointer is not moved behind an address that has been copied; the address
  buffer of 256 bytes is large enough for every length byte.
\<close>

function cbcp_options :: "u8 list \<Rightarrow> int \<Rightarrow> u32 \<Rightarrow> u32 outcome" where
  "cbcp_options pckt len allowed =
     (if len = 0 then Ok allowed
      else bindo (getchar pckt) (\<lambda>(type, p). bindo (getchar p) (\<lambda>(opt_len, p).
           bindo (if opt_len > 2 then getchar p else Ok (0, p)) (\<lambda>(delay, p).
           if unat type \<ge> 32 then Undef
           else bindo (if type = CB_CONF_USER \<and> opt_len > 4
                       then bindo (getchar p) (\<lambda>(addr_type, p). copy_from (unat opt_len - 4) p) else Ok p) (\<lambda>p.
                cbcp_options p (len - uint opt_len) (allowed OR conf_bit type))))))"
  by pat_completeness auto

termination
proof (relation "measure (\<lambda>(p, _, _). length p)", simp)
  fix pckt :: "u8 list" and len :: int and allowed :: u32 and r1 r2 r3 type p1 opt_len p2 delay p3 p
  assume 1: "getchar pckt = Ok r1" "(type, p1) = r1" and 2: "getchar p1 = Ok r2" "(opt_len, p2) = r2"
    and 3: "(if 2 < opt_len then getchar p2 else Ok (0, p2)) = Ok r3" "(delay, p3) = r3"
    and 4: "(if type = CB_CONF_USER \<and> 4 < opt_len
      then bindo (getchar p3) (\<lambda>(addr_type, p). copy_from (unat opt_len - 4) p) else Ok p3) = Ok p"
  have "length p1 < length pckt" using 1 by (cases pckt) auto
  moreover have "length p2 < length p1" using 2 by (cases p1) auto
  moreover have "length p3 \<le> length p2" using 3 by (cases p2) (auto split: if_splits)
  moreover have "length p \<le> length p3" using 4 by (cases p3) (auto dest: copy_from_length split: if_splits)
  ultimately show "((p, len - uint opt_len, allowed OR conf_bit type), pckt, len, allowed)
      \<in> measure (\<lambda>(p, _, _). length p)"
    by simp
qed

declare cbcp_options.simps [simp del]

definition cbcp_recvreq :: "(int \<Rightarrow> callback_opts) \<Rightarrow> u8 list \<Rightarrow> int \<Rightarrow> cbcp_state \<Rightarrow> (cbcp_state \<times> u8 list list) outcome" where
  "cbcp_recvreq cbopts pckt len us =
     bindo (cbcp_options pckt len (bc_allowed us)) (\<lambda>allowed. cbcp_resp (cbopts (bc_unit us)) (us\<lparr>bc_allowed := allowed\<rparr>))"

text \<open>
  The Ack is read through a \<open>char\<close> pointer into an \<open>int\<close>, so a length byte from 128 on is negative. Then
  \<open>cbcp_up\<close> closes the link \<open>us_unit\<close>.
\<close>

definition cbcp_recvack :: "u8 list \<Rightarrow> int \<Rightarrow> cbcp_state \<Rightarrow> unit outcome" where
  "cbcp_recvack pckt len us =
     bindo (if len = 0 then Ok ()
            else bindo (getchar pckt) (\<lambda>(type, p). bindo (getchar p) (\<lambda>(b, p).
                 let opt_len = sint b in
                 bindo (if opt_len > 2 then getchar p else Ok (0, p)) (\<lambda>(delay, p).
                 if opt_len > 4
                 then bindo (getchar p) (\<lambda>(addr_type, p). bindo (copy_from (nat (opt_len - 4)) p) (\<lambda>_. Ok ()))
                 else Ok ())))) (\<lambda>_.
     if bc_unit us < 0 then Undef else Ok ())"

text \<open>The result: whether \<open>cbcp_up\<close> has been called, the state, and the packets sent.\<close>

definition cbcp_input :: "(int \<Rightarrow> callback_opts) \<Rightarrow> u8 list \<Rightarrow> int \<Rightarrow> cbcp_state \<Rightarrow> (bool \<times> cbcp_state \<times> u8 list list) outcome" where
  "cbcp_input cbopts inpacket pktlen us =
     (if pktlen < CBCP_MINLEN then Ok (False, us, [])
      else bindo (getchar inpacket) (\<lambda>(code, p). bindo (getchar p) (\<lambda>(id, p). bindo (getshort p) (\<lambda>(len, p).
           let len = uint (len - of_int CBCP_MINLEN)
           in if code = CBCP_REQ
              then bindo (cbcp_recvreq cbopts p len (us\<lparr>bc_id := id\<rparr>)) (\<lambda>(us, out). Ok (False, us, out))
              else if code = CBCP_ACK then bindo (cbcp_recvack p len us) (\<lambda>_. Ok (True, us, []))
              else Ok (False, us, [])))))"

section \<open>In the table of protocols\<close>

record cbcp_net =
  bn_state :: "int \<Rightarrow> cbcp_state"
  bn_sent :: "(int \<times> u8 list) list"
  bn_ub :: bool

text \<open>The entry points other than \<open>input\<close> only write to the log; \<open>callback_phase\<close> sets \<open>us_unit\<close>.\<close>

definition cbcp_protent :: "bool \<Rightarrow> (cbcp_net \<times> 'm) protent" where
  "cbcp_protent enabled =
     \<lparr>pe_enabled = enabled, pe_getunit = Pair, pe_freeunit = (\<lambda>u. id),
      pe_setunit = (\<lambda>u l (b, m). (b\<lparr>bn_state := (bn_state b)(u := (bn_state b u)\<lparr>bc_unit := l\<rparr>)\<rparr>, m)),
      pe_lowerup = (\<lambda>u. id), pe_lowerdown = (\<lambda>u. id), pe_open = (\<lambda>u. id), pe_close = (\<lambda>u r. id),
      pe_protrej = (\<lambda>l u. id), pe_input = (\<lambda>l u p k. id), pe_datainput = None\<rparr>"

definition cbcp_net_input :: "(int \<Rightarrow> callback_opts) \<Rightarrow> int \<Rightarrow> u8 list \<Rightarrow> int \<Rightarrow> cbcp_net \<times> 'm \<Rightarrow> bool \<times> cbcp_net \<times> 'm" where
  "cbcp_net_input cbopts l p k = (\<lambda>(b, m).
     case cbcp_input cbopts p k (bn_state b l) of
       Ok (done, us, out) \<Rightarrow> (done, b\<lparr>bn_state := (bn_state b)(l := us), bn_sent := bn_sent b @ map (Pair (bc_unit us)) out\<rparr>, m)
     | _ \<Rightarrow> (False, b\<lparr>bn_ub := True\<rparr>, m))"

text \<open>The other protocols keep their state beside that of CBCP.\<close>

definition beside_cbcp :: "'m protent \<Rightarrow> (cbcp_net \<times> 'm) protent" where
  "beside_cbcp pe =
     \<lparr>pe_enabled = pe_enabled pe,
      pe_getunit = (\<lambda>l (b, m). let (u, m) = pe_getunit pe l m in (u, b, m)),
      pe_freeunit = (\<lambda>u. map_prod id (pe_freeunit pe u)), pe_setunit = (\<lambda>u l. map_prod id (pe_setunit pe u l)),
      pe_lowerup = (\<lambda>u. map_prod id (pe_lowerup pe u)), pe_lowerdown = (\<lambda>u. map_prod id (pe_lowerdown pe u)),
      pe_open = (\<lambda>u. map_prod id (pe_open pe u)), pe_close = (\<lambda>u r. map_prod id (pe_close pe u r)),
      pe_protrej = (\<lambda>l u. map_prod id (pe_protrej pe l u)), pe_input = (\<lambda>l u p k. map_prod id (pe_input pe l u p k)),
      pe_datainput = map_option (\<lambda>f l p k. map_prod id (f l p k)) (pe_datainput pe)\<rparr>"

definition with_cbcp :: "bool \<Rightarrow> (int \<Rightarrow> callback_opts) \<Rightarrow> 'm protents \<Rightarrow> (cbcp_net \<times> 'm) protents" where
  "with_cbcp enabled cbopts N =
     \<lparr>net_ipcp = beside_cbcp (net_ipcp N), net_ipxcp = beside_cbcp (net_ipxcp N), net_ccp = beside_cbcp (net_ccp N),
      net_ccp_link = beside_cbcp (net_ccp_link N), net_cbcp = cbcp_protent enabled,
      net_cbcp_input = cbcp_net_input cbopts, net_setifip = (\<lambda>u. map_prod id (net_setifip N u)),
      net_set_hisaddr = (\<lambda>u a. map_prod id (net_set_hisaddr N u a))\<rparr>"

end
