(* ===== verification/Cbcp_Properties.thy ===== *)
theory Cbcp_Properties
  imports Cbcp Link_Examples
begin

text \<open>
  The callback control protocol: what is answered to a Request, what ends the link, and the packets that
  cbcp.c cannot cope with.
\<close>

section \<open>Requests\<close>

text \<open>An option of a Request without an address: its type, and the delay if there is one.\<close>

fun opt_bytes :: "u8 \<times> u8 option \<Rightarrow> u8 list" where
  "opt_bytes (t, None) = [t, 2]"
| "opt_bytes (t, Some d) = [t, 3, d]"

abbreviation body :: "(u8 \<times> u8 option) list \<Rightarrow> u8 list" where
  "body os \<equiv> concat (map opt_bytes os)"

definition cbcp_message :: "u8 \<Rightarrow> u8 \<Rightarrow> u8 list \<Rightarrow> u8 list" where
  "cbcp_message code i b = [code, i] @ putshort (of_nat (4 + length b)) @ b"

definition offers :: "(u8 \<times> u8 option) list \<Rightarrow> u32 \<Rightarrow> u32" where
  "offers os = fold (\<lambda>(t, _) b. b OR conf_bit t) os"


lemma cbcp_options_body:
  "list_all (\<lambda>(t, _). t < 32) os \<Longrightarrow> cbcp_options (body os @ rest) (int (length (body os))) b = Ok (offers os b)"
proof (induction os arbitrary: b)
  case (Cons x os)
  obtain t d where x: "x = (t, d)" by fastforce
  have "unat t < 32" using Cons.prems by (simp add: x word_less_nat_alt)
  then show ?case
    using Cons by (cases d) (simp_all add: x cbcp_options.simps [of "t # _"] offers_def)
qed (simp add: cbcp_options.simps offers_def)

lemma cbcp_options_bad: "cbcp_options p len b \<noteq> Bad"
proof (induction p len b rule: cbcp_options.induct)
  case (1 p len b)
  then show ?case
    by (subst cbcp_options.simps)
      (cases p; cases "tl p"; cases "tl (tl p)"; cases "tl (tl (tl p))"; simp add: copy_from_def split: if_splits)
qed

lemma bit_conf [simp]: "bit (conf_bit t) n \<longleftrightarrow> n = unat t \<and> n < 32"
  by (auto simp: conf_bit_def bit_simps)

lemma bit_offers: "n < 32 \<Longrightarrow> bit (offers os b) n \<longleftrightarrow> bit b n \<or> n \<in> (unat \<circ> fst) ` set os"
  by (induction os arbitrary: b) (auto simp: offers_def bit_simps)

definition all_types :: u32 where
  "all_types = conf_bit CB_CONF_NO OR conf_bit CB_CONF_USER OR conf_bit CB_CONF_LIST OR conf_bit CB_CONF_ADMIN"

lemma bit_all_types [simp]: "bit all_types n \<longleftrightarrow> n \<in> {1, 2, 3, 4}"
  by (auto simp: all_types_def cbcp_defs bit_or_iff)

lemma conf_bits: "conf_bit CB_CONF_NO = 2" "conf_bit CB_CONF_USER = 4" "conf_bit CB_CONF_ADMIN = 8" "conf_bit CB_CONF_LIST = 16"
  by (simp_all add: conf_bit_def cbcp_defs)

lemma all_types_or [simp]: "all_types OR 10 = all_types" "all_types OR 20 = all_types"
  by (simp_all add: all_types_def conf_bits)

lemma type_bits:
  fixes a :: u32
  defines "t \<equiv> ucast (a AND all_types) :: u8"
  shows "t AND 2 = 0 \<longleftrightarrow> \<not> bit a 1" "t AND 4 = 0 \<longleftrightarrow> \<not> bit a 2" "t AND 8 = 0 \<longleftrightarrow> \<not> bit a 3"
    and "t = 0 \<longleftrightarrow> \<not> bit a 1 \<and> \<not> bit a 2 \<and> \<not> bit a 3 \<and> \<not> bit a 4"
  using and_exp_eq_0_iff_not_bit [of t 1] and_exp_eq_0_iff_not_bit [of t 2] and_exp_eq_0_iff_not_bit [of t 3]
    bit_eq_iff [of t 0]
  by (auto simp: t_def bit_simps dest: spec [of _ 4])


lemma len_field: "n < 65532 \<Longrightarrow> uint (of_nat (4 + n) - of_int CBCP_MINLEN :: u16) = int n"
  by (simp add: CBCP_MINLEN_def unsigned_of_nat take_bit_eq_mod)

lemma cbcp_input_req:
  assumes "4 \<le> k" and "length b < 65532"
  shows "cbcp_input cbopts (cbcp_message CBCP_REQ i b @ r) k us =
    bindo (cbcp_recvreq cbopts (b @ r) (int (length b)) (us\<lparr>bc_id := i\<rparr>)) (\<lambda>(us, out). Ok (False, us, out))"
  using assms len_field [of "length b"]
  by (simp add: cbcp_input_def cbcp_message_def CBCP_MINLEN_def putshort_def getshort_def CBCP_REQ_def Let_def)

lemma cbcp_prefix: "putshort PPP_CBCP = [0xc0, 0x29]"
  by (simp add: putshort_def PPP_CBCP_def)

lemma get_input_cbcp:
  fixes N :: "'m protents"
  assumes "f_state s = OPENED" and "0 \<le> k"
  shows "get_input (with_cbcp True cbopts N) ([0xff, 0x03] @ putshort PPP_CBCP @ p) (k + 4) s = cbcp_packet (with_cbcp True cbopts N) p k s"
proof -
  have "join16 0xc0 0x29 = PPP_CBCP" "PPP_CBCP \<noteq> PPP_LCP" "PPP_CBCP \<noteq> PPP_PAP" "PPP_CBCP \<noteq> PPP_CHAP"
    by (simp_all add: join16_def PPP_CBCP_def PPP_LCP_def PPP_PAP_def PPP_CHAP_def)
  moreover have "pe_enabled (net_cbcp (with_cbcp True cbopts N))"
    by (simp add: with_cbcp_def cbcp_protent_def)
  ultimately show ?thesis
    using assms by (simp add: cbcp_prefix get_input_def PPP_HDRLEN_def demux_input_def)
qed

lemma cbcp_input_unset:
  assumes "bc_unit us < 0" and "code \<in> {CBCP_REQ, CBCP_ACK}" and "4 \<le> k"
  shows "cbcp_input cbopts (code # i # hi # lo # p) k us = Undef"
proof -
  have r: "cbcp_recvreq cbopts q l (us\<lparr>bc_id := i\<rparr>) = Undef" for q l
    using assms(1) cbcp_options_bad [of q l "bc_allowed us"]
    by (cases "cbcp_options q l (bc_allowed us)") (simp_all add: cbcp_recvreq_def cbcp_resp_def)
  have "cbcp_recvack q l us = Undef" for q l
    using assms(1) by (cases q; cases "tl q"; cases "tl (tl q)"; cases "tl (tl (tl q))") (auto simp: cbcp_recvack_def copy_from_def Let_def)
  then show ?thesis
    using assms(2,3) r by (auto simp: cbcp_input_def getshort_def CBCP_MINLEN_def Let_def cbcp_defs)
qed

section \<open>Properties\<close>


definition example_opts :: callback_opts where
  "example_opts = \<lparr>cb_neg_cbcp = True, cb_neg_rfc = False, cb_rfc_preferred = False, cb_type = CB_CBCP,
     cb_message = [0x31, 0x32, 0x33, 0], cb_mlen = 3, cb_delay = 5\<rparr>"


text \<open>
  \<open>cbcp_init\<close> already allows the kinds that need a number, so that the test in \<open>cbcp_resp\<close> changes nothing:
  when no number is configured and a Request offers callback to a number of ours, the null pointer is read.
\<close>

theorem cbcp_no_number:
  assumes "0 \<le> bc_unit us" and "bc_type us = bc_type cbcp_init" and "4 \<le> k"
    and "list_all (\<lambda>(t, _). t < 32) os" and "length (body os) < 65532" and "CB_CONF_USER \<in> fst ` set os"
    and "cb_message (cbopts (bc_unit us)) = []" and "cb_mlen (cbopts (bc_unit us)) = 0"
  shows "cbcp_input cbopts (cbcp_message CBCP_REQ i (body os) @ r) k us = Undef"
proof -
  have ty: "bc_type us = all_types"
    using assms(2) by (simp add: cbcp_init_def all_types_def)
  have "bit (offers os (bc_allowed us)) 2"
    using assms(6) by (subst bit_offers) (force simp: cbcp_defs)+
  then have u: "cbcp_resp (cbopts (bc_unit us)) (us\<lparr>bc_id := i, bc_allowed := offers os (bc_allowed us)\<rparr>) = Undef"
    using assms(1,7,8) type_bits [of "offers os (bc_allowed us)"] ty
    by (simp add: cbcp_resp_def Let_def conf_bits)
  show ?thesis
    by (simp add: cbcp_input_req [OF assms(3,5)] cbcp_recvreq_def cbcp_options_body [OF assms(4)] u)
qed

theorem cbcp_no_number_witness:
  "cbcp_input (\<lambda>u. example_opts\<lparr>cb_message := [], cb_mlen := 0\<rparr>) [1, 9, 0, 7, 2, 3, 0] 7 (cbcp_init\<lparr>bc_unit := 0\<rparr>) = Undef"
  using cbcp_no_number [of "cbcp_init\<lparr>bc_unit := 0\<rparr>" 7 "[(2, Some 0)]" "\<lambda>u. example_opts\<lparr>cb_message := [], cb_mlen := 0\<rparr>" 9 "[]"]
  by (simp add: cbcp_message_def putshort_def cbcp_defs)

text \<open>
  The address in a callback-to-a-number option is not skipped: if a printable character follows and the
  packet is longer, the character is taken for a type and an \<open>int\<close> is shifted by more_opts than its width.
\<close>

theorem cbcp_address_misread:
  assumes "4 \<le> k" and "length addr \<le> 251" and "addr = a # addr'" and "32 \<le> a"
    and "more_opts \<noteq> []" and "length addr + length more_opts < 65528"
  shows "cbcp_input cbopts (cbcp_message CBCP_REQ i
      ([CB_CONF_USER, of_nat (4 + length addr), d, 1] @ addr @ more_opts) @ r) k us = Undef"
proof -
  define w where "w = (of_nat (4 + length addr) :: u8)"
  let ?b = "[CB_CONF_USER, w, d, 1] @ addr @ more_opts"
  have n: "unat w = 4 + length addr"
    unfolding w_def using assms(2) by (subst unat_of_nat) simp
  have u: "uint v = int (unat v)" for v :: u8 by simp
  have n2: "w > 2" "w > 4" "uint w = 4 + int (length addr)"
    unfolding word_less_nat_alt u n using assms(3) by simp_all
  have s: "cbcp_options (addr @ p) l b = Undef" if "l \<noteq> 0" for p l b
  proof -
    have "\<not> unat a < 32" using assms(4) by (simp add: word_le_nat_alt)
    then show ?thesis
      using that assms(3) by (subst cbcp_options.simps) (cases "addr' @ p"; cases "tl (addr' @ p)"; simp)
  qed
  have "cbcp_options (?b @ r) (int (length ?b)) (bc_allowed us) = Undef"
    using assms(5) s by (subst cbcp_options.simps) (simp add: n n2 copy_from_def CB_CONF_USER_def)
  then show ?thesis
    unfolding w_def [symmetric] using assms(6) by (subst cbcp_input_req [OF assms(1)]) (simp_all add: cbcp_recvreq_def)
qed

theorem cbcp_address_misread_witness:
  "cbcp_input (\<lambda>u. example_opts) [1, 9, 0, 13, 2, 6, 0, 1, 0x30, 0, 3, 3, 0] 13 (cbcp_init\<lparr>bc_unit := 0\<rparr>) = Undef"
  using cbcp_address_misread [where k = 13 and addr = "[0x30, 0]" and more_opts = "[3, 3, 0]" and cbopts = "\<lambda>u. example_opts" and i = 9 and d = 0 and r = "[]" and us = "cbcp_init\<lparr>bc_unit := 0\<rparr>"]
  by (simp add: cbcp_message_def putshort_def cbcp_defs)

lemma cbcp_options_zeros: "l \<noteq> 0 \<Longrightarrow> cbcp_options (replicate n 0) l b = Undef"
proof (induction n arbitrary: b rule: less_induct)
  case (less n)
  show ?case
  proof (cases "2 \<le> n")
    case True
    then obtain m where n: "n = Suc (Suc m)"
      by (metis add_2_eq_Suc le_Suc_ex)
    then show ?thesis
      using less by (subst cbcp_options.simps) (simp add: CB_CONF_USER_def)
  next
    case False
    then have "n = 0 \<or> n = 1" by auto
    then show ?thesis
      using less.prems by (auto simp: cbcp_options.simps)
  qed
qed

text \<open>
  C40: An option of length 0 never uses up the length of the Request: the loop reads on to the end of the
  buffer, however long the rest of zeros is.
\<close>

theorem cbcp_zero_length:
  assumes "4 \<le> k" and "join16 hi lo \<noteq> 4"
  shows "cbcp_input cbopts ([CBCP_REQ, i, hi, lo, t, 0] @ replicate n 0) k us = Undef"
proof -
  have l: "uint (join16 hi lo - 4) \<noteq> 0"
    using assms(2) by (simp add: uint_0_iff)
  have "cbcp_options (t # 0 # replicate n 0) (uint (join16 hi lo - 4)) b = Undef" for b
    using l cbcp_options_zeros [OF l] by (subst cbcp_options.simps) simp
  then show ?thesis
    using assms(1) by (simp add: cbcp_input_def getshort_def cbcp_recvreq_def CBCP_MINLEN_def Let_def)
qed

theorem cbcp_zero_length_witness: "cbcp_input (\<lambda>u. example_opts) ([CBCP_REQ, 9, 0, 6, 1, 0] @ replicate 1494 0) 6 cbcp_init = Undef"
  by (rule cbcp_zero_length) (simp_all add: join16_def)

text \<open>
  C39: \<open>get_input\<close> takes CBCP packets as soon as LCP is open, but \<open>us_unit\<close> is only set by \<open>callback_phase\<close>. A
  Request or an Ack that comes before, from a peer that need not have authenticated itself, makes the
  daemon index its table of links with -1.
\<close>

theorem cbcp_early_packet:
  fixes N :: "'m protents"
  assumes "f_state s = OPENED" and "bc_unit (bn_state (fst (lw_net (world s))) (f_unit s)) < 0"
    and "code \<in> {CBCP_REQ, CBCP_ACK}" and "4 \<le> k"
  shows "bn_ub (fst (lw_net (world
    (get_input (with_cbcp True cbopts N) ([0xff, 0x03] @ putshort PPP_CBCP @ [code, i, hi, lo] @ p) (k + 4) s))))"
  using assms
  by (subst get_input_cbcp)
    (simp_all add: cbcp_packet_def with_cbcp_def cbcp_net_input_def case_prod_beta cbcp_input_unset on_world_def)

text \<open>The example link with CBCP beside its other protocols, in the authentication phase.\<close>

definition example_cbcp_world :: "int \<Rightarrow> (cbcp_net \<times> nat) lcp_world" where
  "example_cbcp_world u = (let w = example_world PHASE_AUTHENTICATE CHAP_WITHPEER (example_upap UPAPSS_CLOSED UPAPCS_CLOSED) (example_chap CHAPSS_CLOSED CHAPCS_LISTEN)
     in \<lparr>lw_cfg = lw_cfg w, lw_lns = lw_lns w, lw_want = lw_want w,
       lw_got = (\<lambda>i. zero_lcp_options\<lparr>l_neg_callback := True, l_cbopt := example_opts\<rparr>), lw_allow = lw_allow w, lw_his = lw_his w,
       lw_xmit_accm = lw_xmit_accm w, lw_upap = lw_upap w, lw_chap = lw_chap w, lw_other_upap = lw_other_upap w,
       lw_magic = lw_magic w, lw_drawn = 0, lw_idle = lw_idle w, lw_asked = 0, lw_echos_pending = 0,
       lw_echo_number = 0, lw_echo_running = False, lw_echo_timers = 0, lw_idle_running = False, lw_idle_timers = 0,
       lw_aborted = False, lw_net = (\<lparr>bn_state = (\<lambda>i. cbcp_init\<lparr>bc_unit := u\<rparr>), bn_sent = [], bn_ub = False\<rparr>, 0),
       lw_calls = [], lw_ub = False\<rparr>)"

definition example_cbcp_link :: "int \<Rightarrow> (cbcp_net \<times> nat) lcp_sys" where
  "example_cbcp_link u =
     \<lparr>f_unit = 0, f_inuse = True, f_protocol = PPP_LCP, f_state = OPENED, f_flags = 0, f_id = 1, f_reqid = 1,
      f_seen_ack = False, f_timeouttime = DEFTIMEOUT, f_maxconfreqtransmits = DEFMAXCONFREQS, f_retransmits = 9,
      f_maxtermtransmits = DEFMAXTERMREQS, f_nakloops = 0, f_maxnakloops = DEFMAXNAKLOOPS, f_term_reason = [],
      f_term_reason_len = 0, peer_mru = 1500, timers = 0, sent = [], ub = False, world = example_cbcp_world u\<rparr>"

lemma example_cbcp_parts [simp]:
  "f_state (example_cbcp_link u) = OPENED" "f_unit (example_cbcp_link u) = 0"
  "bc_unit (bn_state (fst (lw_net (world (example_cbcp_link u)))) i) = u"
  "l_neg_callback (lw_got (world (example_cbcp_link u)) i)"
  "cb_type (l_cbopt (lw_got (world (example_cbcp_link u)) i)) = CB_CBCP"
  "ls_lcp_unit (lw_lns (world (example_cbcp_link u)) i) = 0" "\<not> ls_incoming (lw_lns (world (example_cbcp_link u)) i)"
  by (simp_all add: example_cbcp_link_def example_cbcp_world_def example_world_def example_lns_def example_opts_def Let_def)

theorem cbcp_early_packet_witness:
  "bn_ub (fst (lw_net (world (get_input (with_cbcp True (\<lambda>u. example_opts) example_protents)
     [0xff, 0x03, 0xc0, 0x29, 3, 0, 0, 4] 8 (example_cbcp_link (-1))))))"
  using cbcp_early_packet [of "example_cbcp_link (-1)" CBCP_ACK 4 "\<lambda>u. example_opts" example_protents 0 0 4 "[]"]
  by (simp add: cbcp_prefix cbcp_defs)



end
