(* ===== verification/Capi_Message.thy ===== *)
theory Capi_Message
  imports Prelude
begin

text \<open>
  The message codec of the CAPI 2.0 library (src/capi20/convert.c, capiutils.h): a \<open>_cmsg\<close> holds all
  parameters a CAPI message can have, \<open>capi_cmsg2message\<close> writes those of one command into a message and
  \<open>capi_message2cmsg\<close> reads them back. Which parameters a command has is a string of codes (\<open>cpars\<close>),
  each code an entry of \<open>cdef\<close>, its type and the member of \<open>_cmsg\<close> at its offset.

  The members of one type are a function of the member's name (\<open>cm_words\<close>, \<open>cm_structs\<close>, ...). A \<open>_cstruct\<close> is
  a pointer, the list of bytes from the pointer on, \<open>None\<close> for a null pointer. The message buffer is a list
  of its size; an access outside a buffer, a table or a parameter string is \<open>Undef\<close>. Pointers have 64 bits.
\<close>

type_synonym u64 = "64 word"

section \<open>Little-endian words\<close>

definition le_bytes :: "nat \<Rightarrow> 'a::len word \<Rightarrow> u8 list" where
  "le_bytes n w = map (\<lambda>i. ucast (drop_bit (8 * i) w)) [0..<n]"

definition le_word :: "u8 list \<Rightarrow> 'a::len word" where
  "le_word bs = foldr (\<lambda>b w. push_bit 8 w OR ucast b) bs 0"

section \<open>Parameters\<close>

datatype cmstruct = CAPI_COMPOSE | CAPI_DEFAULT

datatype ctype = CBYTE | CWORD | CDWORD | CQWORD | CSTRUCT | CMSTRUCT | CEND

datatype (plugins only:) cfield =
    P_ApplId | P_adrController | P_AdditionalInfo | P_B1configuration | P_B1protocol | P_B2configuration
    | P_B2protocol | P_B3configuration | P_B3protocol | P_BC | P_BChannelinformation | P_BProtocol
    | P_CalledPartyNumber | P_CalledPartySubaddress | P_CallingPartyNumber | P_CallingPartySubaddress | P_CIPmask
    | P_CIPmask2 | P_CIPValue | P_Class | P_ConnectedNumber | P_ConnectedSubaddress | P_Data32 | P_DataHandle
    | P_DataLength | P_FacilityConfirmationParameter | P_Facilitydataarray | P_FacilityIndicationParameter
    | P_FacilityRequestParameter | P_FacilityResponseParameters | P_FacilitySelector | P_Flags | P_Function | P_HLC
    | P_Info | P_InfoElement | P_InfoMask | P_InfoNumber | P_Keypadfacility | P_LLC | P_ManuData | P_ManuID
    | P_NCPI | P_Reason | P_Reason_B3 | P_Reject | P_Useruserdata | P_Data64 | P_SendingComplete
    | P_Globalconfiguration

text \<open>The first three entries have no member; their offset 0 is that of \<open>ApplId\<close>.\<close>

definition cdef :: "(ctype \<times> cfield) list" where
  "cdef = [
    (CEND, P_ApplId), (CEND, P_ApplId), (CEND, P_ApplId), (CDWORD, P_adrController), (CMSTRUCT, P_AdditionalInfo),
    (CSTRUCT, P_B1configuration), (CWORD, P_B1protocol), (CSTRUCT, P_B2configuration), (CWORD, P_B2protocol),
    (CSTRUCT, P_B3configuration), (CWORD, P_B3protocol), (CSTRUCT, P_BC), (CSTRUCT, P_BChannelinformation),
    (CMSTRUCT, P_BProtocol), (CSTRUCT, P_CalledPartyNumber), (CSTRUCT, P_CalledPartySubaddress),
    (CSTRUCT, P_CallingPartyNumber), (CSTRUCT, P_CallingPartySubaddress), (CDWORD, P_CIPmask),
    (CDWORD, P_CIPmask2), (CWORD, P_CIPValue), (CDWORD, P_Class), (CSTRUCT, P_ConnectedNumber),
    (CSTRUCT, P_ConnectedSubaddress), (CDWORD, P_Data32), (CWORD, P_DataHandle), (CWORD, P_DataLength),
    (CSTRUCT, P_FacilityConfirmationParameter), (CSTRUCT, P_Facilitydataarray),
    (CSTRUCT, P_FacilityIndicationParameter), (CSTRUCT, P_FacilityRequestParameter),
    (CSTRUCT, P_FacilityResponseParameters), (CWORD, P_FacilitySelector), (CWORD, P_Flags), (CDWORD, P_Function),
    (CSTRUCT, P_HLC), (CWORD, P_Info), (CSTRUCT, P_InfoElement), (CDWORD, P_InfoMask), (CWORD, P_InfoNumber),
    (CSTRUCT, P_Keypadfacility), (CSTRUCT, P_LLC), (CSTRUCT, P_ManuData), (CDWORD, P_ManuID), (CSTRUCT, P_NCPI),
    (CWORD, P_Reason), (CWORD, P_Reason_B3), (CWORD, P_Reject), (CSTRUCT, P_Useruserdata), (CQWORD, P_Data64),
    (CSTRUCT, P_SendingComplete), (CSTRUCT, P_Globalconfiguration)]"

text \<open>The strings end at the code 1 of the outermost level; the NUL behind it is never reached.\<close>

definition cpars :: "u8 list option list" where
  "cpars = [
    None, Some [3, 4, 12, 40, 48, 28, 50, 1, 1],
    Some [3, 20, 14, 16, 15, 17, 13, 6, 8, 10, 5, 7, 9, 51, 1, 11, 41, 35, 4, 12, 40, 48, 28, 50, 1, 1], None,
    Some [3, 4, 12, 40, 48, 28, 50, 1, 1], Some [3, 38, 18, 19, 16, 17, 1], None, None,
    Some [3, 14, 4, 12, 40, 48, 28, 50, 1, 1], Some [3, 32, 30, 1], Some [3, 13, 6, 8, 10, 5, 7, 9, 51, 1, 1],
    Some [3, 44, 1], None, Some [3, 44, 1], None, Some [3, 24, 26, 25, 33, 49, 1], Some [3, 44, 1], None, None,
    Some [3, 36, 1], Some [3, 36, 1], None, Some [3, 36, 1], Some [3, 36, 1], Some [3, 43, 21, 34, 42, 1], None,
    Some [3, 36, 1], Some [3, 36, 32, 27, 1], Some [3, 36, 1], Some [3, 36, 1], None, Some [3, 36, 1], None,
    Some [3, 25, 36, 1], Some [3, 36, 1], None, None, None,
    Some [3, 20, 14, 16, 15, 17, 11, 41, 35, 4, 12, 40, 48, 28, 50, 1, 1], Some [3, 22, 23, 41, 1],
    Some [3, 45, 1], None, Some [3, 43, 21, 34, 42, 1], None, Some [3, 39, 37, 1], Some [3, 32, 29, 1], None,
    Some [3, 44, 1], Some [3, 44, 1], Some [3, 46, 44, 1], None, Some [3, 24, 26, 25, 33, 49, 1], Some [3, 44, 1],
    Some [3, 44, 1], None, None,
    Some [3, 47, 13, 6, 8, 10, 5, 7, 9, 51, 1, 22, 23, 41, 4, 12, 40, 48, 28, 50, 1, 1], Some [3, 1], Some [3, 1],
    None, Some [3, 43, 21, 34, 42, 1], None, Some [3, 1], Some [3, 32, 31, 1], None, Some [3, 47, 44, 1],
    Some [3, 1], Some [3, 1], None, Some [3, 25, 1], Some [3, 1], Some [3, 1], None, None, None, None, None, None,
    Some [3, 43, 21, 34, 42, 1]]"

record cmsg =
  cm_ApplId :: u16
  cm_Command :: u8
  cm_Subcommand :: u8
  cm_Messagenumber :: u16
  cm_bytes :: "cfield \<Rightarrow> u8"
  cm_words :: "cfield \<Rightarrow> u16"
  cm_dwords :: "cfield \<Rightarrow> u32"
  cm_qwords :: "cfield \<Rightarrow> u64"
  cm_structs :: "cfield \<Rightarrow> u8 list option"
  cm_mstructs :: "cfield \<Rightarrow> cmstruct"
  cm_Data :: u64
  cm_l :: u16
  cm_p :: nat
  cm_par :: "u8 list"
  cm_m :: "u8 list"

section \<open>Commands\<close>

definition CAPI_DATA_B3 :: u8 where "CAPI_DATA_B3 = 0x86"
definition CAPI_REQ :: u8 where "CAPI_REQ = 0x80"
definition CAPI_IND :: u8 where "CAPI_IND = 0x82"

definition command_2_index :: "u8 \<Rightarrow> u8 \<Rightarrow> nat" where
  "command_2_index c sc =
     (let i = (if c AND 0x80 \<noteq> 0 then 0x9 + unat (c AND 0x0f)
               else if c \<le> 0x0f then unat c
               else if c = 0x41 then 0x9 + 0x1
               else if c = 0xff then 0x00
               else unat c)
      in unat (sc AND 3) * (0x9 + 0x9) + i)"

definition command_pars :: "u8 \<Rightarrow> u8 \<Rightarrow> u8 list outcome" where
  "command_pars c sc =
     (let i = command_2_index c sc
      in if i < length cpars then case cpars ! i of Some par \<Rightarrow> Ok par | None \<Rightarrow> Undef else Undef)"

section \<open>The current parameter\<close>

text \<open>\<open>TYP\<close> and \<open>OFF\<close>.\<close>

definition code_entry :: "u8 list \<Rightarrow> nat \<Rightarrow> (ctype \<times> cfield) outcome" where
  "code_entry par p =
     (if p < length par \<and> unat (par ! p) < length cdef then Ok (cdef ! unat (par ! p)) else Undef)"

text \<open>\<open>jumpcstruct\<close> goes to the end of a composed parameter.\<close>

function jump :: "u8 list \<Rightarrow> nat \<Rightarrow> nat \<Rightarrow> nat outcome" where
  "jump par p layer =
     (if layer = 0 then Ok p
      else case code_entry par (p + 1) of
             Ok (typ, _) \<Rightarrow>
               jump par (p + 1) (if typ = CMSTRUCT then layer + 1 else if typ = CEND then layer - 1 else layer)
           | _ \<Rightarrow> Undef)"
  by pat_completeness auto

termination
  by (relation "measure (\<lambda>(par, p, layer). length par - p)") (auto simp: code_entry_def split: if_splits)

declare jump.simps [simp del]

definition jumpcstruct :: "cmsg \<Rightarrow> cmsg outcome" where
  "jumpcstruct c = bindo (jump (cm_par c) (cm_p c + 1) 1) (\<lambda>p. Ok (c\<lparr>cm_p := p\<rparr>))"

section \<open>Writing a message\<close>

definition get_at :: "u8 list \<Rightarrow> nat \<Rightarrow> nat \<Rightarrow> u8 list outcome" where
  "get_at m i n = (if i + n \<le> length m then Ok (take n (drop i m)) else Undef)"

definition put_at :: "u8 list \<Rightarrow> nat \<Rightarrow> u8 list \<Rightarrow> u8 list outcome" where
  "put_at m i bs = (if i + length bs \<le> length m then Ok (take i m @ bs @ drop (i + length bs) m) else Undef)"

definition put :: "u8 list \<Rightarrow> cmsg \<Rightarrow> cmsg outcome" where
  "put bs c =
     bindo (put_at (cm_m c) (unat (cm_l c)) bs) (\<lambda>m. Ok (c\<lparr>cm_m := m, cm_l := cm_l c + of_nat (length bs)\<rparr>))"

text \<open>A structure with its length in front: one byte, or 255 and two bytes.\<close>

definition struct_bytes :: "u8 list \<Rightarrow> u8 list outcome" where
  "struct_bytes s =
     (case s of
        [] \<Rightarrow> Undef
      | n # _ \<Rightarrow>
          if n \<noteq> 0xff then get_at s 0 (1 + unat n)
          else bindo (get_at s 1 2) (\<lambda>w. get_at s 0 (3 + unat (le_word w :: u16))))"

text \<open>
  The fuel bounds the number of codes; the length of the parameter string is enough. The length of a
  composed parameter is put in front of it afterwards.
\<close>

fun pars_2_message :: "nat \<Rightarrow> cmsg \<Rightarrow> cmsg outcome" where
  "pars_2_message 0 c = Undef"
| "pars_2_message (Suc n) c =
     (let next = (\<lambda>c. pars_2_message n (c\<lparr>cm_p := cm_p c + 1\<rparr>))
      in case code_entry (cm_par c) (cm_p c) of
           Ok (CEND, f) \<Rightarrow> Ok c
         | Ok (CBYTE, f) \<Rightarrow> bindo (put [cm_bytes c f] c) next
         | Ok (CWORD, f) \<Rightarrow> bindo (put (le_bytes 2 (cm_words c f)) c) next
         | Ok (CDWORD, f) \<Rightarrow> bindo (put (le_bytes 4 (cm_dwords c f)) c) next
         | Ok (CQWORD, f) \<Rightarrow> bindo (put (le_bytes 8 (cm_qwords c f)) c) next
         | Ok (CSTRUCT, f) \<Rightarrow>
             bindo (case cm_structs c f of None \<Rightarrow> Ok [0] | Some s \<Rightarrow> struct_bytes s) (\<lambda>bs. bindo (put bs c) next)
         | Ok (CMSTRUCT, f) \<Rightarrow>
             if cm_mstructs c f = CAPI_DEFAULT
             then bindo (put [0] c) (\<lambda>c. bindo (jumpcstruct c) next)
             else
               let l0 = unat (cm_l c)
               in bindo (pars_2_message n (c\<lparr>cm_l := cm_l c + 1, cm_p := cm_p c + 1\<rparr>)) (\<lambda>c.
                    let ls = cm_l c - of_nat l0 - 1 :: u16
                    in if ls < 255
                       then bindo (put_at (cm_m c) l0 [ucast ls]) (\<lambda>m. next (c\<lparr>cm_m := m\<rparr>))
                       else bindo (get_at (cm_m c) (l0 + 1) (unat ls)) (\<lambda>bs.
                              bindo (put_at (cm_m c) (l0 + 3) bs) (\<lambda>m.
                              bindo (put_at m l0 (0xff # le_bytes 2 ls)) (\<lambda>m. next (c\<lparr>cm_m := m\<rparr>)))))
         | _ \<Rightarrow> Undef)"

text \<open>The address of the data block of a \<open>DATA_B3\<close> request or indication travels as 64 bits.\<close>

definition has_data :: "cmsg \<Rightarrow> bool" where
  "has_data c \<longleftrightarrow> cm_Command c = CAPI_DATA_B3 \<and> (cm_Subcommand c = CAPI_REQ \<or> cm_Subcommand c = CAPI_IND)"

definition data_out :: "cmsg \<Rightarrow> cmsg" where
  "data_out c =
     (if has_data c
      then c\<lparr>cm_dwords := (cm_dwords c)(P_Data32 := 0), cm_qwords := (cm_qwords c)(P_Data64 := cm_Data c)\<rparr> else c)"

text \<open>The header is written last.\<close>

definition put_header :: "cmsg \<Rightarrow> u8 list outcome" where
  "put_header c =
     bindo (put_at (cm_m c) 0 (le_bytes 2 (cm_l c))) (\<lambda>m.
     bindo (put_at m 4 [cm_Command c]) (\<lambda>m.
     bindo (put_at m 5 [cm_Subcommand c]) (\<lambda>m.
     bindo (put_at m 2 (le_bytes 2 (cm_ApplId c))) (\<lambda>m.
     put_at m 6 (le_bytes 2 (cm_Messagenumber c))))))"

definition capi_cmsg2message :: "cmsg \<Rightarrow> u8 list \<Rightarrow> cmsg outcome" where
  "capi_cmsg2message c msg =
     bindo (command_pars (cm_Command c) (cm_Subcommand c)) (\<lambda>par.
     bindo (pars_2_message (length par) (data_out (c\<lparr>cm_m := msg, cm_l := 8, cm_p := 0, cm_par := par\<rparr>))) (\<lambda>c.
     bindo (put_header c) (\<lambda>m. Ok (c\<lparr>cm_m := m\<rparr>))))"

section \<open>Reading a message\<close>

definition get :: "nat \<Rightarrow> cmsg \<Rightarrow> (u8 list \<times> cmsg) outcome" where
  "get n c =
     bindo (get_at (cm_m c) (unat (cm_l c)) n) (\<lambda>bs. Ok (bs, c\<lparr>cm_l := cm_l c + of_nat n\<rparr>))"

text \<open>The pointer is set before the length is read.\<close>

definition get_struct :: "cfield \<Rightarrow> cmsg \<Rightarrow> cmsg outcome" where
  "get_struct f c =
     (let l = unat (cm_l c); c = c\<lparr>cm_structs := (cm_structs c)(f := Some (drop l (cm_m c)))\<rparr>
      in if l < length (cm_m c)
         then let n = cm_m c ! l
              in if n \<noteq> 0xff then Ok (c\<lparr>cm_l := cm_l c + 1 + ucast n\<rparr>)
                 else bindo (get_at (cm_m c) (l + 1) 2) (\<lambda>w. Ok (c\<lparr>cm_l := cm_l c + 3 + le_word w\<rparr>))
         else Undef)"

fun message_2_pars :: "nat \<Rightarrow> cmsg \<Rightarrow> cmsg outcome" where
  "message_2_pars 0 c = Undef"
| "message_2_pars (Suc n) c =
     (let next = (\<lambda>c. message_2_pars n (c\<lparr>cm_p := cm_p c + 1\<rparr>))
      in case code_entry (cm_par c) (cm_p c) of
           Ok (CEND, f) \<Rightarrow> Ok c
         | Ok (CBYTE, f) \<Rightarrow> bindo (get 1 c) (\<lambda>(bs, c). next (c\<lparr>cm_bytes := (cm_bytes c)(f := hd bs)\<rparr>))
         | Ok (CWORD, f) \<Rightarrow> bindo (get 2 c) (\<lambda>(bs, c). next (c\<lparr>cm_words := (cm_words c)(f := le_word bs)\<rparr>))
         | Ok (CDWORD, f) \<Rightarrow> bindo (get 4 c) (\<lambda>(bs, c). next (c\<lparr>cm_dwords := (cm_dwords c)(f := le_word bs)\<rparr>))
         | Ok (CQWORD, f) \<Rightarrow> bindo (get 8 c) (\<lambda>(bs, c). next (c\<lparr>cm_qwords := (cm_qwords c)(f := le_word bs)\<rparr>))
         | Ok (CSTRUCT, f) \<Rightarrow> bindo (get_struct f c) next
         | Ok (CMSTRUCT, f) \<Rightarrow>
             if unat (cm_l c) < length (cm_m c)
             then let k = cm_m c ! unat (cm_l c)
                  in if k = 0
                     then bindo (jumpcstruct (c\<lparr>cm_mstructs := (cm_mstructs c)(f := CAPI_DEFAULT), cm_l := cm_l c + 1\<rparr>)) next
                     else bindo (message_2_pars n (c\<lparr>cm_mstructs := (cm_mstructs c)(f := CAPI_COMPOSE),
                                   cm_l := (if k = 255 then cm_l c + 3 else cm_l c + 1), cm_p := cm_p c + 1\<rparr>)) next
             else Undef
         | _ \<Rightarrow> Undef)"

text \<open>All members are zero at first: null pointers, and \<open>CAPI_COMPOSE\<close>.\<close>

definition zero_cmsg :: cmsg where
  "zero_cmsg = \<lparr>cm_ApplId = 0, cm_Command = 0, cm_Subcommand = 0, cm_Messagenumber = 0, cm_bytes = (\<lambda>f. 0),
     cm_words = (\<lambda>f. 0), cm_dwords = (\<lambda>f. 0), cm_qwords = (\<lambda>f. 0), cm_structs = (\<lambda>f. None),
     cm_mstructs = (\<lambda>f. CAPI_COMPOSE), cm_Data = 0, cm_l = 0, cm_p = 0, cm_par = [], cm_m = []\<rparr>"

definition get_command :: "u8 list \<Rightarrow> cmsg outcome" where
  "get_command msg =
     bindo (get_at msg 4 2) (\<lambda>bs.
     bindo (command_pars (bs ! 0) (bs ! 1)) (\<lambda>par.
     Ok (zero_cmsg\<lparr>cm_m := msg, cm_l := 8, cm_Command := bs ! 0, cm_Subcommand := bs ! 1, cm_par := par\<rparr>)))"

definition capi_message2cmsg :: "u8 list \<Rightarrow> cmsg outcome" where
  "capi_message2cmsg msg =
     bindo (get_command msg) (\<lambda>c.
     bindo (message_2_pars (length (cm_par c)) c) (\<lambda>c.
     let c = (if has_data c then c\<lparr>cm_Data := cm_qwords c P_Data64\<rparr> else c)
     in bindo (get_at msg 0 2) (\<lambda>l. bindo (get_at msg 2 2) (\<lambda>a. bindo (get_at msg 6 2) (\<lambda>n.
          Ok (c\<lparr>cm_l := le_word l, cm_ApplId := le_word a, cm_Messagenumber := le_word n\<rparr>))))))"

definition capi_cmsg_header :: "u16 \<Rightarrow> u8 \<Rightarrow> u8 \<Rightarrow> u16 \<Rightarrow> u32 \<Rightarrow> cmsg" where
  "capi_cmsg_header ApplId Command Subcommand Messagenumber Controller =
     zero_cmsg\<lparr>cm_ApplId := ApplId, cm_Command := Command, cm_Subcommand := Subcommand,
       cm_Messagenumber := Messagenumber, cm_dwords := (cm_dwords zero_cmsg)(P_adrController := Controller)\<rparr>"

definition capi_cmsg_answer :: "cmsg \<Rightarrow> cmsg" where
  "capi_cmsg_answer c = c\<lparr>cm_Subcommand := cm_Subcommand c OR 0x01\<rparr>"

end
