(* ===== verification/Capi_Roundtrip.thy ===== *)
theory Capi_Roundtrip
  imports Capi_Message
begin

text \<open>
  The CAPI codec read as a grammar: the parameter string of a command is the preorder of a list of trees
  (\<open>ptree\<close>), a leaf for a parameter, an inner node for a composed one. \<open>encs\<close> is the message a \<open>_cmsg\<close>
  stands for, written without positions and buffers; \<open>pars_2_message\<close> is shown to write it and
  \<open>message_2_pars\<close> to read from it what went in (\<open>agrees\<close>).
\<close>

section \<open>Words\<close>

lemma le_bytes_Suc: "le_bytes (Suc n) w = ucast w # le_bytes n (drop_bit 8 w)"
  by (simp add: le_bytes_def upt_conv_Cons map_Suc_upt [symmetric] del: upt_Suc) (simp add: comp_def add.commute)

lemma length_le_bytes [simp]: "length (le_bytes n w) = n"
  by (simp add: le_bytes_def)

lemma le_bytes_Nil [simp]: "le_bytes n w = [] \<longleftrightarrow> n = 0"
  by (simp flip: length_0_conv)

lemma le_word_bytes: "le_word (le_bytes n w) = take_bit (8 * n) w"
proof (induction n arbitrary: w)
  case 0
  then show ?case by (simp add: le_word_def le_bytes_def)
next
  case (Suc n)
  have "le_word (le_bytes (Suc n) w) = push_bit 8 (le_word (le_bytes n (drop_bit 8 w))) OR ucast (ucast w :: u8)"
    by (simp add: le_bytes_Suc le_word_def)
  also have "\<dots> = take_bit (8 * Suc n) w"
    unfolding Suc by (rule bit_eqI) (auto simp: bit_simps dest: bit_imp_le_length)
  finally show ?case .
qed

lemma le_word_bytes_full [simp]:
  "le_word (le_bytes 2 w) = (w :: u16)" "le_word (le_bytes 4 x) = (x :: u32)" "le_word (le_bytes 8 y) = (y :: u64)"
  by (simp_all add: le_word_bytes take_bit_length_eq [where 'a = 16, simplified]
    take_bit_length_eq [where 'a = 32, simplified] take_bit_length_eq [where 'a = 64, simplified])

section \<open>The grammar of the parameter strings\<close>

datatype ptree = Leaf u8 | Node u8 "ptree list"

fun flat :: "ptree \<Rightarrow> u8 list" where
  "flat (Leaf k) = [k]"
| "flat (Node k ts) = k # concat (map flat ts) @ [1]"

abbreviation flats :: "ptree list \<Rightarrow> u8 list" where
  "flats ts \<equiv> concat (map flat ts)"

fun tree_ok :: "ptree \<Rightarrow> bool" where
  "tree_ok (Leaf k) \<longleftrightarrow> unat k < length cdef \<and> fst (cdef ! unat k) \<noteq> CEND \<and> fst (cdef ! unat k) \<noteq> CMSTRUCT"
| "tree_ok (Node k ts) \<longleftrightarrow> unat k < length cdef \<and> fst (cdef ! unat k) = CMSTRUCT
     \<and> (case ts of Leaf x # _ \<Rightarrow> True | _ \<Rightarrow> False) \<and> list_all tree_ok ts"

fun tree_fields :: "ptree \<Rightarrow> cfield list" where
  "tree_fields (Leaf k) = [snd (cdef ! unat k)]"
| "tree_fields (Node k ts) = snd (cdef ! unat k) # concat (map tree_fields ts)"

abbreviation trees_fields :: "ptree list \<Rightarrow> cfield list" where
  "trees_fields ts \<equiv> concat (map tree_fields ts)"

definition b_protocol :: ptree where
  "b_protocol = Node 13 [Leaf 6, Leaf 8, Leaf 10, Leaf 5, Leaf 7, Leaf 9, Leaf 51]"

definition additional_info :: ptree where
  "additional_info = Node 4 [Leaf 12, Leaf 40, Leaf 48, Leaf 28, Leaf 50]"

definition ctrees :: "ptree list option list" where
  "ctrees = [
    None, Some [Leaf 3, additional_info],
    Some [Leaf 3, Leaf 20, Leaf 14, Leaf 16, Leaf 15, Leaf 17, b_protocol, Leaf 11, Leaf 41, Leaf 35, additional_info],
    None, Some [Leaf 3, additional_info], Some [Leaf 3, Leaf 38, Leaf 18, Leaf 19, Leaf 16, Leaf 17], None, None,
    Some [Leaf 3, Leaf 14, additional_info], Some [Leaf 3, Leaf 32, Leaf 30], Some [Leaf 3, b_protocol],
    Some [Leaf 3, Leaf 44], None, Some [Leaf 3, Leaf 44], None,
    Some [Leaf 3, Leaf 24, Leaf 26, Leaf 25, Leaf 33, Leaf 49], Some [Leaf 3, Leaf 44], None, None,
    Some [Leaf 3, Leaf 36], Some [Leaf 3, Leaf 36], None, Some [Leaf 3, Leaf 36], Some [Leaf 3, Leaf 36],
    Some [Leaf 3, Leaf 43, Leaf 21, Leaf 34, Leaf 42], None, Some [Leaf 3, Leaf 36],
    Some [Leaf 3, Leaf 36, Leaf 32, Leaf 27], Some [Leaf 3, Leaf 36], Some [Leaf 3, Leaf 36], None,
    Some [Leaf 3, Leaf 36], None, Some [Leaf 3, Leaf 25, Leaf 36], Some [Leaf 3, Leaf 36], None, None, None,
    Some [Leaf 3, Leaf 20, Leaf 14, Leaf 16, Leaf 15, Leaf 17, Leaf 11, Leaf 41, Leaf 35, additional_info],
    Some [Leaf 3, Leaf 22, Leaf 23, Leaf 41], Some [Leaf 3, Leaf 45], None,
    Some [Leaf 3, Leaf 43, Leaf 21, Leaf 34, Leaf 42], None, Some [Leaf 3, Leaf 39, Leaf 37],
    Some [Leaf 3, Leaf 32, Leaf 29], None, Some [Leaf 3, Leaf 44], Some [Leaf 3, Leaf 44],
    Some [Leaf 3, Leaf 46, Leaf 44], None, Some [Leaf 3, Leaf 24, Leaf 26, Leaf 25, Leaf 33, Leaf 49],
    Some [Leaf 3, Leaf 44], Some [Leaf 3, Leaf 44], None, None,
    Some [Leaf 3, Leaf 47, b_protocol, Leaf 22, Leaf 23, Leaf 41, additional_info], Some [Leaf 3], Some [Leaf 3],
    None, Some [Leaf 3, Leaf 43, Leaf 21, Leaf 34, Leaf 42], None, Some [Leaf 3], Some [Leaf 3, Leaf 32, Leaf 31],
    None, Some [Leaf 3, Leaf 47, Leaf 44], Some [Leaf 3], Some [Leaf 3], None, Some [Leaf 3, Leaf 25], Some [Leaf 3],
    Some [Leaf 3], None, None, None, None, None, None, Some [Leaf 3, Leaf 43, Leaf 21, Leaf 34, Leaf 42]]"

lemma cpars_trees: "cpars = map (map_option (\<lambda>ts. flats ts @ [1])) ctrees"
  by (simp add: cpars_def ctrees_def b_protocol_def additional_info_def)

lemma ctrees_ok: "list_all (\<lambda>t. case t of None \<Rightarrow> True | Some ts \<Rightarrow> list_all tree_ok ts) ctrees"
  by (simp add: ctrees_def b_protocol_def additional_info_def cdef_def)

lemma ctrees_distinct: "list_all (\<lambda>t. case t of None \<Rightarrow> True | Some ts \<Rightarrow> distinct (trees_fields ts)) ctrees"
  by (simp add: ctrees_def b_protocol_def additional_info_def cdef_def)

section \<open>What a message looks like\<close>

fun field_bytes :: "cmsg \<Rightarrow> ctype \<times> cfield \<Rightarrow> u8 list outcome" where
  "field_bytes c (CBYTE, f) = Ok [cm_bytes c f]"
| "field_bytes c (CWORD, f) = Ok (le_bytes 2 (cm_words c f))"
| "field_bytes c (CDWORD, f) = Ok (le_bytes 4 (cm_dwords c f))"
| "field_bytes c (CQWORD, f) = Ok (le_bytes 8 (cm_qwords c f))"
| "field_bytes c (CSTRUCT, f) = (case cm_structs c f of None \<Rightarrow> Ok [0] | Some s \<Rightarrow> struct_bytes s)"
| "field_bytes c _ = Undef"

text \<open>The bytes of a leaf and of a composed parameter; \<open>Bad\<close> if a composed one needs the long form.\<close>

fun enc :: "cmsg \<Rightarrow> ptree \<Rightarrow> u8 list outcome"
and encs :: "cmsg \<Rightarrow> ptree list \<Rightarrow> u8 list outcome" where
  "enc c (Leaf k) = field_bytes c (cdef ! unat k)"
| "enc c (Node k ts) =
     (if cm_mstructs c (snd (cdef ! unat k)) = CAPI_DEFAULT then Ok [0]
      else bindo (encs c ts) (\<lambda>bs. if length bs < 255 then Ok (of_nat (length bs) # bs) else Bad))"
| "encs c [] = Ok []"
| "encs c (t # ts) = bindo (enc c t) (\<lambda>a. bindo (encs c ts) (\<lambda>b. Ok (a @ b)))"

definition at_place :: "cmsg \<Rightarrow> u8 list \<Rightarrow> u16 \<Rightarrow> nat \<Rightarrow> cmsg" where
  "at_place c m l p = c\<lparr>cm_m := m, cm_l := l, cm_p := p\<rparr>"

lemma at_place_simps [simp]:
  "cm_m (at_place c m l p) = m" "cm_l (at_place c m l p) = l" "cm_p (at_place c m l p) = p"
  "cm_par (at_place c m l p) = cm_par c" "cm_mstructs (at_place c m l p) = cm_mstructs c"
  "cm_structs (at_place c m l p) = cm_structs c" "cm_bytes (at_place c m l p) = cm_bytes c"
  "cm_words (at_place c m l p) = cm_words c" "cm_dwords (at_place c m l p) = cm_dwords c"
  "cm_qwords (at_place c m l p) = cm_qwords c"
  "at_place (at_place c m l p) m' l' p' = at_place c m' l' p'"
  "(at_place c m l p)\<lparr>cm_m := m'\<rparr> = at_place c m' l p" "(at_place c m l p)\<lparr>cm_l := l'\<rparr> = at_place c m l' p"
  "(at_place c m l p)\<lparr>cm_p := p'\<rparr> = at_place c m l p'"
  by (simp_all add: at_place_def)

lemma at_place_self: "c = at_place c (cm_m c) (cm_l c) (cm_p c)"
  by (simp add: at_place_def)

section \<open>Writing\<close>

definition write_at :: "u8 list \<Rightarrow> nat \<Rightarrow> u8 list \<Rightarrow> u8 list" where
  "write_at m i bs = take i m @ bs @ drop (i + length bs) m"

lemma put_at_write: "i + length bs \<le> length m \<Longrightarrow> put_at m i bs = Ok (write_at m i bs)"
  by (simp add: put_at_def write_at_def)

lemma length_write_at [simp]: "i + length bs \<le> length m \<Longrightarrow> length (write_at m i bs) = length m"
  by (simp add: write_at_def)

lemma write_at_append:
  "i + length a + length b \<le> length m \<Longrightarrow> write_at (write_at m i a) (i + length a) b = write_at m i (a @ b)"
  by (cases a) (simp_all add: write_at_def min_def ac_simps)

lemma write_at_front:
  "i + 1 + length b \<le> length m \<Longrightarrow> write_at (write_at m (i + 1) b) i [x] = write_at m i (x # b)"
  by (simp add: write_at_def min_def)

lemma write_at_Nil [simp]: "write_at m i [] = m"
  by (simp add: write_at_def)

text \<open>The end of a composed parameter: the codes of a list of trees and the 1 behind them.\<close>

lemma code_at: "par = pre @ k # post \<Longrightarrow> unat k < length cdef \<Longrightarrow> code_entry par (length pre) = Ok (cdef ! unat k)"
  by (simp add: code_entry_def)

lemma end_at: "par = pre @ 1 # post \<Longrightarrow> code_entry par (length pre) = Ok (CEND, P_ApplId)"
  by (simp add: code_entry_def cdef_def)

lemma jump_Suc:
  "jump par p (Suc n) =
     (case code_entry par (Suc p) of
        Ok (typ, _) \<Rightarrow> jump par (Suc p) (if typ = CMSTRUCT then Suc (Suc n) else if typ = CEND then n else Suc n)
      | _ \<Rightarrow> Undef)"
  by (subst jump.simps) (simp split: outcome.split prod.split)

lemma jump_flats:
  "list_all tree_ok ts \<Longrightarrow> par = pre @ x # flats ts @ post \<Longrightarrow>
     jump par (length pre) (Suc n) = jump par (length pre + length (flats ts)) (Suc n)"
proof (induction ts arbitrary: pre x n post rule: measure_induct_rule [where f = "\<lambda>ts. length (flats ts)"])
  case (less ts)
  show ?case
  proof (cases ts)
    case (Cons t us)
    show ?thesis
    proof (cases t)
      case (Leaf k)
      have e: "code_entry par (Suc (length pre)) = Ok (cdef ! unat k)"
        using code_at [of par "pre @ [x]" k] less.prems by (simp add: Cons Leaf)
      have "jump par (length pre) (Suc n) = jump par (length (pre @ [x])) (Suc n)"
        using less.prems(1) by (cases "cdef ! unat k") (simp add: Cons Leaf jump_Suc [of par "length pre"] e)
      also have "\<dots> = jump par (length (pre @ [x]) + length (flats us)) (Suc n)"
        by (rule less.IH [where x = k]) (use less.prems in \<open>simp_all add: Cons Leaf\<close>)
      finally show ?thesis by (simp add: Cons Leaf)
    next
      case (Node k ds)
      have ok: "unat k < length cdef" "fst (cdef ! unat k) = CMSTRUCT" "list_all tree_ok ds"
        using less.prems by (simp_all add: Cons Node)
      have par: "par = pre @ x # k # flats ds @ 1 # flats us @ post"
        using less.prems by (simp add: Cons Node)
      have e: "code_entry par (Suc (length pre)) = Ok (cdef ! unat k)"
        using code_at [of par "pre @ [x]" k] par ok by simp
      have "jump par (length pre) (Suc n) = jump par (length (pre @ [x])) (Suc (Suc n))"
        using ok by (cases "cdef ! unat k") (simp add: jump_Suc [of par "length pre"] e)
      also have "\<dots> = jump par (length (pre @ [x]) + length (flats ds)) (Suc (Suc n))"
        by (rule less.IH [where x = k and post = "1 # flats us @ post"]) (use par ok in \<open>simp_all add: Cons Node\<close>)
      also have "\<dots> = jump par (length (pre @ x # k # flats ds)) (Suc n)"
        using end_at [of par "pre @ x # k # flats ds" "flats us @ post"] par by (subst jump_Suc) simp
      also have "\<dots> = jump par (length (pre @ x # k # flats ds) + length (flats us)) (Suc n)"
        by (rule less.IH [where x = 1]) (use less.prems in \<open>simp_all add: Cons Node\<close>)
      finally show ?thesis by (simp add: Cons Node add.commute add.left_commute)
    qed
  qed simp
qed

lemma jump_node:
  assumes "par = pre @ k # flats ds @ 1 # post" and "tree_ok (Node k ds)"
  shows "jump par (Suc (length pre)) 1 = Ok (Suc (length pre) + length (flats ds))"
proof -
  obtain x us where ds: "ds = Leaf x # us" "list_all tree_ok us"
    using assms(2) by (auto split: list.splits ptree.splits)
  have "jump par (length (pre @ [k])) (Suc 0) = jump par (length (pre @ [k]) + length (flats us)) (Suc 0)"
    by (rule jump_flats [where x = x and post = "1 # post"]) (use assms(1) ds in simp_all)
  also have "\<dots> = Ok (Suc (length pre) + length (flats ds))"
    using end_at [of par "pre @ k # flats ds" post] assms(1) ds
    by (simp add: jump_Suc jump.simps [of _ _ 0])
  finally show ?thesis by simp
qed

section \<open>The writer writes the encoding\<close>

lemma unat_add_of_nat: "unat (l :: u16) + n < 65536 \<Longrightarrow> unat (l + of_nat n) = unat l + n"
  by (simp add: unat_word_ariths unat_of_nat)

lemma encs_at_place [simp]:
  "enc (at_place c m l p) t = enc c t" "encs (at_place c m l p) ts = encs c ts"
proof (induction c t and c ts rule: enc_encs.induct)
  case (1 c k)
  then show ?case by (cases "cdef ! unat k"; cases "fst (cdef ! unat k)") (simp_all add: at_place_def)
qed (simp_all cong: bindo_cong)

lemma flat_pos: "Suc 0 \<le> length (flat t)"
  by (cases t) simp_all

lemma field_bytes_pos: "field_bytes c e = Ok a \<Longrightarrow> 1 \<le> length a"
  by (cases e; cases "fst e")
    (auto simp: struct_bytes_def get_at_def bindo_Ok_iff Suc_le_eq simp flip: length_greater_0_conv
       split: option.splits list.splits if_splits)

lemma encs_parts:
  assumes "tree_ok (Node k ds)" and "encs c ds = Ok as"
  shows "as \<noteq> []"
proof -
  obtain x us where "ds = Leaf x # us"
    using assms(1) by (auto split: list.splits ptree.splits)
  then obtain a b where "as = a @ b" "field_bytes c (cdef ! unat x) = Ok a"
    using assms(2) by (auto simp: bindo_Ok_iff)
  then show ?thesis
    using field_bytes_pos by fastforce
qed

lemma put_Ok:
  "unat (cm_l c) + length bs \<le> length (cm_m c) \<Longrightarrow>
   put bs c = Ok (at_place c (write_at (cm_m c) (unat (cm_l c)) bs) (cm_l c + of_nat (length bs)) (cm_p c))"
  by (simp add: put_def put_at_write at_place_def)

lemma write_leaf:
  assumes "code_entry (cm_par c) (cm_p c) = Ok e" and "fst e \<noteq> CEND" and "fst e \<noteq> CMSTRUCT"
  shows "pars_2_message (Suc n) c =
           bindo (field_bytes c e) (\<lambda>bs. bindo (put bs c) (\<lambda>c. pars_2_message n (c\<lparr>cm_p := cm_p c + 1\<rparr>)))"
  using assms by (cases e; cases "fst e") (simp_all add: Let_def)

lemma of_nat_less_255: "n < 65536 \<Longrightarrow> (of_nat n :: u16) < 255 \<longleftrightarrow> n < 255"
  by (simp add: word_less_nat_alt unat_of_nat)

lemma nth_write_at:
  "j + length b \<le> length m \<Longrightarrow> i < length m \<Longrightarrow>
     write_at m j b ! i = (if j \<le> i \<and> i < j + length b then b ! (i - j) else m ! i)"
  by (auto simp: write_at_def nth_append min_def)

lemma get_at_write: "i + length bs \<le> length m \<Longrightarrow> get_at (write_at m i bs) i (length bs) = Ok bs"
  by (simp add: get_at_def) (simp add: write_at_def)

lemma write_at_moved:
  "i + 3 + length b \<le> length m \<Longrightarrow> length h = 3 \<Longrightarrow>
     write_at (write_at (write_at m (Suc i) b) (i + 3) b) i h = write_at m i (h @ b)"
  by (rule nth_equalityI) (auto simp: nth_write_at nth_append)

lemma write_node:
  assumes "code_entry (cm_par c) (cm_p c) = Ok (CMSTRUCT, f)" and "cm_mstructs c f \<noteq> CAPI_DEFAULT"
    and "pars_2_message n (at_place c (cm_m c) (cm_l c + 1) (cm_p c + 1)) =
      Ok (at_place c (write_at (cm_m c) (unat (cm_l c) + 1) bs) (cm_l c + 1 + of_nat (length bs)) q)"
    and "unat (cm_l c) + 1 + length bs < 65536"
  shows "\<lbrakk>length bs < 255; unat (cm_l c) + 1 + length bs \<le> length (cm_m c)\<rbrakk> \<Longrightarrow> pars_2_message (Suc n) c =
      pars_2_message n (at_place c (write_at (cm_m c) (unat (cm_l c)) (of_nat (length bs) # bs))
        (cm_l c + 1 + of_nat (length bs)) (q + 1))" (is "\<lbrakk>_; _\<rbrakk> \<Longrightarrow> ?short")
    and "\<lbrakk>255 \<le> length bs; unat (cm_l c) + 3 + length bs \<le> length (cm_m c)\<rbrakk> \<Longrightarrow> pars_2_message (Suc n) c =
      pars_2_message n (at_place c (write_at (cm_m c) (unat (cm_l c)) (0xff # le_bytes 2 (of_nat (length bs) :: u16) @ bs))
        (cm_l c + 1 + of_nat (length bs)) (q + 1))" (is "\<lbrakk>_; _\<rbrakk> \<Longrightarrow> ?long")
proof -
  have in_eq: "c\<lparr>cm_l := cm_l c + 1, cm_p := cm_p c + 1\<rparr> = at_place c (cm_m c) (cm_l c + 1) (cm_p c + 1)"
    by (simp add: at_place_def)
  have ls: "cm_l c + 1 + of_nat (length bs) - of_nat (unat (cm_l c)) - 1 = (of_nat (length bs) :: u16)"
    by simp
  have u: "unat (of_nat (length bs) :: u16) = length bs" "(of_nat (length bs) :: u16) < 255 \<longleftrightarrow> length bs < 255"
      "ucast (of_nat (length bs) :: u16) = (of_nat (length bs) :: u8)"
    using assms(4) by (simp_all add: unat_of_nat of_nat_less_255 unsigned_of_nat take_bit_eq_mod)
  show ?short if "length bs < 255" "unat (cm_l c) + 1 + length bs \<le> length (cm_m c)"
    using that assms(1,2) u(2)
    by (simp add: Let_def in_eq [simplified] assms(3) [simplified] put_at_write ls [simplified] u(3)
      write_at_front [where x = "of_nat (length bs)", simplified])
  show ?long if "255 \<le> length bs" "unat (cm_l c) + 3 + length bs \<le> length (cm_m c)"
    using that assms(1,2) u write_at_moved [of "unat (cm_l c)" bs "cm_m c" "0xff # le_bytes 2 (of_nat (length bs) :: u16)"]
      get_at_write [of "Suc (unat (cm_l c))" bs "cm_m c"]
    by (simp add: Let_def in_eq [simplified] assms(3) [simplified] ls [simplified] put_at_write)
qed

lemma pars_2_message_encs:
  assumes "length (flats ts) < n" and "cm_par c = pre @ flats ts @ 1 # post" and "cm_p c = length pre"
    and "list_all tree_ok ts" and "encs c ts = Ok bs"
    and "unat (cm_l c) + length bs \<le> length (cm_m c)" and "unat (cm_l c) + length bs < 65536"
  shows "pars_2_message n c = Ok (at_place c (write_at (cm_m c) (unat (cm_l c)) bs)
           (cm_l c + of_nat (length bs)) (length pre + length (flats ts)))"
  using assms
proof (induction n arbitrary: c pre ts post bs)
  case (Suc n)
  show ?case
  proof (cases ts)
    case Nil
    then show ?thesis
      using Suc.prems end_at [of "cm_par c" pre post] by (simp add: at_place_def)
  next
    case (Cons t us)
    obtain a b where ab: "enc c t = Ok a" "encs c us = Ok b" "bs = a @ b"
      using Suc.prems by (auto simp: Cons bindo_Ok_iff)
    let ?l = "unat (cm_l c)"
    let ?c = "at_place c (write_at (cm_m c) ?l a) (cm_l c + of_nat (length a)) (length (pre @ flat t))"
    have la: "unat (cm_l c + of_nat (length a)) = ?l + length a"
      by (rule unat_add_of_nat) (use Suc.prems ab in simp)
    have rest: "pars_2_message n ?c = Ok (at_place c (write_at (cm_m c) ?l bs)
        (cm_l c + of_nat (length bs)) (length pre + length (flats ts)))"
    proof -
      have m: "write_at (cm_m ?c) (unat (cm_l ?c)) b = write_at (cm_m c) ?l bs"
        using Suc.prems(6) ab(3) la by (simp add: write_at_append)
      have "pars_2_message n ?c = Ok (at_place ?c (write_at (cm_m ?c) (unat (cm_l ?c)) b)
          (cm_l ?c + of_nat (length b)) (length (pre @ flat t) + length (flats us)))"
        by (rule Suc.IH [where post = post]) (use Suc.prems ab la flat_pos [of t] in \<open>simp_all add: Cons, arith?\<close>)
      then show ?thesis
        unfolding m by (simp add: ab(3) Cons add.assoc)
    qed
    show ?thesis
    proof (cases t)
      case (Leaf k)
      have e: "code_entry (cm_par c) (cm_p c) = Ok (cdef ! unat k)"
        using code_at [of "cm_par c" pre k] Suc.prems by (simp add: Cons Leaf)
      have "fst (cdef ! unat k) \<noteq> CEND" "fst (cdef ! unat k) \<noteq> CMSTRUCT"
        using Suc.prems(4) by (simp_all add: Cons Leaf)
      then have "pars_2_message (Suc n) c =
          bindo (field_bytes c (cdef ! unat k)) (\<lambda>bs. bindo (put bs c) (\<lambda>c. pars_2_message n (c\<lparr>cm_p := cm_p c + 1\<rparr>)))"
        by (rule write_leaf [OF e])
      also have "\<dots> = pars_2_message n ?c"
        using ab Suc.prems(3,6) by (simp add: Leaf put_Ok)
      finally show ?thesis
        unfolding rest .
    next
      case (Node k ds)
      obtain f where e: "code_entry (cm_par c) (cm_p c) = Ok (CMSTRUCT, f)" and f: "cdef ! unat k = (CMSTRUCT, f)"
        using code_at [of "cm_par c" pre k] Suc.prems by (cases "cdef ! unat k") (simp add: Cons Node)
      show ?thesis
      proof (cases "cm_mstructs c f = CAPI_DEFAULT")
        case True
        then have "a = [0]" using ab f by (simp add: Node)
        moreover have "jump (cm_par c) (Suc (length pre)) 1 = Ok (Suc (length pre) + length (flats ds))"
          using Suc.prems by (intro jump_node [where k = k]) (simp_all add: Cons Node)
        ultimately have "pars_2_message (Suc n) c = pars_2_message n ?c"
          using Suc.prems(3,6) ab(3) e True by (simp add: Node put_Ok jumpcstruct_def Let_def)
        then show ?thesis
          unfolding rest .
      next
        case False
        then obtain as where as: "encs c ds = Ok as" "length as < 255" "a = of_nat (length as) # as"
          using ab f by (auto simp: Node bindo_Ok_iff split: if_splits)
        let ?in = "at_place c (cm_m c) (cm_l c + 1) (cm_p c + 1)"
        have l1: "unat (cm_l c + 1) = ?l + 1"
          using unat_add_of_nat [of "cm_l c" 1] Suc.prems ab as by simp
        have "pars_2_message n ?in = Ok (at_place ?in (write_at (cm_m ?in) (unat (cm_l ?in)) as)
            (cm_l ?in + of_nat (length as)) (length (pre @ [k]) + length (flats ds)))"
          by (rule Suc.IH [where post = "flats us @ 1 # post"])
            (use Suc.prems as ab l1 in \<open>simp_all add: Cons Node\<close>)
        then have "pars_2_message (Suc n) c = pars_2_message n ?c"
          by (subst write_node(1) [OF e False, where bs = as and q = "length (pre @ [k]) + length (flats ds)"])
            (use Suc.prems(6,7) ab(3) as(2,3) l1 in \<open>simp_all add: Node add.assoc\<close>)
        then show ?thesis
          unfolding rest .
      qed
    qed
  qed
qed simp

section \<open>Reading\<close>

definition same_at :: "cmsg \<Rightarrow> cmsg \<Rightarrow> cfield \<Rightarrow> bool" where
  "same_at c d f \<longleftrightarrow> cm_bytes d f = cm_bytes c f \<and> cm_words d f = cm_words c f \<and> cm_dwords d f = cm_dwords c f
     \<and> cm_qwords d f = cm_qwords c f \<and> cm_structs d f = cm_structs c f \<and> cm_mstructs d f = cm_mstructs c f"

text \<open>From \<open>c\<close> to \<open>d\<close> the reader has passed \<open>k\<close> bytes and \<open>q\<close> codes and set members of \<open>fs\<close> only.\<close>

definition passed :: "nat \<Rightarrow> nat \<Rightarrow> cfield list \<Rightarrow> cmsg \<Rightarrow> cmsg \<Rightarrow> bool" where
  "passed k q fs c d \<longleftrightarrow> cm_m d = cm_m c \<and> cm_par d = cm_par c \<and> cm_l d = cm_l c + of_nat k \<and> cm_p d = cm_p c + q
     \<and> cm_ApplId d = cm_ApplId c \<and> cm_Command d = cm_Command c \<and> cm_Subcommand d = cm_Subcommand c
     \<and> cm_Messagenumber d = cm_Messagenumber c \<and> cm_Data d = cm_Data c \<and> (\<forall>f. f \<notin> set fs \<longrightarrow> same_at c d f)"

lemma passed_refl: "passed 0 0 [] c c"
  by (simp add: passed_def same_at_def)

lemma passed_trans: "passed k q fs c d \<Longrightarrow> passed k' q' fs' d e \<Longrightarrow> passed (k + k') (q + q') (fs @ fs') c e"
  by (simp add: passed_def same_at_def)

text \<open>
  The members of a parameter agree: equal words; structures with the same length and contents, wherever they
  are; and of a composed parameter the choice, and the parts if it is composed.
\<close>

fun agree :: "cmsg \<Rightarrow> cmsg \<Rightarrow> ptree \<Rightarrow> bool" where
  "agree c d (Leaf k) \<longleftrightarrow> field_bytes d (cdef ! unat k) = field_bytes c (cdef ! unat k)"
| "agree c d (Node k ts) \<longleftrightarrow> (let f = snd (cdef ! unat k) in
     cm_mstructs d f = cm_mstructs c f \<and> (cm_mstructs c f = CAPI_COMPOSE \<longrightarrow> list_all (agree c d) ts))"

lemma field_bytes_same: "same_at d e (snd k) \<Longrightarrow> field_bytes e k = field_bytes d k"
  by (cases k; cases "fst k") (simp_all add: same_at_def)

lemma agree_same: "(\<And>f. f \<in> set (tree_fields t) \<Longrightarrow> same_at d e f) \<Longrightarrow> agree c e t = agree c d t"
proof (induction t)
  case (Node k ts)
  have "list_all (agree c e) ts = list_all (agree c d) ts"
    using Node by (intro list.pred_cong refl) auto
  moreover have "same_at d e (snd (cdef ! unat k))"
    using Node.prems by simp
  ultimately show ?case by (simp add: Let_def same_at_def)
qed (simp add: field_bytes_same)

lemma struct_bytes_append: "struct_bytes s = Ok b \<Longrightarrow> struct_bytes (b @ r) = Ok b"
  by (auto simp: struct_bytes_def get_at_def bindo_Ok_iff min_def numeral_eq_Suc split: list.splits if_splits)

lemma get_at_prefix:
  assumes "drop l m = b @ r" and "0 < n" and "k + n \<le> length b"
  shows "get_at m (l + k) n = Ok (take n (drop k b))"
proof -
  have "length m - l = length b + length r" "drop (l + k) m = drop k (b @ r)"
    using assms(1) by (simp_all flip: length_drop drop_drop add: add.commute)
  then show ?thesis
    using assms(2,3) by (simp add: get_at_def)
qed

lemma get_struct_Ok:
  assumes "struct_bytes s = Ok b" and "drop (unat (cm_l d)) (cm_m d) = b @ r"
  shows "get_struct f d = Ok (d\<lparr>cm_structs := (cm_structs d)(f := Some (b @ r)), cm_l := cm_l d + of_nat (length b)\<rparr>)"
proof -
  have "b \<noteq> []"
    using field_bytes_pos [of "zero_cmsg\<lparr>cm_structs := (\<lambda>_. Some s)\<rparr>" "(CSTRUCT, f)"] assms(1) by fastforce
  then obtain n b' where b: "b = n # b'"
    by (cases b) simp_all
  have l: "unat (cm_l d) < length (cm_m d)"
    using assms(2) b by (cases "unat (cm_l d) < length (cm_m d)") simp_all
  have n: "cm_m d ! unat (cm_l d) = n"
    using assms(2) l by (metis b append_Cons hd_drop_conv_nth list.sel(1))
  show ?thesis
  proof (cases "n = 0xff")
    case False
    then have "length b = 1 + unat n"
      using assms(1) by (auto simp: b struct_bytes_def get_at_def bindo_Ok_iff numeral_3_eq_3 split: list.splits if_splits)
    then show ?thesis
      using assms(2) l n False by (simp add: get_struct_def)
  next
    case True
    then obtain w where w: "w = take 2 b'" "length w = 2" "length b = 3 + unat (le_word w :: u16)"
      using assms(1)
      by (auto simp: b struct_bytes_def get_at_def bindo_Ok_iff numeral_eq_Suc split: list.splits if_splits)
    moreover have "get_at (cm_m d) (Suc (unat (cm_l d))) 2 = Ok w"
      using get_at_prefix [OF assms(2), of 2 1] w by (simp add: b)
    ultimately show ?thesis
      using assms(2) l n True by (simp add: get_struct_def)
  qed
qed

lemma drop_behind: "drop l m = a @ b @ r \<Longrightarrow> drop (l + length a) m = b @ r"
  by (metis add.commute append_eq_conv_conj drop_drop)

lemma first_at: "drop l m = x # r \<Longrightarrow> l < length m \<and> m ! l = x"
  by (metis drop_eq_Nil hd_drop_conv_nth leI list.sel(1) list.simps(3))

lemma read_leaf:
  assumes e: "code_entry (cm_par d) (cm_p d) = Ok (ty, f)" and "ty \<noteq> CEND" "ty \<noteq> CMSTRUCT"
    and a: "field_bytes c (ty, f) = Ok a" and m: "drop (unat (cm_l d)) (cm_m d) = a @ r"
  obtains d' where "message_2_pars (Suc n) d = message_2_pars n d'" and "passed (length a) 1 [f] d d'"
    and "field_bytes d' (ty, f) = field_bytes c (ty, f)"
proof (cases ty)
  case CBYTE
  with a m e get_at_prefix [OF m, of 1 0] show ?thesis
    by (intro that [of "d\<lparr>cm_l := cm_l d + 1, cm_bytes := (cm_bytes d)(f := cm_bytes c f), cm_p := cm_p d + 1\<rparr>"])
      (auto simp: get_def passed_def same_at_def Let_def)
next
  case CWORD
  with a m e get_at_prefix [OF m, of 2 0] show ?thesis
    by (intro that [of "d\<lparr>cm_l := cm_l d + 2, cm_words := (cm_words d)(f := cm_words c f), cm_p := cm_p d + 1\<rparr>"])
      (auto simp: get_def passed_def same_at_def Let_def)
next
  case CDWORD
  with a m e get_at_prefix [OF m, of 4 0] show ?thesis
    by (intro that [of "d\<lparr>cm_l := cm_l d + 4, cm_dwords := (cm_dwords d)(f := cm_dwords c f), cm_p := cm_p d + 1\<rparr>"])
      (auto simp: get_def passed_def same_at_def Let_def)
next
  case CQWORD
  with a m e get_at_prefix [OF m, of 8 0] show ?thesis
    by (intro that [of "d\<lparr>cm_l := cm_l d + 8, cm_qwords := (cm_qwords d)(f := cm_qwords c f), cm_p := cm_p d + 1\<rparr>"])
      (auto simp: get_def passed_def same_at_def Let_def)
next
  case CSTRUCT
  have "struct_bytes (case cm_structs c f of None \<Rightarrow> [0] | Some s \<Rightarrow> s) = Ok a"
    using a by (auto simp: CSTRUCT struct_bytes_def get_at_def split: option.splits)
  then show ?thesis
    using e a CSTRUCT get_struct_Ok [OF _ m, of _ f] struct_bytes_append [of _ a r]
    by (intro that [of "d\<lparr>cm_structs := (cm_structs d)(f := Some (a @ r)), cm_l := cm_l d + of_nat (length a), cm_p := cm_p d + 1\<rparr>"])
      (auto simp: passed_def same_at_def Let_def)
qed (use assms in simp_all)

lemma message_2_pars_encs:
  assumes "length (flats ts) < n" and "cm_par d = pre @ flats ts @ 1 # post" and "cm_p d = length pre"
    and "list_all tree_ok ts" and "distinct (trees_fields ts)" and "encs c ts = Ok bs"
    and "drop (unat (cm_l d)) (cm_m d) = bs @ r" and "unat (cm_l d) + length bs < 65536"
  shows "\<exists>d'. message_2_pars n d = Ok d' \<and> passed (length bs) (length (flats ts)) (trees_fields ts) d d'
           \<and> list_all (agree c d') ts"
  using assms
proof (induction n arbitrary: d pre ts post bs r)
  case (Suc n)
  show ?case
  proof (cases ts)
    case Nil
    then show ?thesis
      using Suc.prems end_at [of "cm_par d" pre post] by (simp add: passed_refl)
  next
    case (Cons t us)
    obtain a b where ab: "enc c t = Ok a" "encs c us = Ok b" "bs = a @ b"
      using Suc.prems by (auto simp: Cons bindo_Ok_iff)
    have la: "unat (cm_l d + of_nat (length a)) = unat (cm_l d) + length a"
      by (rule unat_add_of_nat) (use Suc.prems ab in simp)
    have disj: "set (tree_fields t) \<inter> set (trees_fields us) = {}"
      using Suc.prems(5) by (auto simp: Cons)
    have rest: ?thesis
      if step: "message_2_pars (Suc n) d = message_2_pars n d1"
        and d1: "passed (length a) (length (flat t)) (tree_fields t) d d1" "agree c d1 t" for d1
    proof -
      have d1': "cm_m d1 = cm_m d" "cm_par d1 = cm_par d" "cm_l d1 = cm_l d + of_nat (length a)"
          "cm_p d1 = cm_p d + length (flat t)"
        using d1(1) by (simp_all add: passed_def)
      have "drop (unat (cm_l d1)) (cm_m d1) = b @ r"
        using Suc.prems(7) unfolding d1' la by (intro drop_behind) (simp add: ab)
      then have "\<exists>d'. message_2_pars n d1 = Ok d' \<and> passed (length b) (length (flats us)) (trees_fields us) d1 d'
           \<and> list_all (agree c d') us"
        by (intro Suc.IH [where pre = "pre @ flat t" and post = post and bs = b])
          (use Suc.prems ab la flat_pos [of t] in \<open>simp_all add: Cons d1', arith?\<close>)
      then obtain d2 where d2: "message_2_pars n d1 = Ok d2" "passed (length b) (length (flats us)) (trees_fields us) d1 d2"
          "list_all (agree c d2) us"
        by blast
      have "agree c d2 t = agree c d1 t"
        using d2(2) disj by (intro agree_same) (unfold passed_def, blast)
      then show ?thesis
        using step d1 d2 passed_trans [OF d1(1) d2(2)] by (simp add: Cons ab)
    qed
    show ?thesis
    proof (cases t)
      case (Leaf k)
      obtain ty f where tf: "cdef ! unat k = (ty, f)" by fastforce
      have "code_entry (cm_par d) (cm_p d) = Ok (ty, f)"
        using code_at [of "cm_par d" pre k] Suc.prems by (simp add: Cons Leaf tf)
      then obtain d1 where "message_2_pars (Suc n) d = message_2_pars n d1" "passed (length a) 1 [f] d d1"
          "field_bytes d1 (ty, f) = field_bytes c (ty, f)"
        by (rule read_leaf [where c = c and a = a and r = "b @ r" and n = n])
          (use Suc.prems(4,7) ab in \<open>simp_all add: Cons Leaf tf\<close>)
      then show ?thesis
        by (intro rest [of d1]) (simp_all add: Leaf tf del: message_2_pars.simps)
    next
      case (Node k ds)
      obtain f where e: "code_entry (cm_par d) (cm_p d) = Ok (CMSTRUCT, f)" and f: "cdef ! unat k = (CMSTRUCT, f)"
        using code_at [of "cm_par d" pre k] Suc.prems by (cases "cdef ! unat k") (simp add: Cons Node)
      have m: "drop (unat (cm_l d)) (cm_m d) = a @ b @ r"
        using Suc.prems(7) ab(3) by simp
      show ?thesis
      proof (cases "cm_mstructs c f = CAPI_DEFAULT")
        case True
        then have a: "a = [0]" using ab f by (simp add: Node)
        have j: "jump (cm_par d) (Suc (length pre)) 1 = Ok (Suc (length pre) + length (flats ds))"
          using Suc.prems by (intro jump_node [where k = k]) (simp_all add: Cons Node)
        let ?d1 = "d\<lparr>cm_mstructs := (cm_mstructs d)(f := CAPI_DEFAULT), cm_l := cm_l d + 1,
            cm_p := length pre + length (flat t)\<rparr>"
        show ?thesis
          by (rule rest [of ?d1])
            (use e j m a first_at [of "unat (cm_l d)" "cm_m d" 0 "b @ r"] Suc.prems(3) True f in
              \<open>simp_all add: Node jumpcstruct_def Let_def passed_def same_at_def\<close>)
      next
        case False
        then obtain as where as: "encs c ds = Ok as" "length as < 255" "a = of_nat (length as) # as"
          using ab f by (auto simp: Node bindo_Ok_iff split: if_splits)
        have "as \<noteq> []"
          using as(1) Suc.prems(4) by (intro encs_parts [of k]) (simp_all add: Cons Node)
        moreover have u: "unat (of_nat (length as) :: u8) = length as"
          using as(2) by (simp add: unat_of_nat)
        ultimately have k: "(of_nat (length as) :: u8) \<noteq> 0" "(of_nat (length as) :: u8) \<noteq> 255"
          using u as(2) by (auto simp: unat_eq_0 dest: arg_cong [of _ _ unat])
        let ?d0 = "d\<lparr>cm_mstructs := (cm_mstructs d)(f := CAPI_COMPOSE), cm_l := cm_l d + 1, cm_p := cm_p d + 1\<rparr>"
        have l1: "unat (cm_l d + 1) = unat (cm_l d) + 1"
          using unat_add_of_nat [of "cm_l d" 1] Suc.prems(8) ab as by simp
        have "\<exists>d'. message_2_pars n ?d0 = Ok d' \<and> passed (length as) (length (flats ds)) (trees_fields ds) ?d0 d'
            \<and> list_all (agree c d') ds"
          by (rule Suc.IH [where pre = "pre @ [k]" and post = "flats us @ 1 # post" and r = "b @ r"])
            (use Suc.prems as ab l1 m drop_behind [of "unat (cm_l d)" "cm_m d" "[of_nat (length as)]" as "b @ r"]
              in \<open>simp_all add: Cons Node\<close>)
        then obtain d2 where d2: "message_2_pars n ?d0 = Ok d2" "list_all (agree c d2) ds"
            "passed (length as) (length (flats ds)) (trees_fields ds) ?d0 d2"
          by blast
        let ?d1 = "d2\<lparr>cm_p := cm_p d2 + 1\<rparr>"
        have f_out: "f \<notin> set (trees_fields ds)"
          using Suc.prems(5) f by (simp add: Cons Node)
        have "passed 1 1 [f] d ?d0" "passed 0 1 [] d2 ?d1"
          by (simp_all add: passed_def same_at_def)
        then have p: "passed (length a) (length (flat t)) (tree_fields t) d ?d1"
          using passed_trans [OF passed_trans [OF _ d2(3)]] by (fastforce simp: as Node f)
        have "agree c ?d1 x \<longleftrightarrow> agree c d2 x" for x
          by (rule agree_same) (simp add: same_at_def)
        moreover have "cm_mstructs ?d1 f = CAPI_COMPOSE"
          using d2(3) f_out by (simp add: passed_def same_at_def)
        ultimately have "agree c ?d1 t"
          using d2(2) False by (cases "cm_mstructs c f") (simp_all add: Node f list_all_iff)
        moreover have "message_2_pars (Suc n) d = message_2_pars n ?d1"
          using e first_at [of "unat (cm_l d)" "cm_m d" "of_nat (length as)" "as @ b @ r"] m as k d2(1) by (simp add: Let_def)
        ultimately show ?thesis
          using p by (intro rest [of ?d1])
      qed
    qed
  qed
qed simp

end
