(* ===== verification/Capi_Properties.thy ===== *)
theory Capi_Properties
  imports Capi_Roundtrip
begin

text \<open>
  What the CAPI codec guarantees: the layout of the message it writes, the round trip, and the composed
  parameter that is too long for one length byte.
\<close>

section \<open>Commands and messages\<close>



definition header :: "cmsg \<Rightarrow> nat \<Rightarrow> u8 list" where
  "header c n = le_bytes 2 (of_nat n :: u16) @ le_bytes 2 (cm_ApplId c) @ [cm_Command c, cm_Subcommand c]
     @ le_bytes 2 (cm_Messagenumber c)"

lemma length_header [simp]: "length (header c n) = 8"
  by (simp add: header_def)

lemma le_bytes_2: "le_bytes 2 w = [ucast w, ucast (drop_bit 8 w)]"
  by (simp add: le_bytes_def numeral_2_eq_2)

lemma put_header_Ok:
  assumes "8 \<le> length (cm_m c)" and "cm_l c = of_nat n"
  shows "put_header c = Ok (header c n @ drop 8 (cm_m c))"
proof -
  obtain m0 m1 m2 m3 m4 m5 m6 m7 m where m: "cm_m c = m0 # m1 # m2 # m3 # m4 # m5 # m6 # m7 # m"
    using assms(1) by (auto simp: numeral_eq_Suc Suc_le_length_iff)
  show ?thesis
    by (simp add: put_header_def put_at_def m assms(2) header_def le_bytes_2)
qed

lemma data_out_parts [simp]:
  "cm_m (data_out c) = cm_m c" "cm_l (data_out c) = cm_l c" "cm_p (data_out c) = cm_p c"
  "cm_par (data_out c) = cm_par c" "cm_ApplId (data_out c) = cm_ApplId c" "cm_Command (data_out c) = cm_Command c"
  "cm_Subcommand (data_out c) = cm_Subcommand c" "cm_Messagenumber (data_out c) = cm_Messagenumber c"
  "cm_mstructs (data_out c) = cm_mstructs c"
  by (simp_all add: data_out_def)


lemma field_bytes_par: "field_bytes (c\<lparr>cm_par := par\<rparr>) e = field_bytes c e"
  by (cases e; cases "fst e") simp_all

lemma encs_par [simp]:
  "enc (c\<lparr>cm_par := par\<rparr>) t = enc c t" "encs (c\<lparr>cm_par := par\<rparr>) ts = encs c ts"
  by (induction c t and c ts rule: enc_encs.induct) (simp_all add: field_bytes_par cong: bindo_cong)

lemma header_cong [simp]: "header (at_place c m l p) n = header c n" "header (c\<lparr>cm_par := par\<rparr>) n = header c n"
  "header (data_out c) n = header c n"
  by (simp_all add: header_def at_place_def)

lemma write_at_8: "8 + length bs \<le> length m \<Longrightarrow> drop 8 (write_at m 8 bs) = bs @ drop (8 + length bs) m"
  by (simp add: write_at_def)



lemma drop_header: "drop 8 (header c n @ r) = r"
  by simp




lemma write_end: "code_entry (cm_par c) (cm_p c) = Ok (CEND, P_ApplId) \<Longrightarrow> 0 < n \<Longrightarrow> pars_2_message n c = Ok c"
  by (cases n) simp_all

section \<open>Properties\<close>








text \<open>
  C35: A composed parameter of 255 bytes and more gets a length of three bytes, but \<open>pars_2_message\<close> moves on
  by one: the message of an \<open>ALERT_REQ\<close> with such additional information has \<open>15 + n\<close> bytes, and its
  length field says \<open>13 + n\<close>.
\<close>

theorem capi_long_parameter_cut:
  assumes "cm_Command c = 0x01" and "cm_Subcommand c = CAPI_REQ" and "cm_mstructs c P_AdditionalInfo = CAPI_COMPOSE"
    and "encs c [Leaf 12, Leaf 40, Leaf 48, Leaf 28, Leaf 50] = Ok bs" and "255 \<le> length bs"
    and "15 + length bs \<le> length msg" and "15 + length bs < 65536"
  shows "\<exists>c'. capi_cmsg2message c msg = Ok c' \<and> cm_l c' = of_nat (13 + length bs)
    \<and> cm_m c' = header c (13 + length bs) @ le_bytes 4 (cm_dwords c P_adrController)
        @ 0xff # le_bytes 2 (of_nat (length bs) :: u16) @ bs @ drop (15 + length bs) msg"
proof -
  let ?par = "[3, 4, 12, 40, 48, 28, 50, 1, 1] :: u8 list" and ?ts = "[Leaf 12, Leaf 40, Leaf 48, Leaf 28, Leaf 50]"
  let ?a = "le_bytes 4 (cm_dwords c P_adrController)" and ?h = "0xff # le_bytes 2 (of_nat (length bs) :: u16) @ bs"
  let ?c = "at_place (c\<lparr>cm_par := ?par\<rparr>)"
  have l9: "length ?par = 9" by simp
  have c: "command_pars 1 0x80 = Ok ?par" "data_out (c\<lparr>cm_m := msg, cm_l := 8, cm_p := 0, cm_par := ?par\<rparr>) = ?c msg 8 0"
    using assms(1) by (simp_all add: command_pars_def command_2_index_def cpars_def data_out_def has_data_def CAPI_DATA_B3_def at_place_def)
  have "pars_2_message 9 (?c msg 8 0) = pars_2_message 8 (?c (write_at msg 8 ?a) 12 1)"
    using assms(6) write_leaf [of "?c msg 8 0" "(CDWORD, P_adrController)" 8]
    by (simp add: code_entry_def cdef_def put_Ok)
  also have "\<dots> = pars_2_message 7 (?c (write_at (write_at msg 8 ?a) 12 ?h) (13 + of_nat (length bs)) 8)"
  proof -
    let ?d = "?c (write_at msg 8 ?a) 12 1"
    have inner: "pars_2_message 7 (at_place ?d (cm_m ?d) (cm_l ?d + 1) (cm_p ?d + 1))
        = Ok (at_place ?d (write_at (cm_m ?d) (unat (cm_l ?d) + 1) bs) (cm_l ?d + 1 + of_nat (length bs)) 7)"
    proof -
      have l: "length ([3, 4] :: u8 list) + length (flats ?ts) = 7" by simp
      show ?thesis
        by (subst pars_2_message_encs [where pre = "[3, 4]" and post = "[1]" and ts = ?ts and bs = bs, unfolded l])
          (use assms(4,6,7) in \<open>simp_all add: cdef_def\<close>)
    qed
    show ?thesis
      using write_node(2) [OF _ _ inner, of P_AdditionalInfo] assms(3,5,6,7) by (simp add: code_entry_def cdef_def)
  qed
  also have "\<dots> = Ok (?c (write_at msg 8 (?a @ ?h)) (13 + of_nat (length bs)) 8)"
    using assms(6) write_at_append [of 8 ?a ?h msg] by (subst write_end) (simp_all add: code_entry_def cdef_def)
  finally have w: "pars_2_message (length ?par) (?c msg 8 0) = Ok (?c (write_at msg 8 (?a @ ?h)) (13 + of_nat (length bs)) 8)"
    unfolding l9 .
  have h: "put_header (?c (write_at msg 8 (?a @ ?h)) (13 + of_nat (length bs)) 8)
      = Ok (header c (13 + length bs) @ drop 8 (write_at msg 8 (?a @ ?h)))"
    by (subst put_header_Ok [where n = "13 + length bs"]) (use assms(6) in simp_all)
  have d: "drop 8 (write_at msg 8 (?a @ ?h)) = ?a @ ?h @ drop (15 + length bs) msg"
    using write_at_8 [of "?a @ ?h" msg] assms(6) by simp
  show ?thesis
    unfolding capi_cmsg2message_def assms(1,2) CAPI_REQ_def c bindo.simps w h d by simp
qed

text \<open>An \<open>ALERT_REQ\<close> with 251 bytes of facility data and \<open>SendingComplete\<close>, which is cut off.\<close>

definition example_long :: cmsg where
  "example_long = (capi_cmsg_header 7 0x01 0x80 1 1)\<lparr>
     cm_structs := [P_Facilitydataarray \<mapsto> 251 # replicate 251 9, P_SendingComplete \<mapsto> [1, 77]]\<rparr>"

theorem capi_long_parameter_cut_witness:
  "\<exists>c'. capi_cmsg2message example_long (replicate 300 0) = Ok c' \<and> cm_l c' = 270
     \<and> take 2 (cm_m c') = [14, 1] \<and> drop 270 (cm_m c') = [1, 77] @ replicate 28 0"
proof -
  have e: "encs example_long [Leaf 12, Leaf 40, Leaf 48, Leaf 28, Leaf 50] = Ok ([0, 0, 0, 251] @ replicate 251 9 @ [1, 77])"
    by (simp add: example_long_def capi_cmsg_header_def zero_cmsg_def cdef_def struct_bytes_def get_at_def)
  have "\<exists>c'. capi_cmsg2message example_long (replicate 300 0) = Ok c' \<and> cm_l c' = of_nat 270
      \<and> cm_m c' = header example_long 270 @ le_bytes 4 (cm_dwords example_long P_adrController)
        @ 0xff # le_bytes 2 (of_nat 257 :: u16) @ ([0, 0, 0, 251] @ replicate 251 9 @ [1, 77]) @ replicate 28 0"
    using capi_long_parameter_cut [of example_long, OF _ _ _ e, of "replicate 300 0"]
    by (simp add: example_long_def capi_cmsg_header_def zero_cmsg_def CAPI_REQ_def)
  then obtain c' where "capi_cmsg2message example_long (replicate 300 0) = Ok c'" "cm_l c' = of_nat 270"
      "cm_m c' = header example_long 270 @ le_bytes 4 (cm_dwords example_long P_adrController)
        @ 0xff # le_bytes 2 (of_nat 257 :: u16) @ ([0, 0, 0, 251] @ replicate 251 9 @ [1, 77]) @ replicate 28 0"
    by blast
  then show ?thesis
    by (simp add: header_def le_bytes_2)
qed

end
